(* ===== verification/Prelude.thy ===== *)
theory Prelude
  imports Main "HOL-Library.AList" "HOL-Library.Word" "HOL-Library.Monad_Syntax"
begin

text \<open>
  Shared vocabulary of the development: hash maps as association lists, checked machine
  arithmetic, durations, and the shared facts of the component theories.

  A Rust computation that may panic is a value of an option type: \<open>None\<close> is the panic. The
  model is the one of a build with debug assertions and overflow checks, the profile in
  which every \<open>debug_assert!\<close> and every integer overflow of the source stops the program.

  A hash map (\<open>FnvHashMap\<close>, \<open>HashMap\<close>) is an association list with distinct keys. The
  order of the list stands for the iteration order, which the source leaves open; no
  property below depends on which order it is.
\<close>

named_theorems hm_simps \<open>lookups in updated hash maps\<close>
named_theorems panic_free \<open>computations that do not panic\<close>

subsection \<open>Hash maps\<close>

type_synonym ('k, 'v) hashmap = "('k \<times> 'v) list"

abbreviation hm_get :: "('k, 'v) hashmap \<Rightarrow> 'k \<Rightarrow> 'v option" where
  "hm_get m k \<equiv> map_of m k"

abbreviation hm_insert :: "'k \<Rightarrow> 'v \<Rightarrow> ('k, 'v) hashmap \<Rightarrow> ('k, 'v) hashmap" where
  "hm_insert k v m \<equiv> AList.update k v m"

abbreviation hm_remove :: "'k \<Rightarrow> ('k, 'v) hashmap \<Rightarrow> ('k, 'v) hashmap" where
  "hm_remove k m \<equiv> AList.delete k m"

abbreviation hm_keys :: "('k, 'v) hashmap \<Rightarrow> 'k list" where
  "hm_keys m \<equiv> map fst m"

abbreviation hm_ok :: "('k, 'v) hashmap \<Rightarrow> bool" where
  "hm_ok m \<equiv> distinct (hm_keys m)"

text \<open>\<open>m.entry(k).or_default()\<close>: the entry, or the default where there is none.\<close>

definition hm_entry :: "'v \<Rightarrow> ('k, 'v) hashmap \<Rightarrow> 'k \<Rightarrow> 'v" where
  "hm_entry d m k = (case hm_get m k of None \<Rightarrow> d | Some v \<Rightarrow> v)"

text \<open>A predicate that holds of every entry.\<close>

definition hm_all :: "('k \<Rightarrow> 'v \<Rightarrow> bool) \<Rightarrow> ('k, 'v) hashmap \<Rightarrow> bool" where
  "hm_all P m = list_all (\<lambda>(k, v). P k v) m"

subsection \<open>Checked arithmetic\<close>

type_synonym u8 = "8 word"
type_synonym u16 = "16 word"
type_synonym u32 = "32 word"

definition u32_add :: "u32 \<Rightarrow> u32 \<Rightarrow> u32 option" where
  "u32_add a b = (if unat a + unat b < 2 ^ 32 then Some (a + b) else None)"

definition u32_mul :: "u32 \<Rightarrow> u32 \<Rightarrow> u32 option" where
  "u32_mul a b = (if unat a * unat b < 2 ^ 32 then Some (a * b) else None)"

text \<open>
  \<open>std::time::Duration\<close> as a number of nanoseconds. Its range is 64 bits of seconds and
  one second's worth of nanoseconds; sums and products beyond it panic.
\<close>

type_synonym duration = nat

definition DURATION_MAX :: duration where
  "DURATION_MAX = (2 ^ 64 - 1) * 1000000000 + 999999999"

definition from_secs :: "nat \<Rightarrow> duration" where
  "from_secs s = s * 1000000000"

definition from_millis :: "nat \<Rightarrow> duration" where
  "from_millis n = n * 10 ^ 6"

definition dur_add :: "duration \<Rightarrow> duration \<Rightarrow> duration option" where
  "dur_add a b = (if a + b \<le> DURATION_MAX then Some (a + b) else None)"

definition dur_mul :: "duration \<Rightarrow> nat \<Rightarrow> duration option" where
  "dur_mul a n = (if a * n \<le> DURATION_MAX then Some (a * n) else None)"

definition dur_div :: "duration \<Rightarrow> nat \<Rightarrow> duration option" where
  "dur_div a n = (if n = 0 then None else Some (a div n))"

text \<open>Instants (\<open>DateTime<Utc>\<close>) as nanoseconds since the epoch.\<close>

type_synonym datetime = int

text \<open>The outcome of polling a future.\<close>

datatype 'a poll = Ready 'a | Pending

text \<open>
  A computation returns (does not panic) with a result that satisfies a predicate. The
  equations compute this backwards through the option monad.
\<close>

definition returns :: "('a \<Rightarrow> bool) \<Rightarrow> 'a option \<Rightarrow> bool" where
  "returns P r = (case r of None \<Rightarrow> False | Some x \<Rightarrow> P x)"

lemma returns_simps [simp]: "returns P (Some x) = P x" "\<not> returns P None"
  by (simp_all add: returns_def)

lemma returns_bind [simp]: "returns Q (r \<bind> f) = returns (\<lambda>x. returns Q (f x)) r"
  by (cases r) simp_all

lemma returns_map [simp]: "returns Q (map_option f r) = returns (\<lambda>x. Q (f x)) r"
  by (cases r) simp_all

lemma returns_if [simp]: "returns Q (if c then r else r') = (if c then returns Q r else returns Q r')"
  by simp

lemma returns_mono: "returns P r \<Longrightarrow> (\<And>x. P x \<Longrightarrow> Q x) \<Longrightarrow> returns Q r"
  by (cases r) simp_all

lemma returns_iff: "returns P r \<longleftrightarrow> (\<exists>x. r = Some x \<and> P x)"
  by (cases r) simp_all

subsection \<open>Facts on hash maps\<close>

lemma hm_get_insert [hm_simps, simp]:
  "hm_get (hm_insert k v m) k' = (if k' = k then Some v else hm_get m k')"
  by (simp add: AList.update_conv')

lemma hm_get_remove [hm_simps, simp]:
  "hm_get (hm_remove k m) k' = (if k' = k then None else hm_get m k')"
  by (simp add: AList.delete_conv')

lemma hm_ok_insert [simp, intro]: "hm_ok m \<Longrightarrow> hm_ok (hm_insert k v m)"
  by (rule AList.distinct_update)

lemma hm_ok_remove [simp, intro]: "hm_ok m \<Longrightarrow> hm_ok (hm_remove k m)"
  by (rule AList.distinct_delete)

lemma hm_ok_filter [simp, intro]: "hm_ok m \<Longrightarrow> hm_ok (filter P m)"
  by (rule distinct_map_filter)

lemma hm_keys_insert: "set (hm_keys (hm_insert k v m)) = insert k (set (hm_keys m))"
  using AList.dom_update [of k v m] by simp

lemma hm_get_None: "hm_get m k = None \<longleftrightarrow> k \<notin> set (hm_keys m)"
  by (simp add: map_of_eq_None_iff)

lemma hm_get_filter:
  assumes "hm_ok m"
  shows "hm_get (filter (\<lambda>(k, v). P k v) m) k =
    (case hm_get m k of None \<Rightarrow> None | Some v \<Rightarrow> if P k v then Some v else None)"
  using assms by (induction m) (auto simp: map_of_eq_None_iff split: option.splits)

lemma hm_all_Nil [simp]: "hm_all P []"
  by (simp add: hm_all_def)

lemma hm_all_get: "hm_all P m \<Longrightarrow> hm_get m k = Some v \<Longrightarrow> P k v"
  by (auto simp: hm_all_def list_all_iff dest: map_of_SomeD)

lemma hm_all_insert: "hm_all P m \<Longrightarrow> P k v \<Longrightarrow> hm_all P (hm_insert k v m)"
  by (induction m) (auto simp: hm_all_def)

lemma hm_all_remove: "hm_all P m \<Longrightarrow> hm_all P (hm_remove k m)"
  by (auto simp: hm_all_def list_all_iff AList.delete_eq)

lemma hm_all_filter: "hm_all P m \<Longrightarrow> hm_all P (filter Q m)"
  by (auto simp: hm_all_def list_all_iff)

lemma hm_all_entry: "hm_all P m \<Longrightarrow> P k d \<Longrightarrow> P k (hm_entry d m k)"
  by (auto simp: hm_entry_def split: option.splits intro: hm_all_get)

lemma hm_entry_Some [simp]: "hm_get m k = Some v \<Longrightarrow> hm_entry d m k = v"
  by (simp add: hm_entry_def)

lemma hm_entry_None [simp]: "hm_get m k = None \<Longrightarrow> hm_entry d m k = d"
  by (simp add: hm_entry_def)

lemmas hm_all_intros = hm_all_insert hm_all_remove hm_all_filter hm_all_entry

subsection \<open>Facts on checked arithmetic\<close>

lemma u32_add_Some [panic_free]:
  "unat a + unat b < 2 ^ 32 \<Longrightarrow> u32_add a b = Some (a + b)"
  by (simp add: u32_add_def)

lemma u32_mul_Some [panic_free]:
  "unat a * unat b < 2 ^ 32 \<Longrightarrow> u32_mul a b = Some (a * b)"
  by (simp add: u32_mul_def)

lemma u32_add_unat: "u32_add a b = Some c \<Longrightarrow> unat c = unat a + unat b"
  by (auto simp: u32_add_def unat_word_ariths split: if_splits)

lemma u32_mul_unat: "u32_mul a b = Some c \<Longrightarrow> unat c = unat a * unat b"
  by (auto simp: u32_mul_def unat_word_ariths split: if_splits)

lemma dur_mul_Some [panic_free]: "a * n \<le> DURATION_MAX \<Longrightarrow> dur_mul a n = Some (a * n)"
  by (simp add: dur_mul_def)

lemma dur_add_Some [panic_free]: "a + b \<le> DURATION_MAX \<Longrightarrow> dur_add a b = Some (a + b)"
  by (simp add: dur_add_def)

subsection \<open>Strings\<close>

text \<open>
  Bytes are characters and a Rust string is a list of bytes that is well-formed UTF-8.
  \<open>std::str::from_utf8\<close> checks the byte sequences of the Unicode standard and returns the
  same bytes.
\<close>

type_synonym bytes = string

definition utf8_cont :: "nat \<Rightarrow> bool" where
  "utf8_cont b \<longleftrightarrow> 128 \<le> b \<and> b \<le> 191"

text \<open>The range of the second byte and the number of continuation bytes after a leading byte.\<close>

definition utf8_lead :: "nat \<Rightarrow> (nat \<times> nat \<times> nat) option" where
  "utf8_lead a =
     (if 194 \<le> a \<and> a \<le> 223 then Some (128, 191, 1)
      else if a = 224 then Some (160, 191, 2)
      else if a = 237 then Some (128, 159, 2)
      else if 225 \<le> a \<and> a \<le> 239 then Some (128, 191, 2)
      else if a = 240 then Some (144, 191, 3)
      else if 241 \<le> a \<and> a \<le> 243 then Some (128, 191, 3)
      else if a = 244 then Some (128, 143, 3)
      else None)"

function valid_utf8 :: "nat list \<Rightarrow> bool" where
  "valid_utf8 [] = True"
| "valid_utf8 (a # bs) =
     (if a < 128 then valid_utf8 bs
      else (case utf8_lead a of
         None \<Rightarrow> False
       | Some (lo, hi, n) \<Rightarrow>
           n \<le> length bs \<and> lo \<le> hd bs \<and> hd bs \<le> hi \<and> list_all utf8_cont (take n bs) \<and>
           valid_utf8 (drop n bs)))"
  by pat_completeness auto
termination
  by (relation "measure length") auto

definition from_utf8 :: "bytes \<Rightarrow> string option" where
  "from_utf8 b = (if valid_utf8 (map of_char b) then Some b else None)"

text \<open>Content ids are only compared and passed on.\<close>

type_synonym cid = nat

subsection \<open>Runs of fallible steps\<close>

fun run_steps :: "('i \<Rightarrow> 's \<Rightarrow> 's option) \<Rightarrow> 'i list \<Rightarrow> 's \<Rightarrow> 's option" where
  "run_steps step [] s = Some s"
| "run_steps step (i # is) s = step i s \<bind> run_steps step is"

text \<open>
  A component whose invariant depends on the number of steps made so far (counters of a
  bounded width grow by at most one per step): as long as the bound is not reached, every
  run of admissible steps returns and ends in the invariant.
\<close>

locale bounded_steps =
  fixes step :: "'i \<Rightarrow> 's \<Rightarrow> 's option"
    and inv :: "nat \<Rightarrow> 's \<Rightarrow> bool"
    and ok :: "'i \<Rightarrow> bool"
    and limit :: nat
  assumes step_inv: "inv n s \<Longrightarrow> ok i \<Longrightarrow> n + 1 < limit \<Longrightarrow> returns (inv (Suc n)) (step i s)"
begin

lemma run_inv:
  "inv n s \<Longrightarrow> list_all ok is \<Longrightarrow> n + length is < limit \<Longrightarrow>
     returns (inv (n + length is)) (run_steps step is s)"
proof (induction "is" arbitrary: n s)
  case (Cons i "is")
  have "returns (inv (Suc n)) (step i s)"
    using Cons.prems by (intro step_inv) auto
  then show ?case
    using Cons.IH [of "Suc n"] Cons.prems by (auto elim!: returns_mono)
qed simp

text \<open>The invariant also holds at every intermediate state, so each prefix of a run returns.\<close>

lemma run_prefix_returns:
  "inv n s \<Longrightarrow> list_all ok (is @ js) \<Longrightarrow> n + length (is @ js) < limit \<Longrightarrow>
     returns (\<lambda>s'. inv (n + length is) s' \<and> returns (inv (n + length is + length js)) (run_steps step js s'))
       (run_steps step is s)"
  using run_inv [of n s "is"] run_inv [of "n + length is" _ js]
  by (auto elim!: returns_mono)

end

end
