(* ===== verification/Rtt.thy ===== *)
theory Rtt
  imports Prelude
begin

text \<open>
  The round-trip statistics of a peer, \<open>Rtt\<close> of \<open>src/src/net/peer_info.rs\<close>: the last
  value, two exponentially weighted moving averages, the number of failures in a row and
  the failure rate in parts per million.
\<close>

record rtt =
  rtt_current :: duration
  decay_3 :: duration
  decay_10 :: duration
  rtt_failures :: u32
  failure_rate :: u32

definition rtt_new :: "duration \<Rightarrow> rtt" where
  "rtt_new current = \<lparr>rtt_current = current, decay_3 = current, decay_10 = current,
     rtt_failures = 0, failure_rate = 0\<rparr>"

text \<open>\<open>Rtt::register\<close>: every product and sum is checked, as the operators of the source are.\<close>

definition register :: "duration \<Rightarrow> rtt \<Rightarrow> rtt option" where
  "register current r = do {
     a \<leftarrow> dur_mul (decay_3 r) 7;
     a \<leftarrow> dur_div a 10;
     b \<leftarrow> dur_mul current 3;
     b \<leftarrow> dur_div b 10;
     d3 \<leftarrow> dur_add a b;
     c \<leftarrow> dur_mul (decay_10 r) 9;
     c \<leftarrow> dur_div c 10;
     d \<leftarrow> dur_div current 10;
     d10 \<leftarrow> dur_add c d;
     f \<leftarrow> u32_mul (failure_rate r) 99;
     Some (r\<lparr>rtt_current := current, decay_3 := d3, decay_10 := d10,
       rtt_failures := 0, failure_rate := f div 100\<rparr>)
   }"

definition register_failure :: "rtt \<Rightarrow> rtt option" where
  "register_failure r = do {
     n \<leftarrow> u32_add (rtt_failures r) 1;
     f \<leftarrow> u32_mul (failure_rate r) 99;
     f \<leftarrow> u32_add (f div 100) 10000;
     Some (r\<lparr>rtt_failures := n, failure_rate := f\<rparr>)
   }"

text \<open>One outcome of a ping: a measured time, or a failure.\<close>

definition rtt_sample :: "duration option \<Rightarrow> rtt \<Rightarrow> rtt option" where
  "rtt_sample s r = (case s of Some d \<Rightarrow> register d r | None \<Rightarrow> register_failure r)"

fun rtt_samples :: "duration option list \<Rightarrow> rtt \<Rightarrow> rtt option" where
  "rtt_samples [] r = Some r"
| "rtt_samples (s # ss) r = rtt_sample s r \<bind> rtt_samples ss"

text \<open>
  The well-formed statistics: durations that leave room for the products of \<open>register\<close>, a
  failure rate of at most one million.
\<close>

definition dur_ok :: "duration \<Rightarrow> bool" where
  "dur_ok d \<longleftrightarrow> d * 9 \<le> DURATION_MAX"

definition rtt_ok :: "rtt \<Rightarrow> bool" where
  "rtt_ok r \<longleftrightarrow> dur_ok (rtt_current r) \<and> dur_ok (decay_3 r) \<and> dur_ok (decay_10 r) \<and>
     unat (failure_rate r) \<le> 1000000"

subsection \<open>The moving averages\<close>

lemma weighted_bounds:
  fixes a b m n w :: nat
  assumes "a \<le> m" "b \<le> m" "n \<le> a" "n \<le> b" "w \<le> 10"
  shows "a * (10 - w) div 10 + b * w div 10 \<le> m"
    and "n \<le> a * (10 - w) div 10 + b * w div 10 + 1"
proof -
  have le: "a * (10 - w) + b * w \<le> m * 10"
  proof -
    have "a * (10 - w) + b * w \<le> m * (10 - w) + m * w"
      using assms by (intro add_mono mult_le_mono) auto
    also have "\<dots> = m * 10"
      using assms(5) by (metis add_mult_distrib2 le_add_diff_inverse2)
    finally show ?thesis .
  qed
  have ge: "n * 10 \<le> a * (10 - w) + b * w"
  proof -
    have "n * 10 = n * (10 - w) + n * w"
      using assms(5) by (metis add_mult_distrib2 le_add_diff_inverse2)
    also have "\<dots> \<le> a * (10 - w) + b * w"
      using assms by (intro add_mono mult_le_mono) auto
    finally show ?thesis .
  qed
  show "a * (10 - w) div 10 + b * w div 10 \<le> m" using le by linarith
  show "n \<le> a * (10 - w) div 10 + b * w div 10 + 1" using ge by linarith
qed

lemma dur_ok_max: "dur_ok a \<Longrightarrow> dur_ok b \<Longrightarrow> dur_ok (max a b)"
  by (simp add: max_def)

lemma dur_ok_mono: "a \<le> b \<Longrightarrow> dur_ok b \<Longrightarrow> dur_ok a"
  by (simp add: dur_ok_def)

lemma dur_mul_ok: "dur_ok d \<Longrightarrow> n \<le> 9 \<Longrightarrow> dur_mul d n = Some (d * n)"
  unfolding dur_ok_def by (rule dur_mul_Some) (meson le_trans mult_le_mono2)

lemma rate_mul_ok:
  "unat f \<le> 1000000 \<Longrightarrow> u32_mul f 99 = Some (f * 99)"
  by (rule u32_mul_Some) simp

lemma rate_div: "unat f \<le> 1000000 \<Longrightarrow> unat ((f * 99) div 100 :: u32) = unat f * 99 div 100"
  using u32_mul_unat [OF rate_mul_ok] by (simp add: unat_div)

lemma register_ok:
  assumes "rtt_ok r" "dur_ok d"
  shows "register d r = Some (r\<lparr>rtt_current := d,
    decay_3 := decay_3 r * 7 div 10 + d * 3 div 10,
    decay_10 := decay_10 r * 9 div 10 + d div 10,
    rtt_failures := 0, failure_rate := failure_rate r * 99 div 100\<rparr>)"
proof -
  have d3: "decay_3 r * 7 div 10 + d * 3 div 10 \<le> max (decay_3 r) d"
    using weighted_bounds(1) [of "decay_3 r" "max (decay_3 r) d" d 0 3] by simp
  have d10: "decay_10 r * 9 div 10 + d div 10 \<le> max (decay_10 r) d"
    using weighted_bounds(1) [of "decay_10 r" "max (decay_10 r) d" d 0 1] by simp
  have "max (decay_3 r) d \<le> DURATION_MAX" "max (decay_10 r) d \<le> DURATION_MAX"
    using assms by (auto simp: rtt_ok_def dur_ok_def)
  with d3 d10 have
    "dur_add (decay_3 r * 7 div 10) (d * 3 div 10) =
       Some (decay_3 r * 7 div 10 + d * 3 div 10)"
    "dur_add (decay_10 r * 9 div 10) (d div 10) = Some (decay_10 r * 9 div 10 + d div 10)"
    by (meson dur_add_Some le_trans)+
  then show ?thesis
    using assms by (simp add: register_def rtt_ok_def dur_mul_ok dur_div_def rate_mul_ok)
qed

lemma register_failure_ok:
  assumes "rtt_ok r" "unat (rtt_failures r) + 1 < 2 ^ 32"
  shows "register_failure r = Some (r\<lparr>rtt_failures := rtt_failures r + 1,
    failure_rate := failure_rate r * 99 div 100 + 10000\<rparr>)"
proof -
  have rate: "unat (failure_rate r) \<le> 1000000"
    using assms(1) by (simp add: rtt_ok_def)
  have "u32_add (failure_rate r * 99 div 100) 10000 =
      Some (failure_rate r * 99 div 100 + 10000)"
    using rate by (intro u32_add_Some) (simp add: rate_div)
  moreover have "u32_add (rtt_failures r) 1 = Some (rtt_failures r + 1)"
    using assms(2) by (intro u32_add_Some) simp
  ultimately show ?thesis
    using rate by (simp add: register_failure_def rate_mul_ok)
qed

lemma register_failure_rate:
  assumes "register_failure r = Some r'" "unat (failure_rate r) \<le> 1000000"
  shows "unat (failure_rate r') = unat (failure_rate r) * 99 div 100 + 10000"
  using assms
  by (auto simp: register_failure_def rate_mul_ok rate_div dest!: u32_add_unat
      split: Option.bind_splits)

lemma rtt_ok_new: "dur_ok d \<Longrightarrow> rtt_ok (rtt_new d)"
  by (simp add: rtt_ok_def rtt_new_def)

lemma rtt_ok_register:
  assumes "rtt_ok r" "dur_ok d" "register d r = Some r'"
  shows "rtt_ok r'"
proof -
  have "decay_3 r * 7 div 10 + d * 3 div 10 \<le> max (decay_3 r) d"
    using weighted_bounds(1) [of "decay_3 r" "max (decay_3 r) d" d 0 3] by simp
  moreover have "decay_10 r * 9 div 10 + d div 10 \<le> max (decay_10 r) d"
    using weighted_bounds(1) [of "decay_10 r" "max (decay_10 r) d" d 0 1] by simp
  ultimately have "dur_ok (decay_3 r')" "dur_ok (decay_10 r')"
    using assms register_ok [OF assms(1,2)] dur_ok_mono dur_ok_max
    by (auto simp: rtt_ok_def)
  moreover have "unat (failure_rate r') \<le> 1000000"
    using assms register_ok [OF assms(1,2)] by (auto simp: rtt_ok_def rate_div)
  moreover have "dur_ok (rtt_current r')"
    using assms register_ok [OF assms(1,2)] by auto
  ultimately show ?thesis by (simp add: rtt_ok_def)
qed

lemma rtt_ok_register_failure:
  assumes "rtt_ok r" "register_failure r = Some r'"
  shows "rtt_ok r'"
proof -
  have "unat (failure_rate r') \<le> 1000000"
    using assms register_failure_rate [OF assms(2)] by (auto simp: rtt_ok_def)
  moreover have "rtt_current r' = rtt_current r" "decay_3 r' = decay_3 r" "decay_10 r' = decay_10 r"
    using assms(2) by (auto simp: register_failure_def split: Option.bind_splits)
  ultimately show ?thesis using assms(1) by (simp add: rtt_ok_def)
qed

lemma rtt_sample_ok:
  assumes "rtt_ok r" "\<And>d. s = Some d \<Longrightarrow> dur_ok d" "unat (rtt_failures r) + 1 < 2 ^ 32"
  obtains r' where "rtt_sample s r = Some r'" "rtt_ok r'"
    "unat (rtt_failures r') \<le> unat (rtt_failures r) + 1"
proof (cases s)
  case (Some d)
  then have d: "dur_ok d" using assms(2) by simp
  note reg = register_ok [OF assms(1) d]
  show ?thesis
    using that [OF _ rtt_ok_register [OF assms(1) d reg]] reg Some by (simp add: rtt_sample_def)
next
  case None
  have "unat (rtt_failures r + 1) = unat (rtt_failures r) + 1"
    using assms(3) u32_add_unat [OF u32_add_Some, of "rtt_failures r" 1] by simp
  moreover note reg = register_failure_ok [OF assms(1,3)]
  ultimately show ?thesis
    using that [OF _ rtt_ok_register_failure [OF assms(1) reg]] reg None
    by (simp add: rtt_sample_def)
qed

lemma register_bounded:
  assumes "rtt_ok r" "dur_ok d" "register d r = Some r'" "d \<le> hi" "decay_3 r \<le> hi" "decay_10 r \<le> hi"
  shows "decay_3 r' \<le> hi \<and> decay_10 r' \<le> hi"
  using assms register_ok [OF assms(1,2)]
    weighted_bounds(1) [of "decay_3 r" hi d 0 3] weighted_bounds(1) [of "decay_10 r" hi d 0 1]
  by auto

lemma rtt_sample_bounded:
  assumes "rtt_ok r" "\<And>d. s = Some d \<Longrightarrow> dur_ok d \<and> d \<le> hi" "rtt_sample s r = Some r'"
    "decay_3 r \<le> hi" "decay_10 r \<le> hi"
  shows "decay_3 r' \<le> hi \<and> decay_10 r' \<le> hi"
proof (cases s)
  case (Some d)
  with assms register_bounded [of r d r' hi] show ?thesis by (simp add: rtt_sample_def)
next
  case None
  with assms show ?thesis
    by (auto simp: rtt_sample_def register_failure_def split: Option.bind_splits)
qed



subsection \<open>The failure rate of a peer that only fails\<close>

lemma rate_step_le: "x \<le> 999901 \<Longrightarrow> x * 99 div 100 + 10000 \<le> (999901::nat)"
  by linarith

lemma rate_step_up: "x \<le> 999900 \<Longrightarrow> Suc x \<le> x * 99 div 100 + 10000"
  by linarith

lemma failures_rate:
  assumes "rtt_ok r" "unat (rtt_failures r) + n < 2 ^ 32" "unat (failure_rate r) \<le> 999901"
  shows "\<exists>r'. rtt_samples (replicate n None) r = Some r' \<and>
    unat (failure_rate r') \<le> 999901 \<and> min 999901 (unat (failure_rate r) + n) \<le> unat (failure_rate r')"
  using assms
proof (induction n arbitrary: r)
  case 0
  then show ?case by simp
next
  case (Suc n)
  obtain r1 where r1: "rtt_sample None r = Some r1" "rtt_ok r1"
    "unat (rtt_failures r1) \<le> unat (rtt_failures r) + 1"
    using Suc.prems by (auto intro: rtt_sample_ok [of r None])
  then have rate: "unat (failure_rate r1) = unat (failure_rate r) * 99 div 100 + 10000"
    using Suc.prems by (intro register_failure_rate) (auto simp: rtt_sample_def)
  then have le: "unat (failure_rate r1) \<le> 999901"
    using Suc.prems rate_step_le by simp
  have up: "min 999901 (Suc (unat (failure_rate r))) \<le> unat (failure_rate r1)"
    using rate rate_step_up [of "unat (failure_rate r)"] Suc.prems(3)
    by (cases "unat (failure_rate r) = 999901") auto
  have "unat (rtt_failures r1) + n < 2 ^ 32" using r1(3) Suc.prems(2) by linarith
  then obtain r' where r': "rtt_samples (replicate n None) r1 = Some r'"
    "unat (failure_rate r') \<le> 999901" "min 999901 (unat (failure_rate r1) + n) \<le> unat (failure_rate r')"
    using Suc.IH [OF r1(2) _ le] by blast
  moreover have "min 999901 (unat (failure_rate r) + Suc n) \<le> unat (failure_rate r')"
    using up r'(3) by linarith
  ultimately show ?case using r1(1) by auto
qed

text \<open>
  A peer that only fails has a failure rate of 999901 parts per million in the long
  run, never the one million that the comment of \<open>register_failure\<close> gives: the integer
  division rounds the decayed rate down, and 999901 is where the rounding stops the growth.
\<close>

lemma only_failures_rate:
  assumes "dur_ok d" "999901 \<le> n" "n < 2 ^ 32"
  shows "\<exists>r. rtt_samples (replicate n None) (rtt_new d) = Some r \<and> unat (failure_rate r) = 999901"
proof -
  obtain r where "rtt_samples (replicate n None) (rtt_new d) = Some r"
    "unat (failure_rate r) \<le> 999901" "min 999901 (unat (failure_rate (rtt_new d)) + n) \<le> unat (failure_rate r)"
    using failures_rate [of "rtt_new d" n] assms by (auto simp: rtt_ok_new) (auto simp: rtt_new_def)
  with assms(2) show ?thesis by (intro exI [of _ r]) auto
qed

end
