(* ===== verification/Multiaddr.thy ===== *)
theory Multiaddr
  imports Prelude
begin

text \<open>
  Addresses. \<open>Multiaddr\<close>, \<open>Multihash\<close> and \<open>PeerId\<close> are types of the libp2p crates: an
  address is a value of a type \<open>'ma\<close> that the development leaves open, and the functions of
  the crates that the source calls are the fields of the record \<open>multiaddr_api\<close>, an
  argument of every definition that uses them. What the crates document of these functions
  is the predicate \<open>multiaddr_laws\<close>. Peer ids and multihashes are opaque tokens, compared
  for equality only.

  The definitions model the address helpers of \<open>src/src/net/peers.rs\<close> and
  \<open>src/src/net/peer_info.rs\<close>.
\<close>

type_synonym peer_id = nat
type_synonym multihash = nat

text \<open>\<open>libp2p::multiaddr::Protocol\<close>: the variants the source names, and the rest.\<close>

datatype protocol = Ip4 u32 | Ip6 "128 word" | Tcp u16 | P2p multihash | OtherProtocol string

datatype ip_addr = V4 u32 | V6 "128 word"

record 'ma multiaddr_api =
  ma_iter :: "'ma \<Rightarrow> protocol list"
  ma_push :: "'ma \<Rightarrow> protocol \<Rightarrow> 'ma"
  ma_pop :: "'ma \<Rightarrow> 'ma"
  ma_replace :: "'ma \<Rightarrow> nat \<Rightarrow> protocol \<Rightarrow> 'ma option"
  peer_into_multihash :: "peer_id \<Rightarrow> multihash"
  multihash_try_into_peer :: "multihash \<Rightarrow> peer_id option"

text \<open>
  The documented behaviour: an address is determined by its protocols; \<open>push\<close> appends one,
  \<open>pop\<close> drops the last, \<open>replace\<close> exchanges the one at an index and is \<open>None\<close> out of
  range; the multihash of a peer id converts back to that peer id.
\<close>

definition multiaddr_laws :: "('ma, 'z) multiaddr_api_scheme \<Rightarrow> bool" where
  "multiaddr_laws M \<longleftrightarrow>
     (\<forall>a b. ma_iter M a = ma_iter M b \<longrightarrow> a = b) \<and>
     (\<forall>a p. ma_iter M (ma_push M a p) = ma_iter M a @ [p]) \<and>
     (\<forall>a. ma_iter M (ma_pop M a) = butlast (ma_iter M a)) \<and>
     (\<forall>a i p. map_option (ma_iter M) (ma_replace M a i p) =
        (if i < length (ma_iter M a) then Some ((ma_iter M a)[i := p]) else None)) \<and>
     (\<forall>p. multihash_try_into_peer M (peer_into_multihash M p) = Some p)"

text \<open>\<open>Cow<'_, Multiaddr>\<close>.\<close>

datatype 'a cow = Borrowed (into_owned: 'a) | Owned (into_owned: 'a)

subsection \<open>Helpers of peers.rs and peer_info.rs\<close>

text \<open>\<open>matches!(addr.iter().last(), Some(Protocol::P2p(_)))\<close>\<close>

definition last_protocol :: "('ma, 'z) multiaddr_api_scheme \<Rightarrow> 'ma \<Rightarrow> protocol option" where
  "last_protocol M a = (case ma_iter M a of [] \<Rightarrow> None | ps \<Rightarrow> Some (last ps))"

definition ends_with_p2p :: "('ma, 'z) multiaddr_api_scheme \<Rightarrow> 'ma \<Rightarrow> bool" where
  "ends_with_p2p M a = (case last_protocol M a of Some (P2p _) \<Rightarrow> True | _ \<Rightarrow> False)"

definition normalize_addr :: "('ma, 'z) multiaddr_api_scheme \<Rightarrow> 'ma \<Rightarrow> peer_id \<Rightarrow> 'ma" where
  "normalize_addr M addr peer =
     (if ends_with_p2p M addr then addr
      else ma_push M addr (P2p (peer_into_multihash M peer)))"

definition normalize_addr_ref :: "('ma, 'z) multiaddr_api_scheme \<Rightarrow> 'ma \<Rightarrow> peer_id \<Rightarrow> 'ma cow" where
  "normalize_addr_ref M addr peer =
     (if ends_with_p2p M addr then Borrowed addr
      else Owned (ma_push M addr (P2p (peer_into_multihash M peer))))"

definition without_peer_id :: "('ma, 'z) multiaddr_api_scheme \<Rightarrow> 'ma \<Rightarrow> 'ma" where
  "without_peer_id M addr = (if ends_with_p2p M addr then ma_pop M addr else addr)"

definition without_peer :: "('ma, 'z) multiaddr_api_scheme \<Rightarrow> 'ma \<Rightarrow> 'ma cow" where
  "without_peer M a = (if ends_with_p2p M a then Owned (ma_pop M a) else Borrowed a)"

text \<open>
  \<open>libp2p::core::ConnectedPoint\<close>: we dialled an address, or a listener of ours accepted.
  Its accessors read the remote address and the side.
\<close>

datatype endpoint = EndpointDialer | EndpointListener

datatype 'ma connected_point = Dialer 'ma endpoint | Listener 'ma 'ma

fun get_remote_address :: "'ma connected_point \<Rightarrow> 'ma" where
  "get_remote_address (Dialer address _) = address"
| "get_remote_address (Listener _ send_back_addr) = send_back_addr"

fun is_dialer :: "'ma connected_point \<Rightarrow> bool" where
  "is_dialer (Dialer _ _) = True"
| "is_dialer (Listener _ _) = False"

fun normalize_connected_point :: "('ma, 'z) multiaddr_api_scheme \<Rightarrow> 'ma connected_point \<Rightarrow>
    peer_id \<Rightarrow> peer_id \<Rightarrow> 'ma connected_point" where
  "normalize_connected_point M (Dialer address role_override) local remote =
     Dialer (into_owned (normalize_addr_ref M address remote)) role_override"
| "normalize_connected_point M (Listener local_addr send_back_addr) local remote =
     Listener (into_owned (normalize_addr_ref M local_addr local))
       (into_owned (normalize_addr_ref M send_back_addr remote))"

text \<open>\<open>Ipv4Addr::is_loopback\<close>: the first octet is 127.\<close>

definition ipv4_is_loopback :: "u32 \<Rightarrow> bool" where
  "ipv4_is_loopback ip \<longleftrightarrow> drop_bit 24 ip = 127"

definition is_loopback :: "('ma, 'z) multiaddr_api_scheme \<Rightarrow> 'ma \<Rightarrow> bool" where
  "is_loopback M a =
     (case ma_iter M a of Ip4 addr # _ \<Rightarrow> (if \<not> ipv4_is_loopback addr then False else True)
      | _ \<Rightarrow> True)"

text \<open>\<open>MultiaddrExt::peer_id\<close>\<close>

definition multiaddr_peer_id :: "('ma, 'z) multiaddr_api_scheme \<Rightarrow> 'ma \<Rightarrow> peer_id option" where
  "multiaddr_peer_id M a =
     (case last_protocol M a of Some (P2p p) \<Rightarrow> multihash_try_into_peer M p | _ \<Rightarrow> None)"

definition ip_port :: "('ma, 'z) multiaddr_api_scheme \<Rightarrow> 'ma \<Rightarrow> (ip_addr \<times> u16) option" where
  "ip_port M m =
     (case ma_iter M m of
        Ip4 ip # Tcp p # _ \<Rightarrow> Some (V4 ip, p)
      | Ip6 ip # Tcp p # _ \<Rightarrow> Some (V6 ip, p)
      | _ \<Rightarrow> None)"

subsection \<open>A concrete address type\<close>

text \<open>
  Addresses as plain lists of protocols, with a peer id as its own multihash: an instance
  at which the properties of the development are applied to concrete inputs.
\<close>

definition list_replace :: "protocol list \<Rightarrow> nat \<Rightarrow> protocol \<Rightarrow> protocol list option" where
  "list_replace a i p = (if i < length a then Some (a[i := p]) else None)"

definition list_addrs :: "protocol list multiaddr_api" where
  "list_addrs = \<lparr>ma_iter = id, ma_push = (\<lambda>a p. a @ [p]), ma_pop = butlast,
     ma_replace = list_replace, peer_into_multihash = id, multihash_try_into_peer = Some\<rparr>"

lemma list_addrs_laws: "multiaddr_laws list_addrs"
  by (auto simp: multiaddr_laws_def list_addrs_def list_replace_def)

subsection \<open>Facts on addresses\<close>

lemma into_owned_normalize [simp]:
  "into_owned (normalize_addr_ref M addr peer) = normalize_addr M addr peer"
  by (simp add: normalize_addr_ref_def normalize_addr_def)

lemma into_owned_without [simp]: "into_owned (without_peer M a) = without_peer_id M a"
  by (simp add: without_peer_def without_peer_id_def)

lemma laws_iter_inject: "multiaddr_laws M \<Longrightarrow> ma_iter M a = ma_iter M b \<longleftrightarrow> a = b"
  by (auto simp: multiaddr_laws_def)

lemma laws_push: "multiaddr_laws M \<Longrightarrow> ma_iter M (ma_push M a p) = ma_iter M a @ [p]"
  by (simp add: multiaddr_laws_def)

lemma laws_pop: "multiaddr_laws M \<Longrightarrow> ma_iter M (ma_pop M a) = butlast (ma_iter M a)"
  by (simp add: multiaddr_laws_def)

lemma laws_replace:
  "multiaddr_laws M \<Longrightarrow> i < length (ma_iter M a) \<Longrightarrow>
     \<exists>b. ma_replace M a i p = Some b \<and> ma_iter M b = (ma_iter M a)[i := p]"
  unfolding multiaddr_laws_def by (metis (no_types, lifting) map_option_eq_Some)

lemma laws_peer: "multiaddr_laws M \<Longrightarrow> multihash_try_into_peer M (peer_into_multihash M p) = Some p"
  by (simp add: multiaddr_laws_def)

lemmas addr_laws = laws_push laws_pop laws_peer

lemma last_protocol_iter: "last_protocol M a = Some p \<longleftrightarrow> ma_iter M a \<noteq> [] \<and> last (ma_iter M a) = p"
  by (auto simp: last_protocol_def split: list.splits)

lemma ends_with_p2p_iter:
  "ends_with_p2p M a \<longleftrightarrow> (\<exists>h. ma_iter M a \<noteq> [] \<and> last (ma_iter M a) = P2p h)"
  unfolding ends_with_p2p_def
  by (auto simp: last_protocol_iter split: option.splits protocol.splits)
    (auto simp: last_protocol_def split: list.splits)

lemma normalize_ends_with_p2p [simp]:
  "multiaddr_laws M \<Longrightarrow> ends_with_p2p M (normalize_addr M a p)"
  by (auto simp: normalize_addr_def laws_push ends_with_p2p_iter)

lemma normalize_idem [simp]:
  "multiaddr_laws M \<Longrightarrow> normalize_addr M (normalize_addr M a p) q = normalize_addr M a p"
  using normalize_ends_with_p2p [of M a p] by (simp add: normalize_addr_def)

lemma pop_push: "multiaddr_laws M \<Longrightarrow> ma_pop M (ma_push M a p) = a"
  by (simp add: addr_laws flip: laws_iter_inject [of M])

lemma remote_normalize [simp]:
  "get_remote_address (normalize_connected_point M cp l r) = normalize_addr M (get_remote_address cp) r"
  by (cases cp) simp_all

lemma is_dialer_normalize [simp]:
  "is_dialer (normalize_connected_point M cp l r) = is_dialer cp"
  by (cases cp) simp_all

lemma ip_port_length: "ip_port M a = Some x \<Longrightarrow> 1 < length (ma_iter M a)"
  by (auto simp: ip_port_def split: list.splits protocol.splits)

subsection \<open>Properties\<close>

text \<open>
  Normalisation tags an address with the peer it belongs to and loses nothing: an
  address without a trailing peer id becomes one whose peer id reads back as the given
  peer, normalising again changes nothing, and removing the peer id gives the address back.
\<close>

lemma normalize_roundtrip:
  assumes "multiaddr_laws M" "\<not> ends_with_p2p M a"
  shows "multiaddr_peer_id M (normalize_addr M a p) = Some p \<and>
    normalize_addr M (normalize_addr M a p) q = normalize_addr M a p \<and>
    without_peer_id M (normalize_addr M a p) = a"
proof (intro conjI)
  have push: "normalize_addr M a p = ma_push M a (P2p (peer_into_multihash M p))"
    using assms(2) by (simp add: normalize_addr_def)
  then have "last_protocol M (normalize_addr M a p) = Some (P2p (peer_into_multihash M p))"
    using assms(1) by (simp add: last_protocol_iter laws_push)
  then show "multiaddr_peer_id M (normalize_addr M a p) = Some p"
    using assms(1) by (simp add: multiaddr_peer_id_def laws_peer)
  show "normalize_addr M (normalize_addr M a p) q = normalize_addr M a p"
    using assms(1) by simp
  show "without_peer_id M (normalize_addr M a p) = a"
    using assms(1) push normalize_ends_with_p2p [of M a p]
    by (simp add: without_peer_id_def pop_push)
qed

lemma normalize_roundtrip_sample:
  "multiaddr_peer_id list_addrs (normalize_addr list_addrs [Ip4 1, Tcp 2] 7) = Some 7 \<and>
    normalize_addr list_addrs (normalize_addr list_addrs [Ip4 1, Tcp 2] 7) 8 =
      normalize_addr list_addrs [Ip4 1, Tcp 2] 7 \<and>
    without_peer_id list_addrs (normalize_addr list_addrs [Ip4 1, Tcp 2] 7) = [Ip4 1, Tcp 2]"
  by (rule normalize_roundtrip [OF list_addrs_laws])
    (simp add: ends_with_p2p_def last_protocol_def list_addrs_def)

text \<open>
  The loopback test accepts every address that is not an IPv4 address: an address is
  classified as loopback exactly when it does not start with an IPv4 protocol whose first
  octet differs from 127. IPv6 and DNS addresses, whatever they point to, count as loopback.
\<close>

lemma is_loopback_iff:
  "is_loopback M a \<longleftrightarrow>
    \<not> (\<exists>ip ps. ma_iter M a = Ip4 ip # ps \<and> drop_bit 24 ip \<noteq> (127 :: u32))"
  by (auto simp: is_loopback_def ipv4_is_loopback_def split: list.splits protocol.splits)

end
