(* ===== verification/NetErrors.thy ===== *)
theory NetErrors
  imports Multiaddr
begin

text \<open>
  The errors that libp2p reports to the address book and the failure records that
  \<open>src/src/net/peer_info.rs\<close> keeps of them. The error types are those of the crates, with
  the variants the source matches on; how an error prints is a parameter (\<open>error_fmt\<close>).
\<close>

datatype error_kind = InvalidData | OtherKind string

text \<open>
  An \<open>io::Error\<close> has a kind and may carry an inner error of any type; \<open>downcast_ref\<close> finds
  the inner error when it is of the type asked for. The types asked for are \<open>DnsErr\<close> and
  the transport error of \<open>src/src/net/mod.rs\<close>, a timeout around the stack of pre-shared
  key, authentication (Noise) and multiplexing errors.
\<close>

datatype io_error = IoError (io_kind: error_kind) (get_ref: "inner_error option")
and inner_error = InnerDns dns_err | InnerTransport transport_timeout_error | InnerOther string
and dns_err = DnsTransport io_error | DnsOther string
and transport_timeout_error = TimeoutOther stack_error | Timeout | TimerError string
and stack_error = StackA auth_error | StackB string
and auth_error = AuthA string | AuthB upgrade_error
and upgrade_error = UpgradeSelect string | UpgradeApply noise_error
and noise_error = NoiseIo io_error | NoiseOther string

datatype 'ma transport_error = MultiaddrNotSupported 'ma | TransportOther io_error

datatype peer_condition = CondDisconnected | CondNotDialing | CondAlways

datatype 'ma dial_error =
    Banned
  | LocalPeerId
  | DialPeerConditionFalse peer_condition
  | WrongPeerId peer_id "'ma connected_point"
  | ConnectionIo io_error
  | Transport "('ma \<times> 'ma transport_error) list"
  | OtherDialError string

text \<open>
  \<open>ConnectionError\<close> over the handler errors of the behaviours of \<open>NetworkBackendBehaviour\<close>.
  The address book and mDNS have uninhabited errors; the others carry their printed form.
\<close>

datatype handler_error =
    KadHandlerError string
  | PingHandlerError string
  | IdentifyHandlerError string
  | BitswapHandlerError string
  | GossipsubHandlerError string
  | BroadcastHandlerError string

datatype connection_error = ConnHandler handler_error | ConnIO io_error | KeepAliveTimeout

record 'ma error_fmt = "'ma multiaddr_api" +
  fmt_multiaddr :: "'ma \<Rightarrow> string"
  fmt_io_error :: "io_error \<Rightarrow> string"
  fmt_transport_error :: "'ma transport_error \<Rightarrow> string"
  dbg_transport_error :: "'ma transport_error \<Rightarrow> string"
  source_transport_error :: "'ma transport_error \<Rightarrow> string option"
  fmt_dial_error :: "'ma dial_error \<Rightarrow> string"
  dbg_dial_error :: "'ma dial_error \<Rightarrow> string"
  dbg_connection_error :: "connection_error option \<Rightarrow> string"

subsection \<open>Recognising a TCP simultaneous open\<close>

definition downcast_dns :: "inner_error option \<Rightarrow> dns_err option" where
  "downcast_dns e = (case e of Some (InnerDns d) \<Rightarrow> Some d | _ \<Rightarrow> None)"

definition downcast_transport :: "inner_error option \<Rightarrow> transport_timeout_error option" where
  "downcast_transport e = (case e of Some (InnerTransport t) \<Rightarrow> Some t | _ \<Rightarrow> None)"

definition is_sim_open :: "'ma transport_error \<Rightarrow> bool" where
  "is_sim_open error =
     (case error of
        MultiaddrNotSupported _ \<Rightarrow> False
      | TransportOther err \<Rightarrow>
          (case downcast_dns (get_ref err) of
             Some (DnsTransport err) \<Rightarrow>
               (case downcast_transport (get_ref err) of
                  Some (TimeoutOther (StackA (AuthB (UpgradeApply (NoiseIo err))))) \<Rightarrow>
                    io_kind err = InvalidData
                | _ \<Rightarrow> False)
           | _ \<Rightarrow> False))"

subsection \<open>Connection failures\<close>

datatype connection_failure_kind = KindDialError | PeerDisconnected | WeDisconnected

record 'ma connection_failure =
  cf_kind :: connection_failure_kind
  cf_addr :: 'ma
  cf_time :: datetime
  cf_display :: string
  cf_debug :: string

text \<open>The newtype \<open>D\<close>: a transport error followed by its cause.\<close>

definition fmt_D :: "('ma, 'z) error_fmt_scheme \<Rightarrow> 'ma transport_error \<Rightarrow> string" where
  "fmt_D M e = fmt_transport_error M e @
     (case source_transport_error M e of None \<Rightarrow> '''' | Some cause \<Rightarrow> cause)"

definition transport_lines :: "('ma, 'z) error_fmt_scheme \<Rightarrow>
    ('ma \<times> 'ma transport_error) list \<Rightarrow> string" where
  "transport_lines M es = concat (map (\<lambda>(addr, err).
     [CHR 0x0A] @ fmt_multiaddr M (into_owned (without_peer M addr)) @ '' '' @ fmt_D M err) es)"

definition dial_display :: "('ma, 'z) error_fmt_scheme \<Rightarrow> 'ma dial_error \<Rightarrow> string" where
  "dial_display M error =
     (case error of
        ConnectionIo e \<Rightarrow> ''I/O error: '' @ fmt_io_error M e
      | Transport es \<Rightarrow>
          (case es of
             [(_, e)] \<Rightarrow> ''transport error: '' @ fmt_D M e
           | _ \<Rightarrow> ''transport errors:'' @ transport_lines M es)
      | x \<Rightarrow> fmt_dial_error M x)"

definition failure_dial :: "('ma, 'z) error_fmt_scheme \<Rightarrow> datetime \<Rightarrow> 'ma \<Rightarrow> 'ma dial_error \<Rightarrow>
    'ma connection_failure" where
  "failure_dial M now addr error =
     \<lparr>cf_kind = KindDialError, cf_addr = into_owned (without_peer M addr), cf_time = now,
      cf_display = dial_display M error, cf_debug = dbg_dial_error M error\<rparr>"

definition failure_transport :: "('ma, 'z) error_fmt_scheme \<Rightarrow> datetime \<Rightarrow> 'ma \<Rightarrow>
    'ma transport_error \<Rightarrow> 'ma connection_failure" where
  "failure_transport M now addr error =
     \<lparr>cf_kind = KindDialError, cf_addr = into_owned (without_peer M addr), cf_time = now,
      cf_display = ''transport error: '' @ fmt_D M error, cf_debug = dbg_transport_error M error\<rparr>"

definition failure_us :: "datetime \<Rightarrow> 'ma \<Rightarrow> string \<Rightarrow> string \<Rightarrow> 'ma connection_failure" where
  "failure_us now addr disp dbg =
     \<lparr>cf_kind = WeDisconnected, cf_addr = addr, cf_time = now, cf_display = disp, cf_debug = dbg\<rparr>"

definition failure_them :: "datetime \<Rightarrow> 'ma \<Rightarrow> string \<Rightarrow> string \<Rightarrow> 'ma connection_failure" where
  "failure_them now addr disp dbg =
     \<lparr>cf_kind = PeerDisconnected, cf_addr = addr, cf_time = now, cf_display = disp, cf_debug = dbg\<rparr>"

text \<open>\<open>AddressBook::connection_closed\<close>: the reason, and whether the peer closed.\<close>

fun close_reason :: "('ma, 'z) error_fmt_scheme \<Rightarrow> connection_error option \<Rightarrow> string \<times> bool" where
  "close_reason M (Some (ConnHandler (KadHandlerError e))) = (''Kademlia I/O error: '' @ e, False)"
| "close_reason M (Some (ConnHandler (PingHandlerError e))) = (''Ping failure: '' @ e, False)"
| "close_reason M (Some (ConnHandler (IdentifyHandlerError e))) = (''Identify I/O error: '' @ e, False)"
| "close_reason M (Some (ConnHandler (BitswapHandlerError e))) = (''Bitswap error: '' @ e, False)"
| "close_reason M (Some (ConnHandler (GossipsubHandlerError e))) = (''Gossipsub error: '' @ e, False)"
| "close_reason M (Some (ConnHandler (BroadcastHandlerError e))) = (''Broadcast error: '' @ e, False)"
| "close_reason M (Some (ConnIO e)) = (''connection I/O error: '' @ fmt_io_error M e, True)"
| "close_reason M (Some KeepAliveTimeout) = (''we closed due to missing keepalive'', False)"
| "close_reason M None = (''we closed'', False)"

end
