(* ===== verification/PeerInfo.thy ===== *)
theory PeerInfo
  imports Rtt NetErrors "HOL-Library.Option_ord"
begin

text \<open>
  What the node knows of one peer, \<open>PeerInfo\<close> of \<open>src/src/net/peer_info.rs\<close>: identity
  strings, advertised listeners, addresses with the source they were learnt from, open
  connections, the most recent failures and the round-trip statistics. Operations that
  read the clock take the instant they read as the argument \<open>now\<close>.
\<close>

datatype direction = Inbound | Outbound

definition direction_from :: "'ma connected_point \<Rightarrow> direction" where
  "direction_from cp = (case cp of Dialer _ _ \<Rightarrow> Outbound | Listener _ _ \<Rightarrow> Inbound)"

datatype address_source = Incoming | Listen | Kad | Mdns | Candidate | User | Dial

text \<open>The derived order of \<open>AddressSource\<close>: the order of its variants.\<close>

fun source_rank :: "address_source \<Rightarrow> nat" where
  "source_rank Incoming = 0"
| "source_rank Listen = 1"
| "source_rank Kad = 2"
| "source_rank Mdns = 3"
| "source_rank Candidate = 4"
| "source_rank User = 5"
| "source_rank Dial = 6"

instantiation address_source :: linorder
begin

definition less_eq_address_source :: "address_source \<Rightarrow> address_source \<Rightarrow> bool" where
  "less_eq_address_source a b \<longleftrightarrow> source_rank a \<le> source_rank b"

definition less_address_source :: "address_source \<Rightarrow> address_source \<Rightarrow> bool" where
  "less_address_source a b \<longleftrightarrow> source_rank a < source_rank b"

instance
proof
  fix a b :: address_source
  show "a \<le> b \<Longrightarrow> b \<le> a \<Longrightarrow> a = b"
    by (cases a; cases b) (simp_all add: less_eq_address_source_def)
qed (auto simp: less_eq_address_source_def less_address_source_def)

end

fun is_confirmed :: "address_source \<Rightarrow> bool" where
  "is_confirmed Dial = True"
| "is_confirmed User = True"
| "is_confirmed Candidate = True"
| "is_confirmed _ = False"

fun is_to_probe :: "address_source \<Rightarrow> bool" where
  "is_to_probe Listen = True"
| "is_to_probe Kad = True"
| "is_to_probe Mdns = True"
| "is_to_probe Candidate = True"
| "is_to_probe _ = False"

fun is_to_translate :: "address_source \<Rightarrow> bool" where
  "is_to_translate Incoming = True"
| "is_to_translate _ = False"

record 'ma peer_info =
  protocol_version :: "string option"
  agent_version :: "string option"
  protocols :: "string list"
  info_listeners :: "'ma list"
  addresses :: "('ma, address_source \<times> datetime) hashmap"
  connections :: "('ma, datetime \<times> direction) hashmap"
  failures :: "'ma connection_failure list"
  info_rtt :: "rtt option"

definition default_info :: "'ma peer_info" where
  "default_info = \<lparr>protocol_version = None, agent_version = None, protocols = [],
     info_listeners = [], addresses = [], connections = [], failures = [], info_rtt = None\<rparr>"

subsection \<open>Operations\<close>

definition info_set_rtt :: "duration option \<Rightarrow> 'ma peer_info \<Rightarrow> 'ma peer_info option" where
  "info_set_rtt sample info =
     (case sample of
        Some duration \<Rightarrow>
          (case info_rtt info of
             Some r \<Rightarrow> map_option (\<lambda>r'. info\<lparr>info_rtt := Some r'\<rparr>) (register duration r)
           | None \<Rightarrow> Some (info\<lparr>info_rtt := Some (rtt_new duration)\<rparr>))
      | None \<Rightarrow>
          (case info_rtt info of
             Some r \<Rightarrow> map_option (\<lambda>r'. info\<lparr>info_rtt := Some r'\<rparr>) (register_failure r)
           | None \<Rightarrow> Some info))"

definition push_failure :: "'ma \<Rightarrow> 'ma connection_failure \<Rightarrow> bool \<Rightarrow> 'ma peer_info \<Rightarrow> 'ma peer_info" where
  "push_failure addr f probe_result info =
     (let fs = (if length (failures info) > 9 then butlast (failures info) else failures info);
          as = (if probe_result \<and>
                   (case hm_get (addresses info) addr of Some (s, _) \<Rightarrow> is_to_probe s | None \<Rightarrow> False)
                then hm_remove addr (addresses info) else addresses info)
      in info\<lparr>addresses := as, failures := f # fs\<rparr>)"

definition select_addresses :: "(address_source \<Rightarrow> bool) \<Rightarrow> 'ma peer_info \<Rightarrow> 'ma list" where
  "select_addresses P info = map fst (filter (\<lambda>(_, s, _). P s) (addresses info))"

definition confirmed_addresses :: "'ma peer_info \<Rightarrow> 'ma list" where
  "confirmed_addresses = select_addresses is_confirmed"

definition addresses_to_probe :: "'ma peer_info \<Rightarrow> 'ma list" where
  "addresses_to_probe = select_addresses is_to_probe"

definition addresses_to_translate :: "'ma peer_info \<Rightarrow> 'ma list" where
  "addresses_to_translate = select_addresses is_to_translate"

text \<open>What a record shows to callers.\<close>

definition shown_addresses :: "'ma peer_info \<Rightarrow> ('ma \<times> address_source \<times> datetime) list" where
  "shown_addresses info = map (\<lambda>(addr, (source, dt)). (addr, source, dt)) (addresses info)"

definition shown_connections :: "'ma peer_info \<Rightarrow> ('ma \<times> datetime \<times> direction) list" where
  "shown_connections info = map (\<lambda>(a, (dt, dir)). (a, dt, dir)) (connections info)"

definition current_rtt :: "'ma peer_info \<Rightarrow> duration option" where
  "current_rtt info = map_option rtt_current (info_rtt info)"

definition recent_failures :: "'ma peer_info \<Rightarrow> 'ma connection_failure list" where
  "recent_failures info = failures info"

text \<open>
  \<open>PeerInfo::ingest_address\<close>: the result says whether the address is worth a probe. The
  assertion on a new address stops the program when the address has no trailing peer id.
\<close>

definition ingest_address :: "('ma, 'z) multiaddr_api_scheme \<Rightarrow> datetime \<Rightarrow> 'ma \<Rightarrow> address_source \<Rightarrow>
    'ma peer_info \<Rightarrow> (bool \<times> 'ma peer_info) option" where
  "ingest_address M now addr source info =
     (case hm_get (addresses info) addr of
        Some (src, dt) \<Rightarrow>
          if source > src
          then Some (is_to_probe source,
                 info\<lparr>addresses := hm_insert addr (source, now) (addresses info)\<rparr>)
          else Some (False, info\<lparr>addresses := hm_insert addr (src, now) (addresses info)\<rparr>)
      | None \<Rightarrow>
          if \<not> ends_with_p2p M addr then None
          else Some (is_to_probe source,
                 info\<lparr>addresses := hm_insert addr (source, now) (addresses info)\<rparr>))"

text \<open>The source an address was learnt from, the observable part of an entry.\<close>

definition source_of :: "'ma peer_info \<Rightarrow> 'ma \<Rightarrow> address_source option" where
  "source_of info a = map_option fst (hm_get (addresses info) a)"

text \<open>A sequence of observations, each an address with its source and the instant.\<close>

fun ingest_all :: "('ma, 'z) multiaddr_api_scheme \<Rightarrow> ('ma \<times> address_source \<times> datetime) list \<Rightarrow>
    'ma peer_info \<Rightarrow> 'ma peer_info option" where
  "ingest_all M [] info = Some info"
| "ingest_all M ((a, s, now) # os) info =
     ingest_address M now a s info \<bind> (\<lambda>(_, info'). ingest_all M os info')"

text \<open>How many of the observations of one address ask for a probe.\<close>

fun probes :: "('ma, 'z) multiaddr_api_scheme \<Rightarrow> 'ma \<Rightarrow> ('ma \<times> address_source \<times> datetime) list \<Rightarrow>
    'ma peer_info \<Rightarrow> nat option" where
  "probes M b [] info = Some 0"
| "probes M b ((a, s, now) # os) info =
     ingest_address M now a s info \<bind> (\<lambda>(probe, info'). map_option
       (\<lambda>n. n + (if a = b \<and> probe then 1 else 0)) (probes M b os info'))"

subsection \<open>Well-formed peer records\<close>

definition keys_p2p :: "('ma, 'z) multiaddr_api_scheme \<Rightarrow> ('ma, 'v) hashmap \<Rightarrow> bool" where
  "keys_p2p M m = list_all (ends_with_p2p M) (hm_keys m)"

definition info_ok :: "('ma, 'z) multiaddr_api_scheme \<Rightarrow> 'ma peer_info \<Rightarrow> bool" where
  "info_ok M info \<longleftrightarrow>
     hm_ok (addresses info) \<and> hm_ok (connections info) \<and>
     keys_p2p M (addresses info) \<and> keys_p2p M (connections info) \<and>
     length (failures info) \<le> 10 \<and>
     (case info_rtt info of None \<Rightarrow> True | Some r \<Rightarrow> rtt_ok r)"

lemma keys_p2p_Nil [simp]: "keys_p2p M []"
  by (simp add: keys_p2p_def)

lemma keys_p2p_insert [simp]: "keys_p2p M (hm_insert a v m) \<longleftrightarrow> ends_with_p2p M a \<and> keys_p2p M m"
  by (simp add: keys_p2p_def list_all_iff hm_keys_insert del: set_map)

lemma keys_p2p_remove [intro]: "keys_p2p M m \<Longrightarrow> keys_p2p M (hm_remove a m)"
  by (auto simp: keys_p2p_def list_all_iff AList.delete_eq)

lemma keys_p2p_filter [intro]: "keys_p2p M m \<Longrightarrow> keys_p2p M (filter P m)"
  by (auto simp: keys_p2p_def list_all_iff)

lemma keys_p2p_get: "keys_p2p M m \<Longrightarrow> a \<in> set (hm_keys m) \<Longrightarrow> ends_with_p2p M a"
  by (auto simp: keys_p2p_def list_all_iff)

lemma default_info_ok [simp]: "info_ok M default_info"
  by (simp add: info_ok_def default_info_def)

lemma push_failure_frame [simp]:
  "connections (push_failure a f pr info) = connections info"
  "info_rtt (push_failure a f pr info) = info_rtt info"
  "info_listeners (push_failure a f pr info) = info_listeners info"
  by (simp_all add: push_failure_def Let_def)

lemma push_failure_addresses:
  "hm_get (addresses (push_failure a f pr info)) b =
    (if b = a \<and> pr \<and> (\<exists>s dt. hm_get (addresses info) a = Some (s, dt) \<and> is_to_probe s)
     then None else hm_get (addresses info) b)"
  by (auto simp: push_failure_def Let_def split: option.splits)

lemma push_failure_failures:
  "length (failures info) \<le> 10 \<Longrightarrow> failures (push_failure a f pr info) = take 10 (f # failures info)"
  by (cases "length (failures info) = 10") (auto simp: push_failure_def Let_def butlast_conv_take)

lemma push_failure_ok [intro]: "info_ok M info \<Longrightarrow> info_ok M (push_failure a f pr info)"
  unfolding info_ok_def
  by (auto simp: push_failure_failures) (auto simp: push_failure_def Let_def)

lemma ingest_address_total:
  "hm_get (addresses info) a \<noteq> None \<or> ends_with_p2p M a \<Longrightarrow>
     \<exists>probe info'. ingest_address M now a s info = Some (probe, info')"
  by (auto simp: ingest_address_def split: option.splits)

lemma ingest_address_frame:
  assumes "ingest_address M now a s info = Some (probe, info')"
  shows "info' = info\<lparr>addresses := addresses info'\<rparr>"
    and "hm_get (addresses info') a = Some (max s (case hm_get (addresses info) a of
           None \<Rightarrow> s | Some (src, _) \<Rightarrow> src), now)"
    and "b \<noteq> a \<Longrightarrow> hm_get (addresses info') b = hm_get (addresses info) b"
    and "probe \<longleftrightarrow> is_to_probe s \<and> (\<forall>src dt. hm_get (addresses info) a = Some (src, dt) \<longrightarrow> src < s)"
  using assms by (auto simp: ingest_address_def max_def split: option.splits if_splits)

lemma ingest_address_other:
  assumes "ingest_address M now a s info = Some (probe, info')"
  shows "connections info' = connections info" "info_rtt info' = info_rtt info"
    "info_listeners info' = info_listeners info"
  using assms by (auto simp: ingest_address_def split: option.splits if_splits)

lemma ingest_address_ok:
  assumes "info_ok M info" "ends_with_p2p M a" "ingest_address M now a s info = Some (probe, info')"
  shows "info_ok M info'"
  using assms
  by (auto simp: ingest_address_def info_ok_def split: option.splits if_splits)

lemma ingest_address_panic_free:
  assumes "info_ok M info" "ends_with_p2p M a"
  obtains probe info' where "ingest_address M now a s info = Some (probe, info')" "info_ok M info'"
  using ingest_address_total [of info a M now s] ingest_address_ok [OF assms] assms(2) by blast

lemma info_set_rtt_ok:
  assumes "info_ok M info" "info_set_rtt sample info = Some info'" "\<And>d. sample = Some d \<Longrightarrow> dur_ok d"
  shows "info_ok M info'"
  using assms
  by (auto simp: info_set_rtt_def info_ok_def intro: rtt_ok_new rtt_ok_register rtt_ok_register_failure
      split: option.splits)

subsection \<open>Observations of addresses\<close>

lemma source_of_ingest:
  assumes "ingest_address M now a s info = Some (probe, info')"
  shows "source_of info' b = (if b = a then max (Some s) (source_of info a) else source_of info b)"
  using ingest_address_frame [OF assms]
  by (auto simp: source_of_def max_def split: option.splits if_splits)

lemma ingest_all_total:
  assumes "info_ok M info" "\<forall>(a, s, now) \<in> set os. ends_with_p2p M a"
  shows "\<exists>info'. ingest_all M os info = Some info' \<and> info_ok M info'"
  using assms
proof (induction os arbitrary: info)
  case Nil
  then show ?case by simp
next
  case (Cons x os)
  obtain a s now where x: "x = (a, s, now)" by (cases x)
  with Cons.prems obtain probe info1 where
    "ingest_address M now a s info = Some (probe, info1)" "info_ok M info1"
    by (auto intro: ingest_address_panic_free [of M info a])
  with Cons x show ?case by simp
qed

lemma source_of_ingest_all:
  assumes "ingest_all M os info = Some info'"
  shows "source_of info' a =
    Max (set (source_of info a # map (\<lambda>(_, s, _). Some s) (filter (\<lambda>(b, _). b = a) os)))"
  unfolding Max.set_eq_fold
  using assms
proof (induction os arbitrary: info)
  case Nil
  then show ?case by simp
next
  case (Cons x os)
  obtain b s now where x: "x = (b, s, now)" by (cases x)
  with Cons.prems obtain probe info1 where
    i1: "ingest_address M now b s info = Some (probe, info1)" "ingest_all M os info1 = Some info'"
    by (auto split: Option.bind_splits)
  from Cons.IH [OF i1(2)] show ?case
    by (simp add: x source_of_ingest [OF i1(1)])
qed

text \<open>
  What a peer record knows does not depend on the order in which it learnt it: two
  sequences with the same observations of tagged addresses, in any order and with any
  repetitions, are both ingested without a panic and give every address the same source,
  the strongest one observed or already known.
\<close>

lemma ingest_order_independent:
  assumes "info_ok M info" "\<forall>(a, s, now) \<in> set os. ends_with_p2p M a" "set os = set os'"
  shows "\<exists>i1 i2. ingest_all M os info = Some i1 \<and> ingest_all M os' info = Some i2 \<and>
    source_of i1 = source_of i2 \<and>
    (\<forall>a. source_of i1 a = Max (insert (source_of info a) {Some s |s now. (a, s, now) \<in> set os}))"
proof -
  obtain i1 where i1: "ingest_all M os info = Some i1"
    using ingest_all_total [OF assms(1,2)] by blast
  obtain i2 where i2: "ingest_all M os' info = Some i2"
    using ingest_all_total [OF assms(1)] assms(2,3) by blast
  have eq: "set (source_of info a # map (\<lambda>(_, s, _). Some s) (filter (\<lambda>(b, _). b = a) xs)) =
      insert (source_of info a) {Some s |s now. (a, s, now) \<in> set xs}" for a and xs :: "('a \<times> address_source \<times> datetime) list"
    by force
  have m: "source_of i1 a = Max (insert (source_of info a) {Some s |s now. (a, s, now) \<in> set os})"
    "source_of i2 a = Max (insert (source_of info a) {Some s |s now. (a, s, now) \<in> set os'})" for a
    using source_of_ingest_all [OF i1, of a] source_of_ingest_all [OF i2, of a] by (simp_all only: eq)
  then have "source_of i1 = source_of i2" using assms(3) by (intro ext) simp
  with i1 i2 m show ?thesis by blast
qed

lemma ingest_order_independent_sample:
  "\<exists>i1 i2. ingest_all list_addrs [([P2p 1], Mdns, 5), ([P2p 1], Dial, 6)] default_info = Some i1 \<and>
    ingest_all list_addrs [([P2p 1], Dial, 6), ([P2p 1], Mdns, 5)] default_info = Some i2 \<and>
    source_of i1 = source_of i2 \<and>
    (\<forall>a. source_of i1 a = Max (insert (source_of default_info a)
      {Some s |s now. (a, s, now) \<in> set [([P2p 1], Mdns, 5 :: datetime), ([P2p 1], Dial, 6)]}))"
  by (rule ingest_order_independent)
    (auto simp: ends_with_p2p_def last_protocol_def list_addrs_def)

subsection \<open>Probes\<close>

definition probing_sources :: "address_source list" where
  "probing_sources = [Listen, Kad, Mdns, Candidate]"

definition probes_left :: "address_source option \<Rightarrow> nat" where
  "probes_left s = length (filter (\<lambda>t. is_to_probe t \<and> s < Some t) probing_sources)"

lemma to_probe_mem: "is_to_probe t \<longleftrightarrow> t \<in> set probing_sources"
  by (cases t) (auto simp: probing_sources_def)

lemma filter_mono_length:
  "(\<And>x. x \<in> set xs \<Longrightarrow> Q x \<Longrightarrow> P x) \<Longrightarrow> length (filter Q xs) \<le> length (filter P xs)"
  by (induction xs) (auto intro: le_SucI)

lemma filter_shrinks:
  assumes "\<And>x. x \<in> set xs \<Longrightarrow> Q x \<Longrightarrow> P x" "y \<in> set xs" "P y" "\<not> Q y"
  shows "length (filter Q xs) < length (filter P xs)"
  using assms
proof (induction xs)
  case (Cons x xs)
  show ?case
  proof (cases "x = y")
    case True
    have "length (filter Q xs) \<le> length (filter P xs)"
      using Cons.prems(1) by (intro filter_mono_length) auto
    with True Cons.prems show ?thesis by simp
  next
    case False
    with Cons show ?thesis by auto
  qed
qed simp

lemma probes_left_step:
  assumes "ingest_address M now a s info = Some (probe, info')"
  shows "probes_left (source_of info' b) + (if a = b \<and> probe then 1 else 0) \<le> probes_left (source_of info b)"
proof (cases "a = b \<and> probe")
  case True
  then have p: "is_to_probe s" "source_of info b < Some s"
    using ingest_address_frame(4) [OF assms] by (auto simp: source_of_def less_option_def split: option.splits)
  with True have "source_of info' b = Some s"
    using source_of_ingest [OF assms, of b] by (simp add: max.absorb1 less_imp_le)
  with p True show ?thesis
    unfolding probes_left_def using to_probe_mem [of s]
    by (auto intro!: Suc_leI filter_shrinks [of _ _ _ s] intro: less_trans [of _ "Some s"])
next
  case False
  have "source_of info b \<le> source_of info' b"
    using source_of_ingest [OF assms, of b] by simp
  with False show ?thesis
    unfolding probes_left_def by (auto intro!: filter_mono_length intro: le_less_trans)
qed

lemma probes_bound: "probes M b os info = Some n \<Longrightarrow> n \<le> probes_left (source_of info b)"
proof (induction os arbitrary: info n)
  case Nil
  then show ?case by simp
next
  case (Cons x os)
  obtain a s now where x: "x = (a, s, now)" by (cases x)
  with Cons.prems obtain probe info1 m where
    st: "ingest_address M now a s info = Some (probe, info1)" "probes M b os info1 = Some m"
      "n = m + (if a = b \<and> probe then 1 else 0)"
    by (auto split: Option.bind_splits)
  with Cons.IH [OF st(2)] probes_left_step [OF st(1), of b] show ?case by linarith
qed

text \<open>
  Gossip about an address cannot make the node dial it over and over: however many
  times the address is reported, and from whatever sources, at most four of the reports
  ask for a probe.
\<close>

lemma at_most_four_probes:
  assumes "probes M b os info = Some n"
  shows "n \<le> 4"
proof -
  have "probes_left (source_of info b) \<le> length probing_sources"
    unfolding probes_left_def by (rule length_filter_le)
  with probes_bound [OF assms] show ?thesis by (simp add: probing_sources_def)
qed

lemma at_most_four_probes_sample:
  "probes list_addrs [P2p 1] [([P2p 1], Kad, 5), ([P2p 1], Kad, 6), ([P2p 1], Mdns, 7)] default_info = Some 2 \<and>
    (2::nat) \<le> 4"
proof -
  have "probes list_addrs [P2p 1] [([P2p 1], Kad, 5), ([P2p 1], Kad, 6), ([P2p 1], Mdns, 7)] default_info = Some 2"
    by (simp add: ingest_address_def ends_with_p2p_def last_protocol_def list_addrs_def
        default_info_def less_address_source_def)
  with at_most_four_probes [OF this] show ?thesis by simp
qed

text \<open>
  The failure history holds the ten most recent failures, newest first, and recording a
  failure forgets an address only when the failure was the result of a probe and the
  address was still to be probed: an address that was dialled successfully or entered by
  the user stays.
\<close>

lemma push_failure_spec:
  assumes "length (failures info) \<le> 10"
  shows "failures (push_failure a f probe info) = take 10 (f # failures info) \<and>
    source_of (push_failure a f probe info) b =
      (if b = a \<and> probe \<and> (\<exists>s. source_of info a = Some s \<and> is_to_probe s)
       then None else source_of info b)"
  using push_failure_failures [OF assms, of a f probe]
  by (auto simp: source_of_def push_failure_addresses)

lemma push_failure_spec_sample:
  "failures (push_failure [P2p 1] (failure_us 3 [Tcp 2] ''r'' ''d'') True default_info) =
      take 10 [failure_us 3 [Tcp 2] ''r'' ''d''] \<and>
    source_of (push_failure [P2p 1] (failure_us 3 [Tcp 2] ''r'' ''d'') True default_info) [P2p 1] = None"
  using push_failure_spec [of default_info "[P2p 1]" "failure_us 3 [Tcp 2] ''r'' ''d''" True "[P2p 1]"]
  by (simp add: default_info_def source_of_def)

end
