(* ===== verification/Channels.thy ===== *)
theory Channels
  imports Prelude
begin

text \<open>
  Fan-out of events to the unbounded channels of subscribers. \<open>AddressBook::notify\<close> and
  \<open>NetworkBackendBehaviour::notify_subscribers\<close> both run
  \<open>retain(|tx| tx.unbounded_send(event.clone()).is_ok())\<close>: every sender is tried once, in
  order, and stays in the list exactly when the send succeeded.

  The channels are those of the futures crate. A sender is a token; whether a send
  succeeds is a parameter that may depend on everything that happened on the channels
  before, which the history records: each attempt with its sender, event and outcome.
\<close>

type_synonym sender = nat

type_synonym 'ev history = "(sender \<times> 'ev \<times> bool) list"

type_synonym 'ev send_fun = "'ev history \<Rightarrow> sender \<Rightarrow> 'ev \<Rightarrow> bool"

fun retain_send :: "'ev send_fun \<Rightarrow> 'ev \<Rightarrow> sender list \<Rightarrow> 'ev history \<Rightarrow> sender list \<times> 'ev history" where
  "retain_send send ev [] h = ([], h)"
| "retain_send send ev (tx # txs) h =
     (let ok = send h tx ev;
          (kept, h') = retain_send send ev txs (h @ [(tx, ev, ok)])
      in (if ok then tx # kept else kept, h'))"

text \<open>The events that reached a receiver.\<close>

definition delivered :: "'ev history \<Rightarrow> sender \<Rightarrow> 'ev list" where
  "delivered h tx = map (fst \<circ> snd) (filter (\<lambda>(t, _, ok). t = tx \<and> ok) h)"

text \<open>The attempts that one publication adds to the history.\<close>

definition attempts :: "'ev \<Rightarrow> sender list \<Rightarrow> 'ev history \<Rightarrow> bool" where
  "attempts ev txs new \<longleftrightarrow> map fst new = txs \<and> (\<forall>x \<in> set new. fst (snd x) = ev)"

abbreviation survivors :: "'ev history \<Rightarrow> sender list" where
  "survivors new \<equiv> map fst (filter (\<lambda>(_, _, ok). ok) new)"

lemma retain_send_spec:
  "\<exists>new. snd (retain_send send ev txs h) = h @ new \<and> attempts ev txs new \<and>
     fst (retain_send send ev txs h) = survivors new"
proof (induction txs arbitrary: h)
  case Nil
  then show ?case by (simp add: attempts_def)
next
  case (Cons tx txs)
  obtain new where "snd (retain_send send ev txs (h @ [(tx, ev, send h tx ev)])) =
      (h @ [(tx, ev, send h tx ev)]) @ new" "attempts ev txs new"
    "fst (retain_send send ev txs (h @ [(tx, ev, send h tx ev)])) = survivors new"
    using Cons.IH by blast
  then show ?case
    by (intro exI [of _ "(tx, ev, send h tx ev) # new"])
      (auto simp: attempts_def Let_def split: prod.splits)
qed

lemma delivered_append [simp]: "delivered (h @ new) tx = delivered h tx @ delivered new tx"
  by (simp add: delivered_def)

lemma delivered_Nil [simp]: "delivered [] tx = []"
  by (simp add: delivered_def)

lemma survivors_subset: "attempts ev txs new \<Longrightarrow> set (survivors new) \<subseteq> set txs"
  unfolding attempts_def by (metis filter_is_subset image_mono set_map)

lemma delivered_attempts:
  assumes "attempts ev txs new" "distinct txs"
  shows "delivered new tx = (if tx \<in> set (survivors new) then [ev] else [])"
  using assms
proof (induction new arbitrary: txs)
  case Nil
  then show ?case by simp
next
  case (Cons x new)
  obtain t e ok where x: "x = (t, e, ok)" by (cases x)
  with Cons.prems have txs: "txs = t # tl txs" and e: "e = ev" and at: "attempts ev (tl txs) new"
    by (auto simp: attempts_def)
  with Cons.prems(2) have d: "distinct (tl txs)" "t \<notin> set (tl txs)"
    by (metis distinct.simps(2))+
  have "t \<notin> set (survivors new)"
    using survivors_subset [OF at] d(2) by (rule contra_subsetD)
  with Cons.IH [OF at d(1)] show ?case
    by (auto simp: x e delivered_def)
qed

subsection \<open>The contract of a fan-out\<close>

text \<open>
  What a component that keeps a list of senders promises: one publication tries every
  sender of the list once and keeps those that accepted.
\<close>

locale fan_out =
  fixes publish :: "'ev \<Rightarrow> 's \<Rightarrow> 's"
    and subs :: "'s \<Rightarrow> sender list"
    and log :: "'s \<Rightarrow> 'ev history"
  assumes publish_spec: "\<exists>new. log (publish e s) = log s @ new \<and> attempts e (subs s) new \<and>
    subs (publish e s) = survivors new"
begin

lemma subs_subset: "set (subs (publish e s)) \<subseteq> set (subs s)"
  using publish_spec [of e s] survivors_subset by metis

lemma subs_distinct: "distinct (subs s) \<Longrightarrow> distinct (subs (publish e s))"
  using publish_spec [of e s] by (auto simp: attempts_def intro: distinct_map_filter)

lemma delivered_publish:
  "distinct (subs s) \<Longrightarrow> delivered (log (publish e s)) tx =
     delivered (log s) tx @ (if tx \<in> set (subs (publish e s)) then [e] else [])"
  using publish_spec [of e s] by (auto simp: delivered_attempts)

lemma run_subset: "set (subs (fold publish es s)) \<subseteq> set (subs s)"
proof (induction es arbitrary: s)
  case (Cons e es)
  then show ?case using subs_subset [of e s] by auto
qed simp

lemma run_gone:
  assumes "distinct (subs s)" "tx \<notin> set (subs s)"
  shows "delivered (log (fold publish es s)) tx = delivered (log s) tx"
  using assms
proof (induction es arbitrary: s)
  case (Cons e es)
  have "tx \<notin> set (subs (publish e s))" using Cons.prems subs_subset by blast
  with Cons show ?case by (simp add: subs_distinct delivered_publish)
qed simp

lemma run_prefix:
  assumes "distinct (subs s)"
  shows "\<exists>n. delivered (log (fold publish es s)) tx = delivered (log s) tx @ take n es \<and>
    (tx \<in> set (subs (fold publish es s)) \<longrightarrow> length es \<le> n)"
  using assms
proof (induction es arbitrary: s)
  case Nil
  then show ?case by simp
next
  case (Cons e es)
  obtain n where n: "delivered (log (fold publish es (publish e s))) tx =
      delivered (log (publish e s)) tx @ take n es"
    "tx \<in> set (subs (fold publish es (publish e s))) \<longrightarrow> length es \<le> n"
    using Cons.IH [OF subs_distinct [OF Cons.prems]] by blast
  show ?case
  proof (cases "tx \<in> set (subs (publish e s))")
    case True
    with n Cons.prems show ?thesis
      by (intro exI [of _ "Suc n"]) (auto simp: delivered_publish)
  next
    case False
    then have "delivered (log (fold publish es (publish e s))) tx = delivered (log (publish e s)) tx"
      by (rule run_gone [OF subs_distinct [OF Cons.prems]])
    moreover have "tx \<notin> set (subs (fold publish es (publish e s)))"
      using False run_subset by blast
    ultimately show ?thesis
      using False Cons.prems by (intro exI [of _ 0]) (auto simp: delivered_publish)
  qed
qed

end

end
