(* ===== verification/AddressBook.thy ===== *)
theory AddressBook
  imports PeerInfo Channels
begin

text \<open>
  The address book, \<open>AddressBook\<close> of \<open>src/src/net/peers.rs\<close>: it knows the peers and their
  addresses, decides which addresses to dial, and tells subscribers what happened. Each
  method and each \<open>inject_*\<close> callback of the swarm is one definition, from the whole state
  to the whole state; \<open>book_step\<close> is the sum of them.

  What the process around the book provides is an argument, the record \<open>env\<close>: the address
  and error functions of the crates, the clock (the instant of the n-th reading), the
  random number generator (the n-th draw), the outcome of a send and the iteration order of
  hash sets. The state counts the
  readings and draws and records the sends. The three \<open>Writer\<close> cells of the source are the
  fields \<open>listeners\<close>, \<open>peers\<close> and \<open>external\<close>; the prometheus gauges are fields too.
\<close>

type_synonym listener_id = nat

datatype 'ma event =
    NewListener listener_id
  | NewListenAddr listener_id 'ma
  | ExpiredListenAddr listener_id 'ma
  | ListenerError listener_id string
  | ListenerClosed listener_id
  | NewExternalAddr 'ma
  | ExpiredExternalAddr 'ma
  | Discovered peer_id
  | DialFailure peer_id 'ma string
  | Unreachable peer_id
  | ConnectionEstablished peer_id "'ma connected_point"
  | ConnectionClosed peer_id "'ma connected_point"
  | AddressChanged peer_id "'ma connected_point" "'ma connected_point"
  | Connected peer_id
  | Disconnected peer_id
  | Subscribed peer_id string
  | Unsubscribed peer_id string
  | Bootstrapped
  | NewInfo peer_id

subsection \<open>Connection handlers, address\_handler.rs\<close>

datatype 'ma into_address_handler = IntoAddressHandler "('ma \<times> u8) option" bool

fun handler_peer_id :: "('ma, 'z) multiaddr_api_scheme \<Rightarrow> 'ma into_address_handler \<Rightarrow> peer_id option" where
  "handler_peer_id M (IntoAddressHandler own _) =
     (case own of None \<Rightarrow> None | Some (addr, _) \<Rightarrow> multiaddr_peer_id M addr)"

record 'ma address_handler =
  own_dial :: "('ma \<times> u8) option"
  remote_peer_id :: peer_id
  handler_point :: "'ma connected_point"
  handler_keep_alive :: bool

fun into_handler :: "'ma into_address_handler \<Rightarrow> peer_id \<Rightarrow> 'ma connected_point \<Rightarrow> 'ma address_handler" where
  "into_handler (IntoAddressHandler own keep) remote cp =
     \<lparr>own_dial = own, remote_peer_id = remote, handler_point = cp, handler_keep_alive = keep\<rparr>"

datatype keep_alive = KeepAliveYes | KeepAliveNo

definition connection_keep_alive :: "'ma address_handler \<Rightarrow> keep_alive" where
  "connection_keep_alive h = (if handler_keep_alive h then KeepAliveYes else KeepAliveNo)"

subsection \<open>State\<close>

text \<open>\<open>DialOpts\<close> as built by the source: \<open>None\<close> where the builder keeps its default condition.\<close>

record 'ma dial_opts =
  opts_peer :: peer_id
  opts_condition :: "peer_condition option"
  opts_addresses :: "'ma list"

datatype 'ma action = DialAction "'ma dial_opts" "'ma into_address_handler"

datatype address_score = ScoreFinite u32 | ScoreInfinite

type_synonym 'ma address_record = "'ma \<times> address_score"

record 'ma env = "'ma error_fmt" +
  utc_now :: "nat \<Rightarrow> datetime"
  rand_u32 :: "nat \<Rightarrow> u32"
  unbounded_send :: "'ma event send_fun"
  hash_set_iter :: "'ma list \<Rightarrow> 'ma list"

text \<open>
  A hash set is a list without duplicates; the order in which the standard library iterates
  over it is unspecified, but every element is visited exactly once.
\<close>

definition hash_set_laws :: "'ma env \<Rightarrow> bool" where
  "hash_set_laws E \<longleftrightarrow> (\<forall>xs. distinct xs \<longrightarrow>
     distinct (hash_set_iter E xs) \<and> set (hash_set_iter E xs) = set xs)"

record 'ma world =
  clock_reads :: nat
  rand_draws :: nat
  sent :: "'ma event history"
  gauge_listeners :: int
  gauge_listen_addrs :: int
  gauge_external_addrs :: int
  counter_listener_error :: nat

record 'ma address_book = "'ma world" +
  port_reuse :: bool
  enable_loopback :: bool
  keep_alive :: bool
  local_peer_id :: peer_id
  listeners :: "'ma list"
  peers :: "(peer_id, 'ma peer_info) hashmap"
  external :: "'ma address_record list"
  refresh_external :: bool
  event_stream :: "sender list"
  actions :: "'ma action list"
  deferred :: "(duration \<times> 'ma action) list"

definition book_new :: "peer_id \<Rightarrow> bool \<Rightarrow> bool \<Rightarrow> bool \<Rightarrow> 'ma address_book" where
  "book_new peer reuse loopback keep =
     \<lparr>clock_reads = 0, rand_draws = 0, sent = [], gauge_listeners = 0, gauge_listen_addrs = 0,
      gauge_external_addrs = 0, counter_listener_error = 0,
      port_reuse = reuse, enable_loopback = loopback, keep_alive = keep, local_peer_id = peer,
      listeners = [], peers = [], external = [], refresh_external = True, event_stream = [],
      actions = [], deferred = []\<rparr>"

definition SIM_OPEN_RETRIES :: u8 where
  "SIM_OPEN_RETRIES = 10"

text \<open>Reading the clock.\<close>

definition now_of :: "'ma env \<Rightarrow> 'ma address_book \<Rightarrow> datetime" where
  "now_of E b = utc_now E (clock_reads b)"

definition tick :: "'ma address_book \<Rightarrow> 'ma address_book" where
  "tick b = b\<lparr>clock_reads := Suc (clock_reads b)\<rparr>"

definition push_action :: "'ma action \<Rightarrow> 'ma address_book \<Rightarrow> 'ma address_book" where
  "push_action a b = b\<lparr>actions := actions b @ [a]\<rparr>"

definition set_peer :: "peer_id \<Rightarrow> 'ma peer_info \<Rightarrow> 'ma address_book \<Rightarrow> 'ma address_book" where
  "set_peer p info b = b\<lparr>peers := hm_insert p info (peers b)\<rparr>"

subsection \<open>Subscribers\<close>

definition swarm_events :: "sender \<Rightarrow> 'ma address_book \<Rightarrow> 'ma address_book" where
  "swarm_events tx b = b\<lparr>event_stream := event_stream b @ [tx]\<rparr>"

definition notify :: "'ma env \<Rightarrow> 'ma event \<Rightarrow> 'ma address_book \<Rightarrow> 'ma address_book" where
  "notify E ev b =
     (let (kept, h) = retain_send (unbounded_send E) ev (event_stream b) (sent b)
      in b\<lparr>event_stream := kept, sent := h\<rparr>)"

subsection \<open>Dialling\<close>

definition new_handler :: "'ma address_book \<Rightarrow> 'ma into_address_handler" where
  "new_handler b = IntoAddressHandler None (keep_alive b)"

definition dial :: "peer_id \<Rightarrow> 'ma address_book \<Rightarrow> 'ma address_book" where
  "dial peer b =
     (if peer = local_peer_id b then b
      else push_action (DialAction \<lparr>opts_peer = peer, opts_condition = None, opts_addresses = []\<rparr>
             (new_handler b)) b)"

definition dial_address :: "'ma env \<Rightarrow> peer_id \<Rightarrow> 'ma \<Rightarrow> 'ma address_book \<Rightarrow> 'ma address_book" where
  "dial_address E peer addr b =
     (if peer = local_peer_id b then b
      else
        let target = into_owned (normalize_addr_ref E addr peer);
            info = hm_entry default_info (peers b) peer;
            b = set_peer peer info b
        in if target \<in> set (hm_keys (connections info)) then b
           else push_action (DialAction
                  \<lparr>opts_peer = peer, opts_condition = None, opts_addresses = [addr]\<rparr>
                  (IntoAddressHandler (Some (target, SIM_OPEN_RETRIES + 1)) (keep_alive b))) b)"

subsection \<open>Addresses\<close>

definition add_address :: "'ma env \<Rightarrow> peer_id \<Rightarrow> 'ma \<Rightarrow> address_source \<Rightarrow> 'ma address_book \<Rightarrow>
    'ma address_book option" where
  "add_address E peer address source b =
     (if peer = local_peer_id b then Some b
      else if \<not> enable_loopback b \<and> is_loopback E address then Some b
      else
        let discovered = (case hm_get (peers b) peer of
              None \<Rightarrow> True | Some info \<Rightarrow> confirmed_addresses info = []);
            (addr_full, address) = (case normalize_addr_ref E address peer of
              Borrowed a \<Rightarrow> (a, ma_pop E address) | Owned a \<Rightarrow> (a, address))
        in if address \<in> set (listeners b) then Some b
           else do {
             (probe, info) \<leftarrow> ingest_address E (now_of E b) addr_full source
               (hm_entry default_info (peers b) peer);
             let b = set_peer peer info (tick b);
             let result = (probe \<and> addr_full \<notin> set (hm_keys (connections info)));
             let b = (if result
                then push_action (DialAction
                  \<lparr>opts_peer = peer, opts_condition = Some CondAlways, opts_addresses = [address]\<rparr>
                  (IntoAddressHandler (Some (addr_full, SIM_OPEN_RETRIES + 1)) False)) b
                else b);
             let b = (if discovered \<and> is_confirmed source then notify E (Discovered peer) b else b);
             Some (notify E (NewInfo peer) b)
           })"

definition remove_address :: "'ma env \<Rightarrow> peer_id \<Rightarrow> 'ma \<Rightarrow> 'ma address_book \<Rightarrow> 'ma address_book" where
  "remove_address E peer address b =
     (case hm_get (peers b) peer of
        None \<Rightarrow> b
      | Some info \<Rightarrow> set_peer peer (info\<lparr>addresses :=
          hm_remove (into_owned (normalize_addr_ref E address peer)) (addresses info)\<rparr>) b)"

definition addresses_of_peer :: "peer_id \<Rightarrow> 'ma address_book \<Rightarrow> 'ma list" where
  "addresses_of_peer peer b =
     (case hm_get (peers b) peer of Some info \<Rightarrow> confirmed_addresses info | None \<Rightarrow> [])"

subsection \<open>Pruning\<close>

definition diff_time :: "datetime \<Rightarrow> datetime \<Rightarrow> duration" where
  "diff_time former latter = (if latter - former < 0 then 0 else nat (latter - former))"

definition prunable :: "datetime \<Rightarrow> duration \<Rightarrow> 'ma peer_info \<Rightarrow> bool" where
  "prunable now min_age info \<longleftrightarrow>
     connections info = [] \<and>
     (case failures info of [] \<Rightarrow> True | f # _ \<Rightarrow> \<not> diff_time (cf_time f) now < min_age) \<and>
     list_all (\<lambda>(a, s, dt). \<not> is_confirmed s \<and>
       \<not> (is_to_probe s \<and> diff_time dt now < max min_age (from_secs 10))) (addresses info)"

fun remove_peers :: "'ma env \<Rightarrow> peer_id list \<Rightarrow> 'ma address_book \<Rightarrow> 'ma address_book" where
  "remove_peers E [] b = b"
| "remove_peers E (p # ps) b =
     remove_peers E ps (notify E (NewInfo p) (b\<lparr>peers := hm_remove p (peers b)\<rparr>))"

definition prune_peers :: "'ma env \<Rightarrow> duration \<Rightarrow> 'ma address_book \<Rightarrow> 'ma address_book" where
  "prune_peers E min_age b =
     (let now = now_of E b;
          remove = map fst (filter (\<lambda>(peer, info). prunable now min_age info) (peers b))
      in remove_peers E remove (tick b))"

subsection \<open>Information from ping and identify\<close>

definition set_rtt :: "'ma env \<Rightarrow> peer_id \<Rightarrow> duration option \<Rightarrow> 'ma address_book \<Rightarrow> 'ma address_book option" where
  "set_rtt E peer sample b =
     (case hm_get (peers b) peer of
        None \<Rightarrow> Some b
      | Some info \<Rightarrow> map_option (\<lambda>info'. notify E (NewInfo peer) (set_peer peer info' b))
          (info_set_rtt sample info))"

text \<open>\<open>identify::Info\<close>: the fields the source reads.\<close>

record 'ma identify_info =
  id_protocol_version :: string
  id_agent_version :: string
  id_protocols :: "string list"
  id_listen_addrs :: "'ma list"

text \<open>The listen ports of the advertised addresses we are not connected to.\<close>

definition listen_ports :: "'ma env \<Rightarrow> peer_id \<Rightarrow> 'ma peer_info \<Rightarrow> (ip_addr \<times> u16) list" where
  "listen_ports E peer info = List.map_filter (ip_port E)
     (filter (\<lambda>a. into_owned (normalize_addr_ref E a peer) \<notin> set (hm_keys (connections info)))
        (info_listeners info))"

text \<open>
  The candidates for one address of an incoming connection: the advertised ports on the
  same host, else all advertised ports, else the address itself. \<open>replace(..).unwrap()\<close>
  panics when the address has no second protocol.
\<close>

definition translate :: "'ma env \<Rightarrow> (ip_addr \<times> u16) list \<Rightarrow> 'ma \<Rightarrow> 'ma list option" where
  "translate E listen_port addr =
     (case ip_port E addr of
        None \<Rightarrow> Some []
      | Some (ip, _) \<Rightarrow>
          let same_host = filter (\<lambda>(a, _). a = ip) listen_port;
              common_port = remdups (map snd listen_port)
          in if same_host \<noteq> [] then those (map (\<lambda>(_, lp). ma_replace E addr 1 (Tcp lp)) same_host)
             else if common_port \<noteq> [] then those (map (\<lambda>cp. ma_replace E addr 1 (Tcp cp)) common_port)
             else Some [addr])"

fun set_info_loop :: "'ma env \<Rightarrow> peer_id \<Rightarrow> 'ma list \<Rightarrow> 'ma peer_info \<Rightarrow> 'ma address_book \<Rightarrow>
    ('ma peer_info \<times> 'ma address_book) option" where
  "set_info_loop E peer [] info b = Some (info, b)"
| "set_info_loop E peer (addr # rest) info b =
     (let tcp = ma_pop E addr
      in if tcp \<in> set (listeners b) then set_info_loop E peer rest info b
         else do {
           (probe, info) \<leftarrow> ingest_address E (now_of E b) addr Listen info;
           let b = tick b;
           if probe then
             if port_reuse b \<and> addr \<in> set (hm_keys (connections info)) then do {
               (_, info) \<leftarrow> ingest_address E (now_of E b) addr Candidate info;
               set_info_loop E peer rest info (tick b)
             }
             else set_info_loop E peer rest info (push_action (DialAction
                    \<lparr>opts_peer = peer, opts_condition = Some CondAlways, opts_addresses = [tcp]\<rparr>
                    (IntoAddressHandler (Some (addr, 4)) False)) b)
           else set_info_loop E peer rest info b
         })"

definition set_info :: "'ma env \<Rightarrow> peer_id \<Rightarrow> 'ma identify_info \<Rightarrow> 'ma address_book \<Rightarrow> 'ma address_book option" where
  "set_info E peer identify b =
     (case hm_get (peers b) peer of
        None \<Rightarrow> Some b
      | Some info \<Rightarrow>
          let info = info\<lparr>protocol_version := Some (id_protocol_version identify),
                agent_version := Some (id_agent_version identify),
                protocols := id_protocols identify,
                info_listeners := id_listen_addrs identify\<rparr>;
              listen_port = listen_ports E peer info
          in do {
            translated \<leftarrow> those (map (translate E listen_port) (addresses_to_translate info));
            let info = info\<lparr>addresses := filter (\<lambda>(_, s, _). \<not> is_to_translate s) (addresses info)\<rparr>;
            let advertised = map (\<lambda>a. into_owned (normalize_addr_ref E a peer))
              (filter (\<lambda>a. enable_loopback b \<or> \<not> is_loopback E a) (info_listeners info));
            (info, b) \<leftarrow> set_info_loop E peer
              (hash_set_iter E (remdups (concat translated @ advertised))) info b;
            Some (notify E (NewInfo peer) (set_peer peer info b))
          })"

subsection \<open>Connections\<close>

definition connection_closed :: "'ma env \<Rightarrow> peer_id \<Rightarrow> 'ma connected_point \<Rightarrow> u32 \<Rightarrow>
    connection_error option \<Rightarrow> 'ma address_book \<Rightarrow> 'ma address_book" where
  "connection_closed E peer conn num_established error b =
     (let conn = normalize_connected_point E conn (local_peer_id b) peer;
          addr = get_remote_address conn;
          debug = dbg_connection_error E error;
          (reason, peer_closed) = close_reason E error;
          entry = hm_entry default_info (peers b) peer;
          entry = entry\<lparr>connections := hm_remove addr (connections entry)\<rparr>;
          addr_no_peer = without_peer_id E addr;
          failure = (if peer_closed then failure_them (now_of E b) addr_no_peer reason debug
                     else failure_us (now_of E b) addr_no_peer reason debug);
          b = set_peer peer (push_failure addr failure False entry) (tick b);
          b = notify E (ConnectionClosed peer conn) b;
          b = (if num_established = 0 then notify E (Disconnected peer) b else b)
      in notify E (NewInfo peer) b)"

definition inject_connection_established :: "'ma env \<Rightarrow> peer_id \<Rightarrow> 'ma connected_point \<Rightarrow> nat \<Rightarrow>
    'ma address_book \<Rightarrow> 'ma address_book option" where
  "inject_connection_established E peer conn other_established b =
     (let conn = normalize_connected_point E conn (local_peer_id b) peer;
          address = get_remote_address conn;
          src = (if is_dialer conn then Dial else Incoming)
      in do {
        b \<leftarrow> add_address E peer address src b;
        let entry = hm_entry default_info (peers b) peer;
        let b = set_peer peer (entry\<lparr>connections :=
              hm_insert address (now_of E b, direction_from conn) (connections entry)\<rparr>) (tick b);
        let b = (if other_established = 0 then notify E (Connected peer) b else b);
        Some (notify E (ConnectionEstablished peer conn) b)
      })"

definition inject_address_change :: "'ma env \<Rightarrow> peer_id \<Rightarrow> 'ma connected_point \<Rightarrow> 'ma connected_point \<Rightarrow>
    'ma address_book \<Rightarrow> 'ma address_book option" where
  "inject_address_change E peer old new b =
     (let old = normalize_connected_point E old (local_peer_id b) peer;
          new = normalize_connected_point E new (local_peer_id b) peer;
          old_addr = get_remote_address old;
          new_addr = get_remote_address new;
          src = (if is_dialer new then Dial else Incoming)
      in do {
        b \<leftarrow> add_address E peer new_addr src b;
        let entry = hm_entry default_info (peers b) peer;
        let entry = entry\<lparr>connections := hm_remove old_addr (connections entry)\<rparr>;
        let b = set_peer peer (entry\<lparr>connections :=
              hm_insert new_addr (now_of E b, direction_from new) (connections entry)\<rparr>) (tick b);
        Some (notify E (AddressChanged peer old new) b)
      })"

subsection \<open>Dial failures\<close>

text \<open>A redial waits a random part of a second.\<close>

definition redial_delay :: "u32 \<Rightarrow> duration option" where
  "redial_delay r = do {
     d \<leftarrow> dur_mul (from_secs 1) (unat r);
     dur_div d (2 ^ 32 - 1)
   }"

definition push_deferred :: "'ma env \<Rightarrow> 'ma action \<Rightarrow> 'ma address_book \<Rightarrow> 'ma address_book option" where
  "push_deferred E action b = map_option
     (\<lambda>delay. b\<lparr>deferred := deferred b @ [(delay, action)], rand_draws := Suc (rand_draws b)\<rparr>)
     (redial_delay (rand_u32 E (rand_draws b)))"

fun push_all_deferred :: "'ma env \<Rightarrow> 'ma action list \<Rightarrow> 'ma address_book \<Rightarrow> 'ma address_book option" where
  "push_all_deferred E [] b = Some b"
| "push_all_deferred E (a # as) b = push_deferred E a b \<bind> push_all_deferred E as"

definition redial :: "peer_id \<Rightarrow> 'ma \<Rightarrow> u8 \<Rightarrow> bool \<Rightarrow> 'ma action" where
  "redial peer addr retries keep = DialAction
     \<lparr>opts_peer = peer, opts_condition = None, opts_addresses = [addr]\<rparr>
     (IntoAddressHandler (Some (addr, retries)) keep)"

definition dial_error_probes :: "'ma dial_error \<Rightarrow> bool" where
  "dial_error_probes error = (case error of
     Transport _ \<Rightarrow> True | WrongPeerId _ _ \<Rightarrow> True | ConnectionIo _ \<Rightarrow> True | _ \<Rightarrow> False)"

definition is_wrong_peer :: "'ma dial_error \<Rightarrow> bool" where
  "is_wrong_peer error = (case error of WrongPeerId _ _ \<Rightarrow> True | _ \<Rightarrow> False)"

definition sim_open_failure :: "'ma dial_error \<Rightarrow> bool" where
  "sim_open_failure error =
     (case error of Transport v \<Rightarrow> list_ex (\<lambda>(_, e). is_sim_open e) v | _ \<Rightarrow> False)"

text \<open>The failure of a dial that was started for one address.\<close>

definition validation_dial_failure :: "'ma env \<Rightarrow> peer_id \<Rightarrow> 'ma \<Rightarrow> u8 \<Rightarrow> bool \<Rightarrow> 'ma dial_error \<Rightarrow>
    'ma peer_info \<Rightarrow> 'ma address_book \<Rightarrow> 'ma address_book option" where
  "validation_dial_failure E peer addr retries keep error info b =
     (let failure = failure_dial E (now_of E b) (without_peer_id E addr) error;
          info = push_failure addr failure (dial_error_probes error) info;
          info = (if is_wrong_peer error
                  then info\<lparr>addresses := hm_remove addr (addresses info)\<rparr> else info);
          b = set_peer peer info (tick b)
      in do {
        b \<leftarrow> (if sim_open_failure error \<and> retries > 0
             then push_deferred E (redial peer addr (retries - 1) keep) b else Some b);
        Some (notify E (NewInfo peer) (notify E (DialFailure peer addr (fmt_dial_error E error)) b))
      })"

text \<open>The per-address errors of a dial that was started for a peer.\<close>

fun transport_failures :: "'ma env \<Rightarrow> peer_id \<Rightarrow> bool \<Rightarrow> ('ma \<times> 'ma transport_error) list \<Rightarrow>
    'ma peer_info \<Rightarrow> 'ma address_book \<Rightarrow>
    'ma peer_info \<times> 'ma address_book \<times> 'ma event list \<times> 'ma action list" where
  "transport_failures E peer keep [] info b = (info, b, [], [])"
| "transport_failures E peer keep ((addr, error) # v) info b =
     (let failure = failure_transport E (now_of E b) (without_peer_id E addr) error;
          info = push_failure (into_owned (normalize_addr_ref E addr peer)) failure True info;
          (info, b, events, redials) = transport_failures E peer keep v info (tick b)
      in (info, b, DialFailure peer addr (dbg_transport_error E error) # events,
          if is_sim_open error then redial peer addr SIM_OPEN_RETRIES keep # redials else redials))"

definition peer_dial_failure :: "'ma env \<Rightarrow> peer_id \<Rightarrow> ('ma \<times> 'ma transport_error) list \<Rightarrow>
    'ma peer_info \<Rightarrow> 'ma address_book \<Rightarrow> 'ma address_book option" where
  "peer_dial_failure E peer v info b =
     (let (info, b, events, redials) = transport_failures E peer (keep_alive b) v info b;
          b = fold (notify E) events (set_peer peer info b);
          b = (if redials = [] then notify E (Unreachable peer) b else b)
      in do {
        b \<leftarrow> push_all_deferred E redials b;
        Some (notify E (NewInfo peer) b)
      })"

definition inject_dial_failure :: "'ma env \<Rightarrow> peer_id option \<Rightarrow> 'ma into_address_handler \<Rightarrow>
    'ma dial_error \<Rightarrow> 'ma address_book \<Rightarrow> 'ma address_book option" where
  "inject_dial_failure E peer_opt handler error b =
     (case (case handler_peer_id E handler of Some p \<Rightarrow> Some p | None \<Rightarrow> peer_opt) of
        None \<Rightarrow> Some b
      | Some peer \<Rightarrow>
          (case hm_get (peers b) peer of
             None \<Rightarrow> Some b
           | Some info \<Rightarrow>
               (case handler of
                  IntoAddressHandler (Some (addr, retries)) keep \<Rightarrow>
                    validation_dial_failure E peer addr retries keep error info b
                | IntoAddressHandler None _ \<Rightarrow>
                    (case error of
                       Transport v \<Rightarrow> peer_dial_failure E peer v info b
                     | DialPeerConditionFalse _ \<Rightarrow> Some b
                     | Banned \<Rightarrow> Some b
                     | LocalPeerId \<Rightarrow> Some b
                     | _ \<Rightarrow> Some (notify E (Unreachable peer) b)))))"

subsection \<open>Listeners and external addresses\<close>

definition inject_new_listener :: "'ma env \<Rightarrow> listener_id \<Rightarrow> 'ma address_book \<Rightarrow> 'ma address_book" where
  "inject_new_listener E i b =
     notify E (NewListener i) (b\<lparr>gauge_listeners := gauge_listeners b + 1\<rparr>)"

definition inject_new_listen_addr :: "'ma env \<Rightarrow> listener_id \<Rightarrow> 'ma \<Rightarrow> 'ma address_book \<Rightarrow> 'ma address_book" where
  "inject_new_listen_addr E i addr b = notify E (NewListenAddr i addr)
     (if addr \<notin> set (listeners b)
      then b\<lparr>listeners := listeners b @ [addr], gauge_listen_addrs := gauge_listen_addrs b + 1\<rparr>
      else b)"

definition inject_expired_listen_addr :: "'ma env \<Rightarrow> listener_id \<Rightarrow> 'ma \<Rightarrow> 'ma address_book \<Rightarrow> 'ma address_book" where
  "inject_expired_listen_addr E i addr b = notify E (ExpiredListenAddr i addr)
     (if addr \<in> set (listeners b)
      then b\<lparr>listeners := removeAll addr (listeners b), gauge_listen_addrs := gauge_listen_addrs b - 1\<rparr>
      else b)"

definition inject_listener_error :: "'ma env \<Rightarrow> listener_id \<Rightarrow> string \<Rightarrow> 'ma address_book \<Rightarrow> 'ma address_book" where
  "inject_listener_error E i err b = notify E (ListenerError i err)
     (b\<lparr>counter_listener_error := Suc (counter_listener_error b)\<rparr>)"

definition inject_listener_closed :: "'ma env \<Rightarrow> listener_id \<Rightarrow> 'ma address_book \<Rightarrow> 'ma address_book" where
  "inject_listener_closed E i b =
     notify E (ListenerClosed i) (b\<lparr>gauge_listeners := gauge_listeners b - 1\<rparr>)"

definition inject_new_external_addr :: "'ma env \<Rightarrow> 'ma \<Rightarrow> 'ma address_book \<Rightarrow> 'ma address_book" where
  "inject_new_external_addr E addr b =
     notify E (NewExternalAddr (normalize_addr E addr (local_peer_id b)))
       (b\<lparr>refresh_external := True, gauge_external_addrs := gauge_external_addrs b + 1\<rparr>)"

definition inject_expired_external_addr :: "'ma env \<Rightarrow> 'ma \<Rightarrow> 'ma address_book \<Rightarrow> 'ma address_book" where
  "inject_expired_external_addr E addr b =
     notify E (ExpiredExternalAddr (normalize_addr E addr (local_peer_id b)))
       (b\<lparr>refresh_external := True, gauge_external_addrs := gauge_external_addrs b - 1\<rparr>)"

subsection \<open>Polling\<close>

text \<open>
  \<open>poll\<close>: \<open>ext\<close> is what \<open>params.external_addresses()\<close> returns; \<open>ready\<close> says which of the
  deferred dials the executor reports as due, if any.
\<close>

definition book_poll :: "'ma address_record list \<Rightarrow> nat option \<Rightarrow> 'ma address_book \<Rightarrow>
    'ma action poll \<times> 'ma address_book" where
  "book_poll ext ready b =
     (let b = (if refresh_external b then b\<lparr>refresh_external := False, external := ext\<rparr> else b)
      in case actions b of
           action # rest \<Rightarrow> (Ready action, b\<lparr>actions := rest\<rparr>)
         | [] \<Rightarrow>
             if deferred b \<noteq> [] then
               (case ready of
                  Some i \<Rightarrow>
                    if i < length (deferred b)
                    then (Ready (snd (deferred b ! i)),
                          b\<lparr>deferred := take i (deferred b) @ drop (Suc i) (deferred b)\<rparr>)
                    else (Pending, b)
                | None \<Rightarrow> (Pending, b))
             else (Pending, b))"

end
