(* ===== verification/BookInvariant.thy ===== *)
theory BookInvariant
  imports AddressBook
begin

text \<open>
  The invariant of the address book and the proof that no sequence of calls and callbacks
  breaks it or panics: no overflow, no failed assertion on an untagged address, no failed
  \<open>unwrap\<close> when an address is translated.
\<close>

subsection \<open>All operations as one step\<close>

datatype 'ma book_op =
    OpSwarmEvents sender
  | OpNotify "'ma event"
  | OpDial peer_id
  | OpDialAddress peer_id 'ma
  | OpAddAddress peer_id 'ma address_source
  | OpRemoveAddress peer_id 'ma
  | OpPrunePeers duration
  | OpSetRtt peer_id "duration option"
  | OpSetInfo peer_id "'ma identify_info"
  | OpConnectionClosed peer_id "'ma connected_point" u32 "connection_error option"
  | OpConnectionEstablished peer_id "'ma connected_point" nat
  | OpAddressChange peer_id "'ma connected_point" "'ma connected_point"
  | OpDialFailure "peer_id option" "'ma into_address_handler" "'ma dial_error"
  | OpNewListener listener_id
  | OpNewListenAddr listener_id 'ma
  | OpExpiredListenAddr listener_id 'ma
  | OpListenerError listener_id string
  | OpListenerClosed listener_id
  | OpNewExternalAddr 'ma
  | OpExpiredExternalAddr 'ma
  | OpPoll "'ma address_record list" "nat option"

fun book_step :: "'ma env \<Rightarrow> 'ma book_op \<Rightarrow> 'ma address_book \<Rightarrow> 'ma address_book option" where
  "book_step E (OpSwarmEvents tx) b = Some (swarm_events tx b)"
| "book_step E (OpNotify ev) b = Some (notify E ev b)"
| "book_step E (OpDial p) b = Some (dial p b)"
| "book_step E (OpDialAddress p a) b = Some (dial_address E p a b)"
| "book_step E (OpAddAddress p a s) b = add_address E p a s b"
| "book_step E (OpRemoveAddress p a) b = Some (remove_address E p a b)"
| "book_step E (OpPrunePeers d) b = Some (prune_peers E d b)"
| "book_step E (OpSetRtt p s) b = set_rtt E p s b"
| "book_step E (OpSetInfo p i) b = set_info E p i b"
| "book_step E (OpConnectionClosed p c n e) b = Some (connection_closed E p c n e b)"
| "book_step E (OpConnectionEstablished p c n) b = inject_connection_established E p c n b"
| "book_step E (OpAddressChange p old new) b = inject_address_change E p old new b"
| "book_step E (OpDialFailure p h e) b = inject_dial_failure E p h e b"
| "book_step E (OpNewListener i) b = Some (inject_new_listener E i b)"
| "book_step E (OpNewListenAddr i a) b = Some (inject_new_listen_addr E i a b)"
| "book_step E (OpExpiredListenAddr i a) b = Some (inject_expired_listen_addr E i a b)"
| "book_step E (OpListenerError i e) b = Some (inject_listener_error E i e b)"
| "book_step E (OpListenerClosed i) b = Some (inject_listener_closed E i b)"
| "book_step E (OpNewExternalAddr a) b = Some (inject_new_external_addr E a b)"
| "book_step E (OpExpiredExternalAddr a) b = Some (inject_expired_external_addr E a b)"
| "book_step E (OpPoll ext ready) b = Some (snd (book_poll ext ready b))"

definition book_run :: "'ma env \<Rightarrow> 'ma book_op list \<Rightarrow> 'ma address_book \<Rightarrow> 'ma address_book option" where
  "book_run E = run_steps (book_step E)"

text \<open>The only demand on an operation: a measured time leaves room for the averages.\<close>

fun op_ok :: "'ma book_op \<Rightarrow> bool" where
  "op_ok (OpSetRtt p (Some d)) = dur_ok d"
| "op_ok _ = True"

subsection \<open>The invariant\<close>

text \<open>
  Every peer record is well formed; the failure counter of the round-trip statistics is at
  most the number \<open>n\<close> of steps so far; the listen addresses are distinct and the gauge
  counts them.
\<close>

definition rtt_count :: "'ma peer_info \<Rightarrow> nat" where
  "rtt_count info = (case info_rtt info of None \<Rightarrow> 0 | Some r \<Rightarrow> unat (rtt_failures r))"

definition info_inv :: "'ma env \<Rightarrow> nat \<Rightarrow> 'ma peer_info \<Rightarrow> bool" where
  "info_inv E n info \<longleftrightarrow> info_ok E info \<and> rtt_count info \<le> n"

definition book_inv :: "'ma env \<Rightarrow> nat \<Rightarrow> 'ma address_book \<Rightarrow> bool" where
  "book_inv E n b \<longleftrightarrow> hm_ok (peers b) \<and> list_all (\<lambda>(_, info). info_inv E n info) (peers b) \<and>
     distinct (listeners b) \<and> gauge_listen_addrs b = int (length (listeners b))"

lemma notify_frame [simp]:
  "peers (notify E ev b) = peers b" "listeners (notify E ev b) = listeners b"
  "gauge_listen_addrs (notify E ev b) = gauge_listen_addrs b"
  "actions (notify E ev b) = actions b" "deferred (notify E ev b) = deferred b"
  "local_peer_id (notify E ev b) = local_peer_id b" "keep_alive (notify E ev b) = keep_alive b"
  "enable_loopback (notify E ev b) = enable_loopback b" "port_reuse (notify E ev b) = port_reuse b"
  "clock_reads (notify E ev b) = clock_reads b" "rand_draws (notify E ev b) = rand_draws b"
  by (simp_all add: notify_def Let_def split: prod.splits)

lemma tick_frame [simp]:
  "peers (tick b) = peers b" "listeners (tick b) = listeners b"
  "gauge_listen_addrs (tick b) = gauge_listen_addrs b" "actions (tick b) = actions b"
  "deferred (tick b) = deferred b" "local_peer_id (tick b) = local_peer_id b"
  "port_reuse (tick b) = port_reuse b" "enable_loopback (tick b) = enable_loopback b"
  "keep_alive (tick b) = keep_alive b" "event_stream (tick b) = event_stream b" "sent (tick b) = sent b"
  by (simp_all add: tick_def)

lemma push_action_frame [simp]:
  "peers (push_action a b) = peers b" "listeners (push_action a b) = listeners b"
  "gauge_listen_addrs (push_action a b) = gauge_listen_addrs b"
  "actions (push_action a b) = actions b @ [a]"
  "deferred (push_action a b) = deferred b" "local_peer_id (push_action a b) = local_peer_id b"
  "port_reuse (push_action a b) = port_reuse b" "enable_loopback (push_action a b) = enable_loopback b"
  "keep_alive (push_action a b) = keep_alive b"
  by (simp_all add: push_action_def)

lemma set_peer_frame [simp]:
  "peers (set_peer p info b) = hm_insert p info (peers b)"
  "listeners (set_peer p info b) = listeners b"
  "gauge_listen_addrs (set_peer p info b) = gauge_listen_addrs b"
  "actions (set_peer p info b) = actions b" "deferred (set_peer p info b) = deferred b"
  "local_peer_id (set_peer p info b) = local_peer_id b" "port_reuse (set_peer p info b) = port_reuse b"
  "enable_loopback (set_peer p info b) = enable_loopback b"
  "keep_alive (set_peer p info b) = keep_alive b"
  by (simp_all add: set_peer_def)

text \<open>The invariant reads three fields only.\<close>

lemma book_inv_cong:
  "peers b' = peers b \<Longrightarrow> listeners b' = listeners b \<Longrightarrow> gauge_listen_addrs b' = gauge_listen_addrs b \<Longrightarrow>
     book_inv E n b' = book_inv E n b"
  by (simp add: book_inv_def)

lemma book_inv_frames [simp]:
  "book_inv E n (notify E' ev b) = book_inv E n b" "book_inv E n (tick b) = book_inv E n b"
  "book_inv E n (push_action a b) = book_inv E n b"
  "book_inv E n (swarm_events tx b) = book_inv E n b"
  by (rule book_inv_cong; simp add: swarm_events_def)+

lemma list_all_update:
  "list_all (\<lambda>(_, v). P v) m \<Longrightarrow> P v \<Longrightarrow> list_all (\<lambda>(_, v). P v) (hm_insert k v m)"
  by (induction m) auto

lemma set_peer_inv [intro]: "book_inv E n b \<Longrightarrow> info_inv E n info \<Longrightarrow> book_inv E n (set_peer p info b)"
  by (simp add: book_inv_def list_all_update)

lemma get_peer_inv: "book_inv E n b \<Longrightarrow> hm_get (peers b) p = Some info \<Longrightarrow> info_inv E n info"
  by (auto simp: book_inv_def list_all_iff dest: map_of_SomeD)

lemma default_info_inv [simp]: "info_inv E n default_info"
  by (simp add: info_inv_def rtt_count_def default_info_def info_ok_def)

lemma entry_inv: "book_inv E n b \<Longrightarrow> info_inv E n (hm_entry default_info (peers b) p)"
  by (cases "hm_get (peers b) p") (auto intro: get_peer_inv)

lemma push_failure_inv [intro]: "info_inv E n info \<Longrightarrow> info_inv E n (push_failure a f pr info)"
  by (auto simp: info_inv_def rtt_count_def)

lemma remove_connection_inv [intro]:
  "info_inv E n info \<Longrightarrow> info_inv E n (info\<lparr>connections := hm_remove a (connections info)\<rparr>)"
  by (auto simp: info_inv_def rtt_count_def info_ok_def)

lemma insert_connection_inv [intro]:
  "info_inv E n info \<Longrightarrow> ends_with_p2p E a \<Longrightarrow>
     info_inv E n (info\<lparr>connections := hm_insert a v (connections info)\<rparr>)"
  by (auto simp: info_inv_def rtt_count_def info_ok_def)

lemma remove_info_address_inv [intro]:
  "info_inv E n info \<Longrightarrow> info_inv E n (info\<lparr>addresses := hm_remove a (addresses info)\<rparr>)"
  by (auto simp: info_inv_def rtt_count_def info_ok_def)

lemma ingest_inv:
  assumes "info_inv E n info" "ends_with_p2p E a"
  shows "returns (\<lambda>(probe, info'). info_inv E n info' \<and> connections info' = connections info)
    (ingest_address E now a s info)"
proof -
  obtain probe info' where i: "ingest_address E now a s info = Some (probe, info')" "info_ok E info'"
    using assms by (auto simp: info_inv_def intro: ingest_address_panic_free [of E info a])
  with assms show ?thesis
    using ingest_address_other [OF i(1)] by (simp add: info_inv_def rtt_count_def)
qed

subsection \<open>Every operation keeps the invariant\<close>

lemma add_address_cases:
  "add_address E p a s b =
    (if p = local_peer_id b \<or> \<not> enable_loopback b \<and> is_loopback E a \<or>
        without_peer_id E a \<in> set (listeners b) then Some b
     else do {
       (probe, info) \<leftarrow> ingest_address E (now_of E b) (normalize_addr E a p) s
         (hm_entry default_info (peers b) p);
       let b1 = set_peer p info (tick b);
       let b2 = (if probe \<and> normalize_addr E a p \<notin> set (hm_keys (connections info))
          then push_action (DialAction
            \<lparr>opts_peer = p, opts_condition = Some CondAlways, opts_addresses = [without_peer_id E a]\<rparr>
            (IntoAddressHandler (Some (normalize_addr E a p, SIM_OPEN_RETRIES + 1)) False)) b1
          else b1);
       let b3 = (if addresses_of_peer p b = [] \<and> is_confirmed s then notify E (Discovered p) b2 else b2);
       Some (notify E (NewInfo p) b3)
     })"
  unfolding add_address_def normalize_addr_ref_def normalize_addr_def without_peer_id_def
    addresses_of_peer_def
  by (auto simp: Let_def split: option.splits intro!: arg_cong [where f = "Option.bind _"])

lemma add_address_inv:
  assumes "multiaddr_laws E" "book_inv E n b"
  shows "returns (book_inv E n) (add_address E p a s b)"
proof -
  have *: "book_inv E n (set_peer p info (tick b))" if "info_inv E n info" for info
    using that assms(2) by (intro set_peer_inv) simp_all
  show ?thesis
    unfolding add_address_cases
    using assms(2)
    by (auto simp: Let_def * split: prod.splits intro!: returns_mono [OF ingest_inv
        [OF entry_inv [OF assms(2)] normalize_ends_with_p2p [OF assms(1)]]])
qed

lemma dial_inv: "book_inv E n b \<Longrightarrow> book_inv E n (dial p b)"
  by (simp add: dial_def)

lemma dial_address_inv: "book_inv E n b \<Longrightarrow> book_inv E n (dial_address E p a b)"
  by (auto simp: dial_address_def Let_def intro: entry_inv)

lemma remove_address_inv: "book_inv E n b \<Longrightarrow> book_inv E n (remove_address E p a b)"
  by (auto simp: remove_address_def intro: get_peer_inv split: option.splits)

lemma remove_peer_inv: "book_inv E n b \<Longrightarrow> book_inv E n (b\<lparr>peers := hm_remove p (peers b)\<rparr>)"
  by (auto simp: book_inv_def list_all_iff AList.delete_eq)

lemma remove_peers_inv: "book_inv E n b \<Longrightarrow> book_inv E n (remove_peers E' ps b)"
proof (induction ps arbitrary: b)
  case (Cons p ps)
  show ?case
    using Cons.IH [of "notify E' (NewInfo p) (b\<lparr>peers := hm_remove p (peers b)\<rparr>)"] Cons.prems
    by (simp add: remove_peer_inv)
qed simp

lemma prune_peers_inv: "book_inv E n b \<Longrightarrow> book_inv E n (prune_peers E' d b)"
  by (auto simp: prune_peers_def Let_def intro: remove_peers_inv)

lemma info_set_rtt_inv:
  assumes "info_inv E n info" "\<And>d. sample = Some d \<Longrightarrow> dur_ok d" "n + 1 < 2 ^ 32"
  shows "returns (info_inv E (Suc n)) (info_set_rtt sample info)"
proof (cases "info_rtt info")
  case None
  with assms show ?thesis
    by (cases sample) (auto simp: info_set_rtt_def info_inv_def info_ok_def rtt_count_def rtt_new_def
        intro: rtt_ok_new [unfolded rtt_new_def])
next
  case (Some r)
  with assms(1) have r: "rtt_ok r" "unat (rtt_failures r) \<le> n"
    by (auto simp: info_inv_def info_ok_def rtt_count_def)
  with assms(3) have "unat (rtt_failures r) + 1 < 2 ^ 32" by simp
  then obtain r' where r': "rtt_sample sample r = Some r'" "rtt_ok r'"
    "unat (rtt_failures r') \<le> unat (rtt_failures r) + 1"
    using rtt_sample_ok [OF r(1) assms(2)] by blast
  with Some have "info_set_rtt sample info = Some (info\<lparr>info_rtt := Some r'\<rparr>)"
    by (auto simp: info_set_rtt_def rtt_sample_def split: option.splits)
  with r r' assms(1) show ?thesis
    by (auto simp: info_inv_def info_ok_def rtt_count_def)
qed

lemma info_inv_mono: "info_inv E n info \<Longrightarrow> n \<le> m \<Longrightarrow> info_inv E m info"
  by (auto simp: info_inv_def)

lemma book_inv_mono: "book_inv E n b \<Longrightarrow> n \<le> m \<Longrightarrow> book_inv E m b"
  by (auto simp: book_inv_def list_all_iff intro: info_inv_mono)

lemma set_rtt_inv:
  assumes "book_inv E n b" "\<And>d. sample = Some d \<Longrightarrow> dur_ok d" "n + 1 < 2 ^ 32"
  shows "returns (book_inv E (Suc n)) (set_rtt E p sample b)"
proof -
  have b: "book_inv E (Suc n) b"
    using assms(1) by (rule book_inv_mono) simp
  show ?thesis
    using b assms
    by (auto simp: set_rtt_def set_peer_inv split: option.splits
        intro!: returns_mono [OF info_set_rtt_inv [OF get_peer_inv [OF assms(1)]]])
qed

subsection \<open>Identify\<close>

lemma ip_port_iter: "ip_port M a = Some (ip, p) \<Longrightarrow> \<exists>i rest. ma_iter M a = i # Tcp p # rest"
  by (auto simp: ip_port_def split: list.splits protocol.splits)

lemma replace_port:
  assumes "multiaddr_laws M" "ip_port M a = Some x" "ends_with_p2p M a"
  shows "returns (\<lambda>b. ends_with_p2p M b) (ma_replace M a 1 (Tcp p))"
proof -
  obtain i q rest where it: "ma_iter M a = i # Tcp q # rest"
    using ip_port_iter assms(2) by (metis surj_pair)
  then obtain b where "ma_replace M a 1 (Tcp p) = Some b" "ma_iter M b = i # Tcp p # rest"
    using laws_replace [OF assms(1), of 1 a "Tcp p"] by auto
  with it assms(3) show ?thesis
    by (auto simp: ends_with_p2p_iter split: if_splits)
qed

lemma those_returns:
  "(\<And>x. x \<in> set xs \<Longrightarrow> returns P (f x)) \<Longrightarrow> returns (list_all P) (those (map f xs))"
proof (induction xs)
  case (Cons x xs)
  then have "returns P (f x)" "returns (list_all P) (those (map f xs))" by simp_all
  then show ?case by (auto simp: returns_iff)
qed simp

lemma translate_p2p:
  assumes "multiaddr_laws E" "ends_with_p2p E a"
  shows "returns (list_all (ends_with_p2p E)) (translate E ports a)"
proof (cases "ip_port E a")
  case None
  then show ?thesis by (simp add: translate_def)
next
  case (Some x)
  have *: "returns (list_all (ends_with_p2p E)) (those (map (\<lambda>y. ma_replace E a 1 (Tcp (f y))) ys))" for f ys
    using replace_port [OF assms(1) Some assms(2)] by (rule those_returns)
  show ?thesis
    using * [of snd] * [of id] Some assms(2) by (auto simp: translate_def Let_def case_prod_unfold split: prod.splits)
qed

lemma set_info_loop_inv:
  assumes "list_all (ends_with_p2p E) as" "info_inv E n info" "book_inv E n b"
  shows "returns (\<lambda>(info', b'). info_inv E n info' \<and> book_inv E n b') (set_info_loop E p as info b)"
  using assms
proof (induction as arbitrary: info b)
  case Nil
  then show ?case by simp
next
  case (Cons a as)
  then have IH: "returns (\<lambda>(info', b'). info_inv E n info' \<and> book_inv E n b') (set_info_loop E p as i b')"
    if "info_inv E n i" "book_inv E n b'" for i b'
    using that by simp
  have ing: "returns (\<lambda>(probe, i'). info_inv E n i' \<and> connections i' = connections i) (ingest_address E now a s i)"
    if "info_inv E n i" for now s i
    using that Cons.prems(1) by (auto intro: ingest_inv)
  show ?case
    using ing [OF Cons.prems(2)] Cons.prems(3)
    by (auto simp: Let_def IH Cons.prems(2) split: prod.splits elim!: returns_mono
        intro!: returns_mono [OF ing])
qed

lemma hash_set_iter_set [simp]:
  "hash_set_laws E \<Longrightarrow> set (hash_set_iter E (remdups xs)) = set xs"
  by (simp add: hash_set_laws_def)

lemma untranslated_inv:
  "info_inv E n info \<Longrightarrow>
     info_inv E n (info\<lparr>addresses := filter (\<lambda>(_, s, _). \<not> is_to_translate s) (addresses info)\<rparr>)"
  by (auto simp: info_inv_def rtt_count_def info_ok_def intro: distinct_map_filter)

lemma identified_inv:
  "info_inv E n info \<Longrightarrow> info_inv E n (info\<lparr>protocol_version := v, agent_version := a,
     protocols := ps, info_listeners := ls\<rparr>)"
  by (simp add: info_inv_def rtt_count_def info_ok_def)

lemma to_translate_p2p: "info_inv E n info \<Longrightarrow> a \<in> set (addresses_to_translate info) \<Longrightarrow> ends_with_p2p E a"
  using keys_p2p_get [of E "addresses info" a]
  by (force simp: info_inv_def info_ok_def addresses_to_translate_def select_addresses_def)

lemma set_info_inv:
  assumes "multiaddr_laws E" "hash_set_laws E" "book_inv E n b"
  shows "returns (book_inv E n) (set_info E p identify b)"
proof (cases "hm_get (peers b) p")
  case None
  with assms show ?thesis by (simp add: set_info_def)
next
  case (Some info0)
  define info where "info = info0\<lparr>protocol_version := Some (id_protocol_version identify),
    agent_version := Some (id_agent_version identify), protocols := id_protocols identify,
    info_listeners := id_listen_addrs identify\<rparr>"
  have info: "info_inv E n info"
    using get_peer_inv [OF assms(3) Some] by (simp add: info_def identified_inv)
  have tr: "returns (list_all (list_all (ends_with_p2p E)))
      (those (map (translate E ports) (addresses_to_translate info)))" for ports
    by (intro those_returns translate_p2p assms to_translate_p2p [OF info])
  have loop: "returns (\<lambda>(info', b'). info_inv E n info' \<and> book_inv E n b') (set_info_loop E p
      (hash_set_iter E (remdups (concat ts @ map (\<lambda>a. normalize_addr E a p) as)))
      (info\<lparr>addresses := filter (\<lambda>(_, s, _). \<not> is_to_translate s) (addresses info)\<rparr>) b)"
    if "list_all (list_all (ends_with_p2p E)) ts" for ts as
    using that assms info
    by (intro set_info_loop_inv untranslated_inv) (auto simp: list_all_iff normalize_ends_with_p2p)
  show ?thesis
    unfolding set_info_def Some option.case Let_def
    unfolding info_def [symmetric]
    by (auto intro!: set_peer_inv returns_mono [OF tr] returns_mono [OF loop])
qed

subsection \<open>Connections\<close>

lemma connected_point_p2p:
  "multiaddr_laws M \<Longrightarrow> ends_with_p2p M (get_remote_address (normalize_connected_point M conn l r))"
  by (cases conn) (simp_all add: normalize_ends_with_p2p)

lemma connection_closed_inv:
  "book_inv E n b \<Longrightarrow> book_inv E n (connection_closed E p conn k error b)"
  by (auto simp: connection_closed_def Let_def entry_inv split: prod.splits
      intro!: set_peer_inv push_failure_inv remove_connection_inv)

lemma inject_connection_established_inv:
  assumes "multiaddr_laws E" "book_inv E n b"
  shows "returns (book_inv E n) (inject_connection_established E p conn k b)"
  unfolding inject_connection_established_def Let_def
  by (auto intro!: returns_mono [OF add_address_inv [OF assms]] set_peer_inv insert_connection_inv
      simp: entry_inv connected_point_p2p [OF assms(1)] normalize_ends_with_p2p [OF assms(1)])

lemma inject_address_change_inv:
  assumes "multiaddr_laws E" "book_inv E n b"
  shows "returns (book_inv E n) (inject_address_change E p old new b)"
  unfolding inject_address_change_def Let_def
  using insert_connection_inv [OF remove_connection_inv [OF entry_inv] connected_point_p2p [OF assms(1)]]
  by (auto intro!: returns_mono [OF add_address_inv [OF assms]] set_peer_inv)

subsection \<open>Dial failures\<close>

lemma redial_delay_total: "returns (\<lambda>d. d \<le> from_secs 1) (redial_delay r)"
proof -
  have r: "unat r \<le> 2 ^ 32 - 1"
    using unsigned_less [of r, where 'a = nat] by simp
  then have "from_secs 1 * unat r \<le> DURATION_MAX"
    by (simp add: from_secs_def DURATION_MAX_def)
  moreover have "from_secs 1 * unat r div (2 ^ 32 - 1) \<le> from_secs 1"
    using div_le_mono [OF mult_le_mono2 [OF r], of "from_secs 1" "2 ^ 32 - 1"] by simp
  ultimately show ?thesis
    by (simp add: redial_delay_def dur_mul_def dur_div_def)
qed

lemma push_deferred_inv: "book_inv E n b \<Longrightarrow> returns (book_inv E n) (push_deferred E a b)"
  by (auto simp: push_deferred_def book_inv_def intro!: returns_mono [OF redial_delay_total])

lemma push_all_deferred_inv: "book_inv E n b \<Longrightarrow> returns (book_inv E n) (push_all_deferred E as b)"
  by (induction as arbitrary: b) (auto intro!: returns_mono [OF push_deferred_inv])

lemma validation_dial_failure_inv:
  assumes "info_inv E n info" "book_inv E n b"
  shows "returns (book_inv E n) (validation_dial_failure E p a r k e info b)"
  using assms unfolding validation_dial_failure_def Let_def
  by (auto intro!: returns_mono [OF push_deferred_inv] set_peer_inv remove_info_address_inv)

lemma transport_failures_inv:
  "info_inv E n info \<Longrightarrow> book_inv E n b \<Longrightarrow> transport_failures E p k v info b = (info', b', evs, rs) \<Longrightarrow>
     info_inv E n info' \<and> book_inv E n b'"
  by (induction E p k v info b arbitrary: info' b' evs rs rule: transport_failures.induct)
     (auto simp: Let_def push_failure_inv split: prod.splits if_splits)

lemma fold_notify_inv [simp]: "book_inv E n (fold (notify E') evs b) = book_inv E n b"
  by (induction evs arbitrary: b) simp_all

lemma peer_dial_failure_inv:
  assumes "info_inv E n info" "book_inv E n b"
  shows "returns (book_inv E n) (peer_dial_failure E p v info b)"
  using transport_failures_inv [OF assms] unfolding peer_dial_failure_def Let_def
  by (auto intro!: returns_mono [OF push_all_deferred_inv] set_peer_inv split: prod.splits)

lemma inject_dial_failure_inv:
  assumes "book_inv E n b"
  shows "returns (book_inv E n) (inject_dial_failure E po h e b)"
  using assms get_peer_inv [OF assms] unfolding inject_dial_failure_def
  by (auto split: option.split into_address_handler.split dial_error.split
      intro!: validation_dial_failure_inv peer_dial_failure_inv)

subsection \<open>The invariant holds on every run\<close>

lemma listener_ops_inv:
  assumes "book_inv E n b"
  shows "book_inv E n (inject_new_listener E i b)" "book_inv E n (inject_new_listen_addr E i a b)"
    "book_inv E n (inject_expired_listen_addr E i a b)" "book_inv E n (inject_listener_error E i err b)"
    "book_inv E n (inject_listener_closed E i b)" "book_inv E n (inject_new_external_addr E a b)"
    "book_inv E n (inject_expired_external_addr E a b)" "book_inv E n (snd (book_poll ext ready b))"
  using assms
  by (auto simp: book_inv_def inject_new_listener_def inject_new_listen_addr_def
      inject_expired_listen_addr_def inject_listener_error_def inject_listener_closed_def
      inject_new_external_addr_def inject_expired_external_addr_def book_poll_def Let_def
      distinct_remove1_removeAll [symmetric] length_remove1 int_ops(6) Suc_le_eq length_pos_if_in_set
      split: list.splits option.splits)

lemma book_step_inv:
  assumes "multiaddr_laws E" "hash_set_laws E" "book_inv E n b" "op_ok op" "n + 1 < 2 ^ 32"
  shows "returns (book_inv E (Suc n)) (book_step E op b)"
proof -
  have b: "book_inv E (Suc n) b"
    using assms(3) by (rule book_inv_mono) simp
  show ?thesis
  proof (cases op)
    case (OpSetRtt p s)
    then show ?thesis
      using assms by (cases s) (auto intro!: set_rtt_inv)
  qed (use assms(1,2) b in \<open>auto intro!: dial_inv dial_address_inv add_address_inv remove_address_inv
      prune_peers_inv set_info_inv connection_closed_inv inject_connection_established_inv
      inject_address_change_inv inject_dial_failure_inv listener_ops_inv\<close>)
qed

interpretation bk: bounded_steps "book_step E"
  "\<lambda>n b. multiaddr_laws E \<and> hash_set_laws E \<and> book_inv E n b" op_ok "2 ^ 32" for E :: "'ma env"
proof
  fix n and b :: "'ma address_book" and op :: "'ma book_op"
  assume "multiaddr_laws E \<and> hash_set_laws E \<and> book_inv E n b" "op_ok op" "n + 1 < 2 ^ 32"
  then show "returns (\<lambda>b. multiaddr_laws E \<and> hash_set_laws E \<and> book_inv E (Suc n) b) (book_step E op b)"
    using book_step_inv [of E n b op] by (auto elim!: returns_mono)
qed

lemma book_new_inv [simp]: "book_inv E n (book_new p r l k)"
  by (simp add: book_inv_def book_new_def)

end
