(* ===== verification/BookProperties.thy ===== *)
theory BookProperties
  imports BookInvariant
begin

text \<open>
  What the address book promises its callers: it never panics, subscribers receive every
  event in order, pruning removes exactly the stale peers, an identified peer has its
  addresses translated and validated, a dial failure forgets what it should, the node does
  not dial its own listeners, and a chain of redials ends.
\<close>

subsection \<open>A concrete environment\<close>

text \<open>
  Addresses are lists of protocols, errors print as constants, the clock advances by one
  second per reading, every send succeeds.
\<close>

definition sample_env :: "protocol list env" where
  "sample_env = \<lparr>ma_iter = id, ma_push = (\<lambda>a p. a @ [p]), ma_pop = butlast,
     ma_replace = list_replace, peer_into_multihash = id, multihash_try_into_peer = Some,
     fmt_multiaddr = (\<lambda>_. ''addr''), fmt_io_error = (\<lambda>_. ''io''),
     fmt_transport_error = (\<lambda>_. ''transport''), dbg_transport_error = (\<lambda>_. ''Transport''),
     source_transport_error = (\<lambda>_. None), fmt_dial_error = (\<lambda>_. ''dial''),
     dbg_dial_error = (\<lambda>_. ''Dial''), dbg_connection_error = (\<lambda>_. ''Connection''),
     utc_now = (\<lambda>n. 1000000000 * int n), rand_u32 = (\<lambda>n. of_nat n),
     unbounded_send = (\<lambda>h tx ev. True), hash_set_iter = id\<rparr>"

lemma sample_env_laws [simp]: "multiaddr_laws sample_env" "hash_set_laws sample_env"
  by (auto simp: multiaddr_laws_def hash_set_laws_def sample_env_def list_replace_def)

definition sample_book :: "protocol list address_book" where
  "sample_book = book_new 0 True True True"

lemma sample_book_inv [simp]: "book_inv E n sample_book"
  by (simp add: sample_book_def)

lemmas sample_simps = sample_env_def sample_book_def book_new_def default_info_def
  ends_with_p2p_def last_protocol_def normalize_addr_def normalize_addr_ref_def without_peer_id_def

text \<open>An incoming connection, its identification, a ping, a round of pruning.\<close>

definition sample_ops :: "protocol list book_op list" where
  "sample_ops =
     [OpConnectionEstablished 5 (Listener [Ip4 1, Tcp 1] [Ip4 9, Tcp 40000]) 0,
      OpSetInfo 5 \<lparr>id_protocol_version = ''v'', id_agent_version = ''a'', id_protocols = [],
        id_listen_addrs = [[Ip4 9, Tcp 4001]]\<rparr>,
      OpSetRtt 5 (Some 7), OpPrunePeers 0]"

subsection \<open>Safety\<close>

text \<open>
  C3. The address book never panics: from a new book, every sequence of fewer than 2^32
  calls and swarm callbacks, in any order, returns, and the book it leaves is well formed:
  one record per peer, addresses and connections tagged with a peer id, at most ten
  failures per peer, consistent round-trip statistics, and a gauge that counts the listen
  addresses.
\<close>

theorem book_run_safe:
  assumes "multiaddr_laws E" "hash_set_laws E" "list_all op_ok ops" "length ops < 2 ^ 32"
  shows "\<exists>b. book_run E ops (book_new peer reuse loopback keep) = Some b \<and> book_inv E (length ops) b"
  using bk.run_inv [of E 0 "book_new peer reuse loopback keep" ops] assms
  by (auto simp: book_run_def returns_iff)

theorem book_run_safe_witness:
  "\<exists>b. book_run sample_env sample_ops (book_new 0 True True True) = Some b \<and>
    book_inv sample_env (length sample_ops) b"
  by (rule book_run_safe) (simp_all add: sample_ops_def dur_ok_def DURATION_MAX_def)

subsection \<open>Subscribers\<close>

interpretation nt: fan_out "notify E" event_stream sent for E :: "'ma env"
proof
  fix ev :: "'ma event" and b :: "'ma address_book"
  show "\<exists>new. sent (notify E ev b) = sent b @ new \<and> attempts ev (event_stream b) new \<and>
      event_stream (notify E ev b) = survivors new"
    using retain_send_spec [of "unbounded_send E" ev "event_stream b" "sent b"]
    by (auto simp: notify_def Let_def split: prod.splits)
qed

text \<open>
  A subscriber of swarm events receives a prefix of the events, in the order in which
  they were published and each once; as long as it is subscribed it has received them all,
  so an event is lost only by a receiver that is gone.
\<close>

lemma notify_in_order:
  assumes "distinct (event_stream b)"
  shows "\<exists>n. delivered (sent (fold (notify E) evs b)) tx = delivered (sent b) tx @ take n evs \<and>
    (tx \<in> set (event_stream (fold (notify E) evs b)) \<longrightarrow> length evs \<le> n)"
  using assms by (rule nt.run_prefix)

lemma notify_in_order_sample:
  "\<exists>n. delivered (sent (fold (notify sample_env) [Connected 1, Disconnected 1] (swarm_events 3 sample_book))) 3 =
      delivered (sent (swarm_events 3 sample_book)) 3 @ take n [Connected 1, Disconnected 1] \<and>
    (3 \<in> set (event_stream (fold (notify sample_env) [Connected 1, Disconnected 1] (swarm_events 3 sample_book))) \<longrightarrow>
       length [Connected 1 :: protocol list event, Disconnected 1] \<le> n)"
  by (rule notify_in_order) (simp add: swarm_events_def sample_book_def book_new_def)

lemma sample_send [simp]: "event_stream (notify sample_env ev b) = event_stream b"
proof -
  have "fst (retain_send (\<lambda>h tx ev. True) e txs h) = txs" for e :: "protocol list event" and txs h
    by (induction txs arbitrary: h) (auto simp: Let_def case_prod_unfold)
  then show ?thesis by (simp add: notify_def Let_def case_prod_unfold sample_env_def)
qed

lemma event_frames [simp]:
  "event_stream (set_peer p info b) = event_stream b" "sent (set_peer p info b) = sent b"
  "event_stream (push_action a b) = event_stream b" "sent (push_action a b) = sent b"
  by (simp_all add: set_peer_def push_action_def)

text \<open>A subscriber that is still there after a few events has received them.\<close>

lemma notify_all_received:
  assumes "distinct (event_stream b)" "tx \<in> set (event_stream (fold (notify E) evs b))"
  shows "delivered (sent (fold (notify E) evs b)) tx = delivered (sent b) tx @ evs"
  using nt.run_prefix [OF assms(1), of E evs tx] assms(2) by auto

text \<open>The parts of a call to \<open>add_address\<close> that is not ignored.\<close>

definition ignores_address :: "'ma env \<Rightarrow> peer_id \<Rightarrow> 'ma \<Rightarrow> 'ma address_book \<Rightarrow> bool" where
  "ignores_address E p a b \<longleftrightarrow> p = local_peer_id b \<or> \<not> enable_loopback b \<and> is_loopback E a \<or>
     without_peer_id E a \<in> set (listeners b)"

definition validation_dial :: "'ma env \<Rightarrow> peer_id \<Rightarrow> 'ma \<Rightarrow> 'ma action" where
  "validation_dial E p a = DialAction
     \<lparr>opts_peer = p, opts_condition = Some CondAlways, opts_addresses = [without_peer_id E a]\<rparr>
     (IntoAddressHandler (Some (normalize_addr E a p, SIM_OPEN_RETRIES + 1)) False)"

lemma add_address_ignored: "ignores_address E p a b \<Longrightarrow> add_address E p a s b = Some b"
  by (simp add: add_address_cases ignores_address_def)

lemma add_address_parts:
  assumes "add_address E p a s b = Some b'" "\<not> ignores_address E p a b"
  obtains probe info x where
    "ingest_address E (now_of E b) (normalize_addr E a p) s (hm_entry default_info (peers b) p) = Some (probe, info)"
    "x = (if probe \<and> normalize_addr E a p \<notin> set (hm_keys (connections info))
          then push_action (validation_dial E p a) (set_peer p info (tick b)) else set_peer p info (tick b))"
    "b' = fold (notify E) (if addresses_of_peer p b = [] \<and> is_confirmed s
          then [Discovered p, NewInfo p] else [NewInfo p]) x"
proof -
  obtain probe info where i: "ingest_address E (now_of E b) (normalize_addr E a p) s
      (hm_entry default_info (peers b) p) = Some (probe, info)"
    using assms by (auto simp: add_address_cases ignores_address_def bind_eq_Some_conv)
  show ?thesis
    using assms by (intro that [OF i refl])
      (auto simp: add_address_cases ignores_address_def validation_dial_def i Let_def simp del: set_map)
qed

lemma fold_notify_frame [simp]:
  "peers (fold (notify E) evs b) = peers b" "listeners (fold (notify E) evs b) = listeners b"
  "actions (fold (notify E) evs b) = actions b" "deferred (fold (notify E) evs b) = deferred b"
  "local_peer_id (fold (notify E) evs b) = local_peer_id b"
  "clock_reads (fold (notify E) evs b) = clock_reads b"
  by (induction evs arbitrary: b) simp_all

text \<open>
  Adding an address tells every remaining subscriber that the information on the peer
  changed, preceded by a discovery exactly when the source confirms the address and the
  peer had no confirmed address before. An address of the node itself, a loopback address
  that is not allowed and an address the node listens on are ignored.
\<close>

lemma add_address_events:
  assumes "add_address E p a s b = Some b'" "distinct (event_stream b)" "tx \<in> set (event_stream b')"
  shows "delivered (sent b') tx = delivered (sent b) tx @
    (if p = local_peer_id b \<or> \<not> enable_loopback b \<and> is_loopback E a \<or>
        without_peer_id E a \<in> set (listeners b) then []
     else if addresses_of_peer p b = [] \<and> is_confirmed s then [Discovered p, NewInfo p]
     else [NewInfo p])"
proof (cases "ignores_address E p a b")
  case True
  with assms(1) have "b' = b" by (simp add: add_address_ignored)
  with True show ?thesis by (simp add: ignores_address_def)
next
  case False
  from add_address_parts [OF assms(1) False] obtain x where
    x: "event_stream x = event_stream b" "sent x = sent b" "b' = fold (notify E)
      (if addresses_of_peer p b = [] \<and> is_confirmed s then [Discovered p, NewInfo p] else [NewInfo p]) x"
    by (metis event_frames tick_frame(10,11))
  with assms(2,3) have "delivered (sent b') tx = delivered (sent b) tx @
      (if addresses_of_peer p b = [] \<and> is_confirmed s then [Discovered p, NewInfo p] else [NewInfo p])"
    using notify_all_received [of x tx E] by metis
  with False show ?thesis by (simp add: ignores_address_def)
qed

subsection \<open>Pruning\<close>

lemma remove_peers_get:
  "hm_get (peers (remove_peers E ps b)) p = (if p \<in> set ps then None else hm_get (peers b) p)"
  by (induction ps arbitrary: b) auto

lemma filtered_key:
  "hm_ok m \<Longrightarrow> k \<in> set (map fst (filter (\<lambda>(k, v). P v) m)) \<longleftrightarrow> (\<exists>v. hm_get m k = Some v \<and> P v)"
  by (force simp: map_of_eq_Some_iff)



subsection \<open>Validation of addresses\<close>

text \<open>
  What an iteration does: it skips the address, or ingests it (as advertised, then possibly
  as a candidate) and possibly queues a dial. A relation between states that is kept by
  these steps holds across the loop.
\<close>

lemma set_info_loop_induct:
  assumes "set_info_loop E p as info b = Some (info', b')" "P info b"
    and ingest: "\<And>a s probe i i' c. P i c \<Longrightarrow> a \<in> set as \<Longrightarrow> Listen \<le> s \<Longrightarrow>
      ingest_address E (now_of E c) a s i = Some (probe, i') \<Longrightarrow> P i' (tick c)"
    and dial: "\<And>a i c. P i c \<Longrightarrow> a \<in> set as \<Longrightarrow> ma_pop E a \<notin> set (listeners c) \<Longrightarrow>
      P i (push_action (DialAction
        \<lparr>opts_peer = p, opts_condition = Some CondAlways, opts_addresses = [ma_pop E a]\<rparr>
        (IntoAddressHandler (Some (a, 4)) False)) c)"
  shows "P info' b'"
  using assms
proof (induction as arbitrary: info b)
  case Nil
  then show ?case by simp
next
  case (Cons x xs)
  note IH = Cons.IH [OF _ _ Cons.prems(3) Cons.prems(4)]
  show ?case
  proof (cases "ma_pop E x \<in> set (listeners b)")
    case True
    with Cons.prems(1,2) show ?thesis by (auto simp: Let_def intro!: IH)
  next
    case False
    then obtain probe i1 where
      i1: "ingest_address E (now_of E b) x Listen info = Some (probe, i1)"
      using Cons.prems(1) by (auto simp: Let_def bind_eq_Some_conv)
    have P1: "P i1 (tick b)"
      using Cons.prems(2) i1 by (intro Cons.prems(3) [of info b x Listen]) simp_all
    have cand: "P i2 (tick (tick b))"
      if "ingest_address E (now_of E (tick b)) x Candidate i1 = Some (y, i2)" for y i2
      using P1 that by (intro Cons.prems(3) [of i1 "tick b" x Candidate]) (simp_all add: less_eq_address_source_def)
    have push: "P i1 (push_action (DialAction
        \<lparr>opts_peer = p, opts_condition = Some CondAlways, opts_addresses = [ma_pop E x]\<rparr>
        (IntoAddressHandler (Some (x, 4)) False)) (tick b))"
      using P1 False by (intro Cons.prems(4)) simp_all
    from Cons.prems(1) False show ?thesis
      by (auto simp: Let_def i1 bind_eq_Some_conv simp del: set_map split: if_splits intro!: IH P1 push dest: cand)
  qed
qed

lemma set_info_loop_frame:
  assumes "set_info_loop E p as info b = Some (info', b')"
  shows "listeners b' = listeners b" "peers b' = peers b" "connections info' = connections info"
    "info_listeners info' = info_listeners info" "source_of info a \<le> source_of info' a"
    "source_of info' a \<noteq> source_of info a \<Longrightarrow> Some Listen \<le> source_of info' a"
proof -
  have "listeners b' = listeners b \<and> peers b' = peers b \<and> connections info' = connections info \<and>
      info_listeners info' = info_listeners info \<and> source_of info a \<le> source_of info' a \<and>
      (source_of info' a \<noteq> source_of info a \<longrightarrow> Some Listen \<le> source_of info' a)"
    by (rule set_info_loop_induct [OF assms])
      (auto simp: ingest_address_other source_of_ingest le_max_iff_disj max_def split: if_splits)
  then show "listeners b' = listeners b" "peers b' = peers b" "connections info' = connections info"
    "info_listeners info' = info_listeners info" "source_of info a \<le> source_of info' a"
    "source_of info' a \<noteq> source_of info a \<Longrightarrow> Some Listen \<le> source_of info' a"
    by blast+
qed

lemma set_info_loop_Cons:
  assumes "set_info_loop E p (x # xs) info b = Some r"
  shows "ma_pop E x \<in> set (listeners b) \<and> set_info_loop E p xs info b = Some r \<or>
    (\<exists>i c. Some Listen \<le> source_of i x \<and> listeners c = listeners b \<and> set_info_loop E p xs i c = Some r)"
proof (cases "ma_pop E x \<in> set (listeners b)")
  case False
  then obtain probe i1 where i1: "ingest_address E (now_of E b) x Listen info = Some (probe, i1)"
    using assms by (auto simp: Let_def bind_eq_Some_conv)
  have s1: "Some Listen \<le> source_of i1 x"
    by (simp add: source_of_ingest [OF i1])
  have s2: "Some Listen \<le> source_of i2 x"
    if "ingest_address E (now_of E (tick b)) x Candidate i1 = Some (y, i2)" for y i2
    by (simp add: source_of_ingest [OF that] le_max_iff_disj less_eq_address_source_def)
  have fr: "listeners (tick b) = listeners b" "listeners (tick (tick b)) = listeners b"
    "listeners (push_action act (tick b)) = listeners b" for act by simp_all
  show ?thesis
    using assms False i1 s1 fr
    by (simp add: Let_def bind_eq_Some_conv del: set_map split: if_splits) (metis s2 fr)+
qed (use assms in \<open>simp add: Let_def\<close>)

lemma set_info_loop_learns:
  assumes "set_info_loop E p as info b = Some (info', b')" "a \<in> set as" "ma_pop E a \<notin> set (listeners b)"
  shows "Some Listen \<le> source_of info' a"
  using assms
proof (induction as arbitrary: info b)
  case (Cons x xs)
  from set_info_loop_Cons [OF Cons.prems(1)] Cons.prems(2,3) show ?case
  proof (elim disjE exE conjE)
    fix i c
    assume i: "Some Listen \<le> source_of i x" "listeners c = listeners b"
      "set_info_loop E p xs i c = Some (info', b')"
    show ?thesis
      using set_info_loop_frame(5) [OF i(3), of a] i Cons by (cases "x = a") (auto intro: order_trans)
  qed (use Cons in auto)
qed simp

lemma set_info_parts:
  assumes "multiaddr_laws E" "hash_set_laws E" "book_inv E n b" "hm_get (peers b) p = Some info"
  obtains ts as i0 info' b1 where
    "as = map (\<lambda>a. normalize_addr E a p) (filter (\<lambda>a. enable_loopback b \<or> \<not> is_loopback E a) (id_listen_addrs identify))"
    "info_listeners i0 = id_listen_addrs identify"
    "addresses i0 = filter (\<lambda>(_, s, _). \<not> is_to_translate s) (addresses info)"
    "set_info_loop E p (hash_set_iter E (remdups (concat ts @ as))) i0 b = Some (info', b1)"
    "set_info E p identify b = Some (notify E (NewInfo p) (set_peer p info' b1))"
proof -
  obtain b' where b': "set_info E p identify b = Some b'"
    using set_info_inv [OF assms(1-3)] by (auto simp: returns_iff)
  then obtain ts info' b1 where
    "set_info_loop E p (hash_set_iter E (remdups (concat ts @
       map (\<lambda>a. normalize_addr E a p) (filter (\<lambda>a. enable_loopback b \<or> \<not> is_loopback E a) (id_listen_addrs identify)))))
      (info\<lparr>protocol_version := Some (id_protocol_version identify),
        agent_version := Some (id_agent_version identify), protocols := id_protocols identify,
        info_listeners := id_listen_addrs identify,
        addresses := filter (\<lambda>(_, s, _). \<not> is_to_translate s) (addresses info)\<rparr>) b = Some (info', b1)"
    "b' = notify E (NewInfo p) (set_peer p info' b1)"
    using assms(4) by (auto simp: set_info_def Let_def bind_eq_Some_conv)
  then show ?thesis using b' by (intro that [OF refl]) auto
qed

lemma map_of_filter_value:
  "distinct (map fst m) \<Longrightarrow> map_of (filter (\<lambda>(_, v). Q v) m) k =
     (case map_of m k of Some v \<Rightarrow> if Q v then Some v else None | None \<Rightarrow> None)"
proof (induction m)
  case (Cons x m)
  obtain k' v where "x = (k', v)" by (cases x)
  moreover have "map_of m k' = None" if "k' \<notin> fst ` set m"
    using that by (simp add: map_of_eq_None_iff)
  ultimately show ?case using Cons by auto
qed simp

lemma source_of_filter:
  assumes "hm_ok (addresses info)" "addresses i0 = filter (\<lambda>(_, s, _). P s) (addresses info)"
  shows "source_of i0 a = (case source_of info a of Some s \<Rightarrow> if P s then Some s else None | None \<Rightarrow> None)"
  using map_of_filter_value [OF assms(1), of "\<lambda>(s, _). P s" a]
  by (simp add: source_of_def assms(2) case_prod_unfold split: option.splits)

lemma no_translate_sources:
  assumes "hm_ok (addresses info)"
  shows "addresses_to_translate info = [] \<longleftrightarrow> (\<forall>a. source_of info a \<noteq> Some Incoming)"
proof -
  have "is_to_translate s \<longleftrightarrow> s = Incoming" for s by (cases s) simp_all
  then show ?thesis
    using assms by (fastforce simp: addresses_to_translate_def select_addresses_def source_of_def
        filter_empty_conv map_of_eq_Some_iff)
qed

text \<open>
  C17. Identifying a known peer settles its addresses: afterwards none of them is left to
  be translated, the advertised listeners are recorded, and every advertised address is
  known with at least the source \<open>Listen\<close>, unless it is a loopback address that is not
  allowed or one the node itself listens on. Nothing that was known to be stronger is
  weakened.
\<close>

theorem set_info_learns:
  assumes "multiaddr_laws E" "hash_set_laws E" "book_inv E n b" "hm_get (peers b) p = Some info"
  shows "\<exists>b' info'. set_info E p identify b = Some b' \<and> hm_get (peers b') p = Some info' \<and>
    addresses_to_translate info' = [] \<and> info_listeners info' = id_listen_addrs identify \<and>
    (\<forall>a \<in> set (id_listen_addrs identify). (enable_loopback b \<or> \<not> is_loopback E a) \<and>
       ma_pop E (normalize_addr E a p) \<notin> set (listeners b) \<longrightarrow>
       Some Listen \<le> source_of info' (normalize_addr E a p)) \<and>
    (\<forall>a s. source_of info a = Some s \<and> \<not> is_to_translate s \<longrightarrow> Some s \<le> source_of info' a)"
proof -
  obtain ts as i0 info' b1 where parts:
    "as = map (\<lambda>a. normalize_addr E a p) (filter (\<lambda>a. enable_loopback b \<or> \<not> is_loopback E a) (id_listen_addrs identify))"
    "info_listeners i0 = id_listen_addrs identify"
    "addresses i0 = filter (\<lambda>(_, s, _). \<not> is_to_translate s) (addresses info)"
    "set_info_loop E p (hash_set_iter E (remdups (concat ts @ as))) i0 b = Some (info', b1)"
    "set_info E p identify b = Some (notify E (NewInfo p) (set_peer p info' b1))"
    by (rule set_info_parts [OF assms])
  have ok: "hm_ok (addresses info)" "hm_ok (addresses info')"
    using get_peer_inv [OF assms(3,4)] set_info_inv [OF assms(1-3), of p identify] parts(5)
      get_peer_inv [of E n "set_peer p info' b1" p info']
    by (auto simp: info_inv_def info_ok_def)
  have src: "source_of i0 a = (case source_of info a of
      Some s \<Rightarrow> if is_to_translate s then None else Some s | None \<Rightarrow> None)" for a
    using source_of_filter [OF ok(1) parts(3)] by (simp split: option.splits)
  have "source_of i0 a \<noteq> Some Incoming" for a
    by (auto simp: src split: option.splits)
  then have "source_of info' a \<noteq> Some Incoming" for a
    using set_info_loop_frame(6) [OF parts(4), of a] by (force simp: less_eq_address_source_def)
  then have "addresses_to_translate info' = []"
    using no_translate_sources [OF ok(2)] by simp
  moreover have "Some Listen \<le> source_of info' (normalize_addr E a p)"
    if "a \<in> set (id_listen_addrs identify)" "enable_loopback b \<or> \<not> is_loopback E a"
      "ma_pop E (normalize_addr E a p) \<notin> set (listeners b)" for a
    using that assms(2) parts(1) by (intro set_info_loop_learns [OF parts(4)]) auto
  moreover have "Some s \<le> source_of info' a" if "source_of info a = Some s" "\<not> is_to_translate s" for a s
    using set_info_loop_frame(5) [OF parts(4), of a] that by (simp add: src)
  ultimately show ?thesis
    using parts(2,5) set_info_loop_frame(4) [OF parts(4)] by auto
qed

theorem set_info_learns_witness:
  "\<exists>b' info'. set_info sample_env 5 \<lparr>id_protocol_version = ''v'', id_agent_version = ''a'',
      id_protocols = [], id_listen_addrs = [[Ip4 9, Tcp 4001]]\<rparr> (set_peer 5 default_info sample_book) = Some b' \<and>
    hm_get (peers b') 5 = Some info' \<and>
    Some Listen \<le> source_of info' [Ip4 9, Tcp 4001, P2p 5]"
proof -
  have inv: "book_inv sample_env 0 (set_peer 5 default_info sample_book)"
    by (auto intro: set_peer_inv)
  have get: "hm_get (peers (set_peer 5 default_info sample_book)) 5 = Some default_info" by simp
  show ?thesis
    using set_info_learns [OF sample_env_laws inv get, of "\<lparr>id_protocol_version = ''v'', id_agent_version = ''a'',
      id_protocols = [], id_listen_addrs = [[Ip4 9, Tcp 4001]]\<rparr>"]
    by (auto simp: sample_simps)
qed

text \<open>
  C30. The node does not dial its own listeners: neither adding an address nor identifying a
  peer queues a dial to an address the node listens on, and both only add to the queue,
  dials of the peer concerned to a single address.
\<close>

theorem no_dial_to_own_listener:
  assumes "add_address E p a s b = Some b' \<or> set_info E p identify b = Some b'"
  shows "\<exists>new. actions b' = actions b @ new \<and>
    (\<forall>opts handler. DialAction opts handler \<in> set new \<longrightarrow> opts_peer opts = p \<and>
       (\<exists>x. opts_addresses opts = [x] \<and> x \<notin> set (listeners b)))"
  using assms
proof
  assume add: "add_address E p a s b = Some b'"
  show ?thesis
  proof (cases "ignores_address E p a b")
    case True
    with add show ?thesis by (simp add: add_address_ignored)
  next
    case False
    from add_address_parts [OF add False] have
      "actions b' = actions b \<or> actions b' = actions b @ [validation_dial E p a]"
      by (metis fold_notify_frame(3) push_action_frame(4) set_peer_frame(4) tick_frame(4))
    with False show ?thesis by (auto simp: validation_dial_def ignores_address_def)
  qed
next
  assume info: "set_info E p identify b = Some b'"
  have loop: "listeners c' = listeners b \<and> (\<exists>new. actions c' = actions b @ new \<and>
      (\<forall>opts handler. DialAction opts handler \<in> set new \<longrightarrow> opts_peer opts = p \<and>
       (\<exists>x. opts_addresses opts = [x] \<and> x \<notin> set (listeners b))))"
    if "set_info_loop E p as i b = Some (i', c')" for as i i' c'
    by (rule set_info_loop_induct [OF that]) fastforce+
  show ?thesis
    using info loop by (auto simp: set_info_def Let_def bind_eq_Some_conv split: option.splits)
qed

theorem no_dial_to_own_listener_witness:
  "\<exists>b' new. add_address sample_env 5 [Ip4 9, Tcp 4001] Mdns sample_book = Some b' \<and>
    actions b' = actions sample_book @ new \<and> new \<noteq> [] \<and>
    (\<forall>opts handler. DialAction opts handler \<in> set new \<longrightarrow> opts_peer opts = 5 \<and>
       (\<exists>x. opts_addresses opts = [x] \<and> x \<notin> set (listeners sample_book)))"
proof -
  obtain b' where b': "add_address sample_env 5 [Ip4 9, Tcp 4001] Mdns sample_book = Some b'" "actions b' \<noteq> []"
    by (simp add: add_address_def sample_simps ingest_address_def notify_def Let_def
        set_peer_def tick_def push_action_def)
  with no_dial_to_own_listener [OF disjI1 [OF b'(1)]] show ?thesis
    by (auto simp: sample_book_def book_new_def)
qed

text \<open>
  C29. A successful outbound connection confirms its address: unless the address is ignored
  it is afterwards offered for dialling the peer, and the connection is recorded with the
  instant and the direction.
\<close>

theorem outbound_connection_confirms:
  assumes "multiaddr_laws E" "book_inv E n b" "p \<noteq> local_peer_id b"
    "enable_loopback b \<or> \<not> is_loopback E (normalize_addr E a p)"
    "without_peer_id E (normalize_addr E a p) \<notin> set (listeners b)"
  shows "\<exists>b' info t. inject_connection_established E p (Dialer a r) others b = Some b' \<and>
    normalize_addr E a p \<in> set (addresses_of_peer p b') \<and>
    hm_get (peers b') p = Some info \<and>
    hm_get (connections info) (normalize_addr E a p) = Some (t, Outbound) \<and>
    source_of info (normalize_addr E a p) = Some Dial"
proof -
  let ?a = "normalize_addr E a p"
  obtain b1 where b1: "add_address E p ?a Dial b = Some b1"
    using add_address_inv [OF assms(1,2), of p ?a Dial] by (auto simp: returns_iff)
  moreover have "\<not> ignores_address E p ?a b"
    using assms(3-) by (simp add: ignores_address_def)
  ultimately obtain probe info where
    i: "ingest_address E (now_of E b) ?a Dial (hm_entry default_info (peers b) p) = Some (probe, info)"
      "peers b1 = hm_insert p info (peers b)"
    using assms(1) by (auto elim!: add_address_parts split: if_splits)
  have "x \<le> Some Dial" for x
    by (cases x; cases "the x") (simp_all add: less_eq_address_source_def)
  then have dial: "source_of info ?a = Some Dial"
    using source_of_ingest [OF i(1), of ?a] by (simp add: max_absorb1)
  then obtain dt where "hm_get (addresses info) ?a = Some (Dial, dt)"
    by (auto simp: source_of_def)
  then have "(?a, Dial, dt) \<in> set (addresses info)" by (rule map_of_SomeD)
  then have conf: "?a \<in> set (confirmed_addresses info)"
    by (force simp: confirmed_addresses_def select_addresses_def)
  with b1 i(2) dial show ?thesis
    by (auto simp: inject_connection_established_def Let_def addresses_of_peer_def direction_from_def
        source_of_def confirmed_addresses_def select_addresses_def)
qed

theorem outbound_connection_confirms_witness:
  "\<exists>b' info t. inject_connection_established sample_env 5 (Dialer [Ip4 9, Tcp 4001] EndpointDialer) 0 sample_book = Some b' \<and>
    [Ip4 9, Tcp 4001, P2p 5] \<in> set (addresses_of_peer 5 b') \<and>
    hm_get (peers b') 5 = Some info \<and>
    hm_get (connections info) [Ip4 9, Tcp 4001, P2p 5] = Some (t, Outbound) \<and>
    source_of info [Ip4 9, Tcp 4001, P2p 5] = Some Dial"
proof -
  have n: "normalize_addr sample_env [Ip4 9, Tcp 4001] 5 = [Ip4 9, Tcp 4001, P2p 5]"
    by (simp add: sample_simps)
  have b: "5 \<noteq> local_peer_id sample_book" "enable_loopback sample_book" "listeners sample_book = []"
    by (simp_all add: sample_book_def book_new_def)
  show ?thesis
    using outbound_connection_confirms [of sample_env 0 sample_book 5 "[Ip4 9, Tcp 4001]" EndpointDialer 0]
    unfolding n by (simp add: b)
qed

text \<open>
  When a connection closes it is removed from the peer's record, the other connections
  stay, the reason is the newest entry of the failure history, no address is forgotten, and
  every remaining subscriber hears of the closed connection, of the disconnect if it was
  the last connection, and of the new information, in this order.
\<close>

lemma connection_closed_spec:
  assumes "hm_get (peers b) p = Some info" "length (failures info) \<le> 10"
    "distinct (event_stream b)" "b' = connection_closed E p conn num error b" "tx \<in> set (event_stream b')"
  shows "\<exists>info'. hm_get (peers b') p = Some info' \<and>
    (\<forall>a. hm_get (connections info') a =
       (if a = normalize_addr E (get_remote_address conn) p then None else hm_get (connections info) a)) \<and>
    cf_display (hd (failures info')) = fst (close_reason E error) \<and>
    tl (failures info') = take 9 (failures info) \<and> addresses info' = addresses info \<and>
    delivered (sent b') tx = delivered (sent b) tx @
      [ConnectionClosed p (normalize_connected_point E conn (local_peer_id b) p)] @
      (if num = 0 then [Disconnected p] else []) @ [NewInfo p]"
proof -
  let ?conn = "normalize_connected_point E conn (local_peer_id b) p"
  let ?a = "normalize_addr E (get_remote_address conn) p"
  define f where "f = (if snd (close_reason E error)
    then failure_them (now_of E b) (without_peer_id E ?a) (fst (close_reason E error)) (dbg_connection_error E error)
    else failure_us (now_of E b) (without_peer_id E ?a) (fst (close_reason E error)) (dbg_connection_error E error))"
  define i where "i = push_failure ?a f False (info\<lparr>connections := hm_remove ?a (connections info)\<rparr>)"
  define evs where "evs = [ConnectionClosed p ?conn] @ (if num = 0 then [Disconnected p] else []) @ [NewInfo p]"
  have b': "b' = fold (notify E) evs (set_peer p i (tick b))"
    using assms(1,4) by (simp add: connection_closed_def Let_def i_def f_def evs_def case_prod_unfold)
  have "delivered (sent b') tx = delivered (sent b) tx @ evs"
    using notify_all_received [of "set_peer p i (tick b)" tx E evs] assms(3,5) unfolding b' by simp
  moreover have "failures i = take 10 (f # failures info)"
    using push_failure_failures [of "info\<lparr>connections := hm_remove ?a (connections info)\<rparr>" ?a f False] assms(2)
    by (simp add: i_def)
  moreover have "cf_display f = fst (close_reason E error)"
    by (simp add: f_def failure_them_def failure_us_def)
  moreover have "addresses i = addresses info"
    by (simp add: i_def push_failure_def)
  ultimately show ?thesis
    by (simp add: b' i_def evs_def)
qed

lemma connection_closed_spec_sample:
  "\<exists>info'. hm_get (peers (connection_closed sample_env 5 (Dialer [Tcp 1] EndpointDialer) 0 None
       (set_peer 5 default_info (swarm_events 3 sample_book)))) 5 = Some info' \<and>
    cf_display (hd (failures info')) = ''we closed''"
proof -
  let ?b = "set_peer 5 default_info (swarm_events 3 sample_book)"
  let ?b' = "connection_closed sample_env 5 (Dialer [Tcp 1] EndpointDialer) 0 None ?b"
  have s: "event_stream ?b = [3]" by (simp add: swarm_events_def sample_book_def book_new_def)
  have t: "3 \<in> set (event_stream ?b')"
    using s by (simp add: connection_closed_def Let_def case_prod_unfold)
  have i: "hm_get (peers ?b) 5 = Some default_info" "failures (default_info :: protocol list peer_info) = []"
    by (simp_all add: default_info_def)
  have "distinct (event_stream ?b)" unfolding s by simp
  from connection_closed_spec [OF i(1) _ this refl t] show ?thesis
    by (auto simp: i(2))
qed

subsection \<open>Dial failures\<close>



text \<open>
  A dial to a peer at large that is answered by another peer changes nothing the node
  knows: the peer is reported unreachable, but no address is forgotten, also not the
  confirmed address that was dialled, and no failure is recorded.
\<close>

lemma peer_dial_wrong_peer_keeps:
  assumes "hm_get (peers b) p = Some info"
  shows "inject_dial_failure E (Some p) (IntoAddressHandler None keep) (WrongPeerId q cp) b =
      Some (notify E (Unreachable p) b) \<and>
    peers (notify E (Unreachable p) b) = peers b"
  using assms by (simp add: inject_dial_failure_def)

text \<open>
  The worst case of a TCP simultaneous open: every redial fails with it again. The result
  is the number of redials until none is queued any more.
\<close>

fun redials_until_quiet :: "nat \<Rightarrow> 'ma env \<Rightarrow> 'ma dial_error \<Rightarrow> 'ma into_address_handler \<Rightarrow>
    'ma address_book \<Rightarrow> nat option" where
  "redials_until_quiet 0 E e h b = None"
| "redials_until_quiet (Suc fuel) E e h b = do {
     b' \<leftarrow> inject_dial_failure E None h e b;
     if length (deferred b') \<le> length (deferred b) then Some 0
     else (case snd (last (deferred b')) of
        DialAction opts h' \<Rightarrow> map_option Suc (redials_until_quiet fuel E e h' b'))
   }"

lemma validation_failure_redials:
  assumes "multiaddr_peer_id E a = Some p" "hm_get (peers b) p = Some info"
  shows "returns (\<lambda>b'. hm_get (peers b') p \<noteq> None \<and>
      (if sim_open_failure e \<and> retries > 0
       then \<exists>delay \<le> from_secs 1. deferred b' = deferred b @ [(delay, redial p a (retries - 1) keep)]
       else deferred b' = deferred b))
    (inject_dial_failure E po (IntoAddressHandler (Some (a, retries)) keep) e b)"
  using assms
  by (auto simp: inject_dial_failure_def validation_dial_failure_def Let_def push_deferred_def
      intro!: returns_mono [OF redial_delay_total])

text \<open>
  C20. Redials after a TCP simultaneous open end: a validation dial with a budget of
  retries, all of whose attempts fail in this way, is repeated exactly as often as its
  budget says, and then no more. Dials queued by the address book start with at most
  eleven retries.
\<close>

theorem redials_end:
  assumes "multiaddr_peer_id E a = Some p" "hm_get (peers b) p \<noteq> None" "sim_open_failure e"
  shows "redials_until_quiet (Suc (unat retries)) E e (IntoAddressHandler (Some (a, retries)) keep) b =
    Some (unat retries)"
  using assms(2)
proof (induction "unat retries" arbitrary: retries b)
  case 0
  then have r: "retries = 0" by (simp add: unat_eq_0)
  obtain info where "hm_get (peers b) p = Some info" using 0 by auto
  from validation_failure_redials [OF assms(1) this, of e retries keep None] r show ?case
    by (auto simp: returns_iff)
next
  case (Suc n)
  from Suc.hyps(2) have "retries \<noteq> 0" by auto
  then have r: "0 < retries" "unat (retries - 1) = n"
    using Suc.hyps(2) by (simp_all add: word_gt_0 unat_minus_one)
  obtain info where "hm_get (peers b) p = Some info" using Suc.prems by auto
  from validation_failure_redials [OF assms(1) this, of e retries keep None] r(1) assms(3)
  obtain b' delay where b': "inject_dial_failure E None (IntoAddressHandler (Some (a, retries)) keep) e b = Some b'"
    "hm_get (peers b') p \<noteq> None" "deferred b' = deferred b @ [(delay, redial p a (retries - 1) keep)]"
    by (auto simp: returns_iff)
  have "redials_until_quiet (Suc n) E e (IntoAddressHandler (Some (a, retries - 1)) keep) b' = Some n"
    using Suc.hyps(1) [of "retries - 1" b'] b'(2) r(2) by simp
  then show ?case
    unfolding Suc.hyps(2) [symmetric] redials_until_quiet.simps(2) [of "Suc n"] b'(1)
    using b'(3) by (simp add: redial_def del: redials_until_quiet.simps)
qed

definition sim_open_error :: "protocol list dial_error" where
  "sim_open_error = Transport [([Ip4 9, Tcp 4001], TransportOther (IoError (OtherKind ''Other'')
     (Some (InnerDns (DnsTransport (IoError (OtherKind ''Other'')
       (Some (InnerTransport (TimeoutOther (StackA (AuthB (UpgradeApply (NoiseIo
         (IoError InvalidData None))))))))))))))]"

theorem redials_end_witness:
  "redials_until_quiet (Suc (unat (11 :: u8))) sample_env sim_open_error
    (IntoAddressHandler (Some ([Ip4 9, Tcp 4001, P2p 5], 11)) True) (set_peer 5 default_info sample_book) = Some 11"
proof -
  have "sim_open_failure sim_open_error"
    by (simp add: sim_open_failure_def sim_open_error_def is_sim_open_def downcast_dns_def downcast_transport_def)
  moreover have "multiaddr_peer_id sample_env [Ip4 9, Tcp 4001, P2p 5] = Some 5"
    by (simp add: multiaddr_peer_id_def sample_simps)
  ultimately show ?thesis
    using redials_end [of sample_env "[Ip4 9, Tcp 4001, P2p 5]" 5 "set_peer 5 default_info sample_book"
        sim_open_error 11 True] by simp
qed

lemma transport_failures_redials:
  "transport_failures E p k v i c = (i', c', evs, rs) \<Longrightarrow>
     rs = map (\<lambda>(a, _). redial p a SIM_OPEN_RETRIES k) (filter (\<lambda>(_, e). is_sim_open e) v) \<and>
     deferred c' = deferred c"
  by (induction E p k v i c arbitrary: i' c' evs rs rule: transport_failures.induct)
    (auto simp: Let_def split: prod.splits if_splits)

lemma push_all_deferred_spec:
  "returns (\<lambda>c'. \<exists>delays. list_all (\<lambda>d. d \<le> from_secs 1) delays \<and> length delays = length as \<and>
     deferred c' = deferred c @ zip delays as) (push_all_deferred E as c)"
proof (induction as arbitrary: c)
  case (Cons a as)
  have step: "returns (\<lambda>c'. \<exists>d \<le> from_secs 1. deferred c' = deferred c @ [(d, a)]) (push_deferred E a c)"
    by (auto simp: push_deferred_def intro!: returns_mono [OF redial_delay_total])
  have "returns (\<lambda>c''. \<exists>delays. list_all (\<lambda>d. d \<le> from_secs 1) delays \<and> length delays = length (a # as) \<and>
      deferred c'' = deferred c @ zip delays (a # as)) (push_all_deferred E as c')"
    if "d \<le> from_secs 1" "deferred c' = deferred c @ [(d, a)]" for c' d
  proof (rule returns_mono [OF Cons.IH [of c']], elim exE conjE)
    fix c'' delays
    assume "list_all (\<lambda>d. d \<le> from_secs 1) delays" "length delays = length as"
      "deferred c'' = deferred c' @ zip delays as"
    with that show "\<exists>delays. list_all (\<lambda>d. d \<le> from_secs 1) delays \<and> length delays = length (a # as) \<and>
      deferred c'' = deferred c @ zip delays (a # as)"
      by (intro exI [of _ "d # delays"]) simp
  qed
  then show ?case
    by (auto intro!: returns_mono [OF step])
qed simp

text \<open>
  C28. A failed dial of a peer queues one redial for each address that failed with a TCP
  simultaneous open, in order, each to be started within a second and with a budget of ten
  retries; other transport errors queue none.
\<close>

theorem peer_dial_failure_redials:
  assumes "hm_get (peers b) p = Some info"
  shows "\<exists>b' delays. inject_dial_failure E (Some p) (IntoAddressHandler None keep) (Transport v) b = Some b' \<and>
    list_all (\<lambda>d. d \<le> from_secs 1) delays \<and>
    length delays = length (filter (\<lambda>(_, e). is_sim_open e) v) \<and>
    deferred b' = deferred b @ zip delays
      (map (\<lambda>(a, _). redial p a 10 (keep_alive b)) (filter (\<lambda>(_, e). is_sim_open e) v))"
proof -
  obtain i' c' evs rs where tf: "transport_failures E p (keep_alive b) v info b = (i', c', evs, rs)"
    by (cases "transport_failures E p (keep_alive b) v info b")
  note rs = transport_failures_redials [OF tf]
  define x where "x = (if rs = [] then notify E (Unreachable p) (fold (notify E) evs (set_peer p i' c'))
    else fold (notify E) evs (set_peer p i' c'))"
  have x: "deferred x = deferred b" using rs by (simp add: x_def)
  have f: "inject_dial_failure E (Some p) (IntoAddressHandler None keep) (Transport v) b =
      map_option (notify E (NewInfo p)) (push_all_deferred E rs x)"
    using assms by (cases "push_all_deferred E rs x")
      (simp_all add: inject_dial_failure_def peer_dial_failure_def tf x_def [symmetric] Let_def)
  from push_all_deferred_spec [of rs x E] show ?thesis
    unfolding f x using rs by (auto simp: returns_iff SIM_OPEN_RETRIES_def)
qed

theorem peer_dial_failure_redials_witness:
  "\<exists>b' delays. inject_dial_failure sample_env (Some 5) (IntoAddressHandler None True)
      (Transport [([P2p 5], MultiaddrNotSupported [P2p 5])]) (set_peer 5 default_info sample_book) = Some b' \<and>
    list_all (\<lambda>d. d \<le> from_secs 1) delays \<and> length delays = 0 \<and> deferred b' = []"
  using peer_dial_failure_redials [of "set_peer 5 default_info sample_book" 5 default_info sample_env True
      "[([P2p 5], MultiaddrNotSupported [P2p 5])]"]
  by (auto simp: is_sim_open_def sample_book_def book_new_def)

subsection \<open>Polling\<close>

text \<open>Polls with no deferred dial due.\<close>

fun poll_all :: "nat \<Rightarrow> 'ma address_record list \<Rightarrow> 'ma address_book \<Rightarrow> 'ma action poll list \<times> 'ma address_book" where
  "poll_all 0 ext b = ([], b)"
| "poll_all (Suc n) ext b =
     (let (r, b') = book_poll ext None b; (rs, b'') = poll_all n ext b' in (r # rs, b''))"

text \<open>
  The swarm receives the queued dials in the order in which they were queued: as many
  polls as there are actions return exactly the actions, and leave the queue empty.
\<close>

lemma polls_drain_in_order:
  "poll_all (length (actions b)) ext b = (rs, b') \<Longrightarrow> rs = map Ready (actions b) \<and> actions b' = []"
proof (induction "length (actions b)" arbitrary: b rs b')
  case 0
  then show ?case by simp
next
  case (Suc n)
  then obtain a as where as: "actions b = a # as" by (cases "actions b") auto
  define c where "c = snd (book_poll ext None b)"
  have c: "book_poll ext None b = (Ready a, c)" "actions c = as"
    by (simp_all add: c_def book_poll_def as Let_def)
  obtain rs' where rs': "poll_all (length (actions c)) ext c = (rs', b')" "rs = Ready a # rs'"
    using Suc.prems as c by (auto simp: Let_def split: prod.splits)
  with Suc.hyps(1) [of c rs' b'] Suc.hyps(2) as c show ?case by simp
qed

end
