(* ===== verification/Behaviour.thy ===== *)
theory Behaviour
  imports BookInvariant
begin

text \<open>
  The network behaviour, \<open>NetworkBackendBehaviour\<close> of \<open>src/src/net/behaviour.rs\<close>: the
  address book next to the protocols of libp2p (Kademlia, bitswap, gossipsub, broadcast),
  the table of running queries with the channels on which their results are awaited, and
  the table of topic subscriptions. The two tables and the bootstrap flag, which
  \<open>src/src/net/mod.rs\<close> passes by reference, are fields of the same state.

  The protocols are code of other crates. Each call into them is appended to the list
  \<open>proto_calls\<close>; what the call returns is a parameter that may depend on all calls so far.
  Channels are tokens: \<open>outcomes\<close> records, in order, what became of each one-shot sender
  that was consumed: a reply was sent, or the sender was dropped, which the receiver sees as
  a cancellation.
\<close>

subsection \<open>Data\<close>

text \<open>Keys, records and quorums are only passed on.\<close>

type_synonym kad_key = string
type_synonym kad_record = string
type_synonym quorum = nat

datatype query_id = BitswapQuery nat | KadQuery nat

datatype publish_error = InsufficientPeers | OtherPublishError string

datatype net_error =
    NotBootstrapped
  | DisabledProtocol string
  | NoKnownPeers string
  | KadStoreError string
  | KadBootstrapError string
  | KadGetClosestPeersError string
  | KadGetProvidersError string
  | KadAddProviderError string
  | KadGetRecordError string
  | KadPutRecordError string
  | GossipsubPublishError publish_error
  | SubscriptionError string
  | BitswapError string
  | BlockNotFound cid
  | Canceled

type_synonym 'a result = "net_error + 'a"

datatype sync_event = Progress nat | Complete "unit result"

text \<open>A one-shot channel comes with a command or is created by \<open>get\<close>.\<close>

datatype oneshot = CommandChannel nat | GetChannel nat

datatype query_channel =
    GetQ oneshot
  | SyncQ sender
  | BootstrapQ oneshot
  | GetClosestPeersQ oneshot
  | GetProvidersQ oneshot
  | StartProvidingQ oneshot
  | GetRecordQ oneshot
  | PutRecordQ oneshot

datatype gossip_event =
    GossipSubscribed peer_id
  | GossipMessage peer_id bytes
  | GossipUnsubscribed peer_id

datatype reply =
    ReplyUnit "unit result"
  | ReplyPeers "peer_id list result"
  | ReplyProviders "peer_id list result"
  | ReplyRecords "kad_record list result"
  | ReplySubscription "sender result"
  | ReplyGetQuery query_id oneshot
  | ReplySyncQuery query_id sender
  | ReplySwarmEvents sender

datatype outcome = Replied reply | Dropped

datatype 'ma proto_call =
    KadAddAddress peer_id 'ma
  | KadRemoveAddress peer_id 'ma
  | KadBootstrap
  | KadStartProviding kad_key
  | KadStopProviding kad_key
  | KadGetProviders kad_key
  | KadGetRecord kad_key quorum
  | KadPutRecord kad_record quorum
  | KadRemoveRecord kad_key
  | GossipSubscribe string
  | GossipUnsubscribe string
  | GossipPublish string bytes
  | BroadcastSubscribe bytes
  | BroadcastUnsubscribe bytes
  | BroadcastSend bytes bytes
  | BitswapGet cid "peer_id list"
  | BitswapSync cid "peer_id list" "cid list"
  | BitswapCancel nat
  | SwarmListenOn 'ma
  | SwarmAddExternalAddress 'ma
  | SwarmBan peer_id
  | SwarmUnban peer_id

text \<open>The results of the protocols, given the calls so far, the current one last.\<close>

record 'ma net_env =
  net_base :: "'ma env"
  kad_bootstrap :: "'ma proto_call list \<Rightarrow> string + nat"
  kad_start_providing :: "'ma proto_call list \<Rightarrow> string + nat"
  kad_get_providers :: "'ma proto_call list \<Rightarrow> nat"
  kad_get_record :: "'ma proto_call list \<Rightarrow> nat"
  kad_put_record :: "'ma proto_call list \<Rightarrow> string + nat"
  gossip_subscribe :: "'ma proto_call list \<Rightarrow> string + bool"
  gossip_publish :: "'ma proto_call list \<Rightarrow> publish_error + unit"
  bitswap_get :: "'ma proto_call list \<Rightarrow> nat"
  bitswap_sync :: "'ma proto_call list \<Rightarrow> nat"
  swarm_listen_on :: "'ma proto_call list \<Rightarrow> string + listener_id"
  topic_hash :: "string \<Rightarrow> string"
  sync_send :: "sync_event send_fun"
  gossip_send :: "gossip_event send_fun"

record 'ma backend =
  book :: "'ma address_book"
  kad_enabled :: bool
  bitswap_enabled :: bool
  gossipsub_enabled :: bool
  broadcast_enabled :: bool
  proto_calls :: "'ma proto_call list"
  outcomes :: "(oneshot \<times> outcome) list"
  sync_sent :: "sync_event history"
  sync_closed :: "sender list"
  gossip_sent :: "gossip_event history"
  next_channel :: nat
  queries :: "(query_id, query_channel) hashmap"
  subscriptions :: "(string, sender list) hashmap"
  bootstrapped :: bool

subsection \<open>Channels and calls\<close>

definition send_reply :: "oneshot \<Rightarrow> reply \<Rightarrow> 'ma backend \<Rightarrow> 'ma backend" where
  "send_reply ch r s = s\<lparr>outcomes := outcomes s @ [(ch, Replied r)]\<rparr>"

definition drop_oneshot :: "oneshot \<Rightarrow> 'ma backend \<Rightarrow> 'ma backend" where
  "drop_oneshot ch s = s\<lparr>outcomes := outcomes s @ [(ch, Dropped)]\<rparr>"

fun channel_oneshot :: "query_channel \<Rightarrow> oneshot option" where
  "channel_oneshot (SyncQ tx) = None"
| "channel_oneshot (GetQ ch) = Some ch"
| "channel_oneshot (BootstrapQ ch) = Some ch"
| "channel_oneshot (GetClosestPeersQ ch) = Some ch"
| "channel_oneshot (GetProvidersQ ch) = Some ch"
| "channel_oneshot (StartProvidingQ ch) = Some ch"
| "channel_oneshot (GetRecordQ ch) = Some ch"
| "channel_oneshot (PutRecordQ ch) = Some ch"

text \<open>Dropping a query channel.\<close>

definition drop_channel :: "query_channel \<Rightarrow> 'ma backend \<Rightarrow> 'ma backend" where
  "drop_channel qc s =
     (case qc of
        SyncQ tx \<Rightarrow> s\<lparr>sync_closed := sync_closed s @ [tx]\<rparr>
      | _ \<Rightarrow> (case channel_oneshot qc of Some ch \<Rightarrow> drop_oneshot ch s | None \<Rightarrow> s))"

definition call :: "'ma proto_call \<Rightarrow> 'ma backend \<Rightarrow> 'ma backend" where
  "call c s = s\<lparr>proto_calls := proto_calls s @ [c]\<rparr>"

text \<open>\<open>queries.insert\<close>: an entry that is replaced is dropped.\<close>

definition insert_query :: "query_id \<Rightarrow> query_channel \<Rightarrow> 'ma backend \<Rightarrow> 'ma backend" where
  "insert_query i qc s =
     (let s' = (case hm_get (queries s) i of Some old \<Rightarrow> drop_channel old s | None \<Rightarrow> s)
      in s'\<lparr>queries := hm_insert i qc (queries s')\<rparr>)"

text \<open>\<open>queries.remove\<close> whose result is dropped.\<close>

definition remove_query :: "query_id \<Rightarrow> 'ma backend \<Rightarrow> 'ma backend" where
  "remove_query i s =
     (case hm_get (queries s) i of
        Some qc \<Rightarrow> drop_channel qc (s\<lparr>queries := hm_remove i (queries s)\<rparr>)
      | None \<Rightarrow> s)"

text \<open>
  \<open>if let Some(QueryChannel::X(ch)) = queries.remove(&id.into()) { ch.send(r).ok(); }\<close>: the
  entry is removed whatever it is; \<open>sel\<close> selects the variant that is answered, any other
  is dropped.
\<close>

definition answer_query :: "(query_channel \<Rightarrow> oneshot option) \<Rightarrow> query_id \<Rightarrow> reply \<Rightarrow> 'ma backend \<Rightarrow> 'ma backend" where
  "answer_query sel i r s =
     (case hm_get (queries s) i of
        None \<Rightarrow> s
      | Some qc \<Rightarrow>
          let s' = s\<lparr>queries := hm_remove i (queries s)\<rparr>
          in case sel qc of Some ch \<Rightarrow> send_reply ch r s' | None \<Rightarrow> drop_channel qc s')"

definition sel_get :: "query_channel \<Rightarrow> oneshot option" where
  "sel_get qc = (case qc of GetQ ch \<Rightarrow> Some ch | _ \<Rightarrow> None)"

definition sel_bootstrap :: "query_channel \<Rightarrow> oneshot option" where
  "sel_bootstrap qc = (case qc of BootstrapQ ch \<Rightarrow> Some ch | _ \<Rightarrow> None)"

definition sel_closest_peers :: "query_channel \<Rightarrow> oneshot option" where
  "sel_closest_peers qc = (case qc of GetClosestPeersQ ch \<Rightarrow> Some ch | _ \<Rightarrow> None)"

definition sel_providers :: "query_channel \<Rightarrow> oneshot option" where
  "sel_providers qc = (case qc of GetProvidersQ ch \<Rightarrow> Some ch | _ \<Rightarrow> None)"

definition sel_start_providing :: "query_channel \<Rightarrow> oneshot option" where
  "sel_start_providing qc = (case qc of StartProvidingQ ch \<Rightarrow> Some ch | _ \<Rightarrow> None)"

definition sel_get_record :: "query_channel \<Rightarrow> oneshot option" where
  "sel_get_record qc = (case qc of GetRecordQ ch \<Rightarrow> Some ch | _ \<Rightarrow> None)"

definition sel_put_record :: "query_channel \<Rightarrow> oneshot option" where
  "sel_put_record qc = (case qc of PutRecordQ ch \<Rightarrow> Some ch | _ \<Rightarrow> None)"

text \<open>Calls of the address book; a panic there is a panic here.\<close>

definition with_book :: "('ma address_book \<Rightarrow> 'ma address_book option) \<Rightarrow> 'ma backend \<Rightarrow> 'ma backend option" where
  "with_book f s = map_option (\<lambda>b. s\<lparr>book := b\<rparr>) (f (book s))"

abbreviation on_book :: "('ma address_book \<Rightarrow> 'ma address_book) \<Rightarrow> 'ma backend \<Rightarrow> 'ma backend" where
  "on_book f s \<equiv> s\<lparr>book := f (book s)\<rparr>"

subsection \<open>Addresses\<close>

definition backend_add_address :: "'ma net_env \<Rightarrow> peer_id \<Rightarrow> 'ma \<Rightarrow> address_source \<Rightarrow> 'ma backend \<Rightarrow> 'ma backend option" where
  "backend_add_address N peer addr source s =
     (let s = (if kad_enabled s then call (KadAddAddress peer addr) s else s)
      in with_book (add_address (net_base N) peer addr source) s)"

definition backend_remove_address :: "'ma net_env \<Rightarrow> peer_id \<Rightarrow> 'ma \<Rightarrow> 'ma backend \<Rightarrow> 'ma backend" where
  "backend_remove_address N peer addr s =
     (let s = on_book (remove_address (net_base N) peer addr) s
      in if kad_enabled s then call (KadRemoveAddress peer addr) s else s)"

datatype 'ma mdns_event = MdnsDiscovered "(peer_id \<times> 'ma) list" | MdnsExpired "(peer_id \<times> 'ma) list"

fun add_addresses :: "'ma net_env \<Rightarrow> address_source \<Rightarrow> (peer_id \<times> 'ma) list \<Rightarrow> 'ma backend \<Rightarrow> 'ma backend option" where
  "add_addresses N source [] s = Some s"
| "add_addresses N source ((peer, addr) # rest) s =
     backend_add_address N peer addr source s \<bind> add_addresses N source rest"

fun inject_mdns_event :: "'ma net_env \<Rightarrow> 'ma mdns_event \<Rightarrow> 'ma backend \<Rightarrow> 'ma backend option" where
  "inject_mdns_event N (MdnsDiscovered list) s = add_addresses N Mdns list s"
| "inject_mdns_event N (MdnsExpired _) s = Some s"

subsection \<open>Events of Kademlia and bitswap\<close>

datatype query_result =
    BootstrapResult "string + u32"
  | GetClosestPeersResult "string + peer_id list"
  | GetProvidersResult "string + peer_id list"
  | StartProvidingResult "string + unit"
  | RepublishProviderResult "string + unit"
  | GetRecordResult "string + kad_record list"
  | PutRecordResult "string + unit"
  | RepublishRecordResult "string + unit"

datatype kad_event = OutboundQueryCompleted nat query_result | OtherKadEvent

fun inject_query_result :: "'ma net_env \<Rightarrow> nat \<Rightarrow> query_result \<Rightarrow> 'ma backend \<Rightarrow> 'ma backend" where
  "inject_query_result N i (BootstrapResult (Inr num_remaining)) s =
     (if num_remaining = 0
      then on_book (notify (net_base N) Bootstrapped)
        (answer_query sel_bootstrap (KadQuery i) (ReplyUnit (Inr ())) (s\<lparr>bootstrapped := True\<rparr>))
      else s)"
| "inject_query_result N i (BootstrapResult (Inl err)) s =
     answer_query sel_bootstrap (KadQuery i) (ReplyUnit (Inl (KadBootstrapError err))) s"
| "inject_query_result N i (GetClosestPeersResult (Inr ps)) s =
     answer_query sel_closest_peers (KadQuery i) (ReplyPeers (Inr ps)) s"
| "inject_query_result N i (GetClosestPeersResult (Inl err)) s =
     answer_query sel_closest_peers (KadQuery i) (ReplyPeers (Inl (KadGetClosestPeersError err))) s"
| "inject_query_result N i (GetProvidersResult (Inr ps)) s =
     answer_query sel_providers (KadQuery i) (ReplyProviders (Inr ps)) s"
| "inject_query_result N i (GetProvidersResult (Inl err)) s =
     answer_query sel_providers (KadQuery i) (ReplyProviders (Inl (KadGetProvidersError err))) s"
| "inject_query_result N i (StartProvidingResult (Inr _)) s =
     answer_query sel_start_providing (KadQuery i) (ReplyUnit (Inr ())) s"
| "inject_query_result N i (StartProvidingResult (Inl err)) s =
     answer_query sel_start_providing (KadQuery i) (ReplyUnit (Inl (KadAddProviderError err))) s"
| "inject_query_result N i (RepublishProviderResult _) s = s"
| "inject_query_result N i (GetRecordResult (Inr rs)) s =
     answer_query sel_get_record (KadQuery i) (ReplyRecords (Inr rs)) s"
| "inject_query_result N i (GetRecordResult (Inl err)) s =
     answer_query sel_get_record (KadQuery i) (ReplyRecords (Inl (KadGetRecordError err))) s"
| "inject_query_result N i (PutRecordResult (Inr _)) s =
     answer_query sel_put_record (KadQuery i) (ReplyUnit (Inr ())) s"
| "inject_query_result N i (PutRecordResult (Inl err)) s =
     answer_query sel_put_record (KadQuery i) (ReplyUnit (Inl (KadPutRecordError err))) s"
| "inject_query_result N i (RepublishRecordResult _) s = s"

fun inject_kad_event :: "'ma net_env \<Rightarrow> kad_event \<Rightarrow> 'ma backend \<Rightarrow> 'ma backend" where
  "inject_kad_event N (OutboundQueryCompleted i result) s = inject_query_result N i result s"
| "inject_kad_event N OtherKadEvent s = s"

datatype bitswap_event = BitswapProgress nat nat | BitswapComplete nat "unit result"

definition send_sync :: "'ma net_env \<Rightarrow> sender \<Rightarrow> sync_event \<Rightarrow> 'ma backend \<Rightarrow> 'ma backend" where
  "send_sync N tx ev s = s\<lparr>sync_sent := sync_sent s @ [(tx, ev, sync_send N (sync_sent s) tx ev)]\<rparr>"

fun inject_bitswap_event :: "'ma net_env \<Rightarrow> bitswap_event \<Rightarrow> 'ma backend \<Rightarrow> 'ma backend" where
  "inject_bitswap_event N (BitswapProgress i missing) s =
     (case hm_get (queries s) (BitswapQuery i) of
        Some (SyncQ tx) \<Rightarrow> send_sync N tx (Progress missing) s
      | _ \<Rightarrow> s)"
| "inject_bitswap_event N (BitswapComplete i result) s =
     (case hm_get (queries s) (BitswapQuery i) of
        None \<Rightarrow> s
      | Some qc \<Rightarrow>
          let s = s\<lparr>queries := hm_remove (BitswapQuery i) (queries s)\<rparr>
          in case qc of
               GetQ ch \<Rightarrow> send_reply ch (ReplyUnit result) s
             | SyncQ tx \<Rightarrow> drop_channel qc (send_sync N tx (Complete result) s)
             | _ \<Rightarrow> drop_channel qc s)"

subsection \<open>Ping and identify\<close>

datatype ping_result = Ping duration | Pong | PingTimeout | PingOther string | PingUnsupported

definition inject_ping_event :: "'ma net_env \<Rightarrow> peer_id \<Rightarrow> ping_result \<Rightarrow> 'ma backend \<Rightarrow> 'ma backend option" where
  "inject_ping_event N peer result s =
     (case result of
        Ping rtt \<Rightarrow> with_book (set_rtt (net_base N) peer (Some rtt)) s
      | Pong \<Rightarrow> Some s
      | PingTimeout \<Rightarrow> with_book (set_rtt (net_base N) peer None) s
      | PingOther _ \<Rightarrow> with_book (set_rtt (net_base N) peer None) s
      | PingUnsupported \<Rightarrow> Some s)"

datatype 'ma identify_event = IdentifyReceived peer_id "'ma identify_info" | OtherIdentifyEvent

fun inject_id_event :: "'ma net_env \<Rightarrow> 'ma identify_event \<Rightarrow> 'ma backend \<Rightarrow> 'ma backend option" where
  "inject_id_event N (IdentifyReceived peer info) s = with_book (set_info (net_base N) peer info) s"
| "inject_id_event N OtherIdentifyEvent s = Some s"

subsection \<open>Topics\<close>

definition broadcast_topic :: "'ma net_env \<Rightarrow> string \<Rightarrow> bytes" where
  "broadcast_topic N topic = topic_hash N topic"

definition unsubscribe :: "'ma net_env \<Rightarrow> string \<Rightarrow> 'ma backend \<Rightarrow> 'ma backend" where
  "unsubscribe N topic s =
     (let s = (if gossipsub_enabled s then call (GossipUnsubscribe topic) s else s)
      in if broadcast_enabled s then call (BroadcastUnsubscribe (broadcast_topic N topic)) s else s)"

definition notify_subscribers :: "'ma net_env \<Rightarrow> string \<Rightarrow> gossip_event \<Rightarrow> 'ma backend \<Rightarrow> 'ma backend" where
  "notify_subscribers N topic ev s =
     (case hm_get (subscriptions s) topic of
        None \<Rightarrow> s
      | Some subscribers \<Rightarrow>
          let (kept, h) = retain_send (gossip_send N) ev subscribers (gossip_sent s);
              s = s\<lparr>subscriptions := hm_insert topic kept (subscriptions s), gossip_sent := h\<rparr>
          in if kept = [] then
               (let s = unsubscribe N topic s
                in s\<lparr>subscriptions := hm_remove topic (subscriptions s)\<rparr>)
             else s)"

datatype gossipsub_event =
    GossipsubMessage bytes string "peer_id option" peer_id
  | GossipsubSubscribed peer_id string
  | GossipsubUnsubscribed peer_id string
  | GossipsubNotSupported peer_id

fun inject_gossip_event :: "'ma net_env \<Rightarrow> gossipsub_event \<Rightarrow> 'ma backend \<Rightarrow> 'ma backend" where
  "inject_gossip_event N (GossipsubMessage data topic source propagation_source) s =
     notify_subscribers N topic
       (GossipMessage (case source of Some p \<Rightarrow> p | None \<Rightarrow> propagation_source) data) s"
| "inject_gossip_event N (GossipsubSubscribed peer topic) s =
     notify_subscribers N topic (GossipSubscribed peer)
       (on_book (notify (net_base N) (Subscribed peer topic)) s)"
| "inject_gossip_event N (GossipsubUnsubscribed peer topic) s =
     notify_subscribers N topic (GossipUnsubscribed peer)
       (on_book (notify (net_base N) (Unsubscribed peer topic)) s)"
| "inject_gossip_event N (GossipsubNotSupported _) s = s"

datatype broadcast_event =
    BroadcastReceived peer_id bytes bytes
  | BroadcastSubscribed peer_id bytes
  | BroadcastUnsubscribed peer_id bytes

fun inject_broadcast_event :: "'ma net_env \<Rightarrow> broadcast_event \<Rightarrow> 'ma backend \<Rightarrow> 'ma backend option" where
  "inject_broadcast_event N (BroadcastReceived peer topic data) s =
     map_option (\<lambda>topic. notify_subscribers N topic (GossipMessage peer data) s) (from_utf8 topic)"
| "inject_broadcast_event N (BroadcastSubscribed peer topic) s =
     Some (case from_utf8 topic of
        Some topic \<Rightarrow> notify_subscribers N topic (GossipSubscribed peer)
          (on_book (notify (net_base N) (Subscribed peer topic)) s)
      | None \<Rightarrow> s)"
| "inject_broadcast_event N (BroadcastUnsubscribed peer topic) s =
     Some (case from_utf8 topic of
        Some topic \<Rightarrow> notify_subscribers N topic (GossipUnsubscribed peer)
          (on_book (notify (net_base N) (Unsubscribed peer topic)) s)
      | None \<Rightarrow> s)"

text \<open>
  \<open>subscribe\<close> returns the receiver of a new channel, here its token. A failing
  \<open>gossipsub.subscribe\<close> returns early, after the table was updated; the receiver is then
  dropped, the sender stays.
\<close>

definition subscribe :: "'ma net_env \<Rightarrow> string \<Rightarrow> 'ma backend \<Rightarrow> sender result \<times> 'ma backend" where
  "subscribe N topic s =
     (if \<not> gossipsub_enabled s \<and> \<not> broadcast_enabled s
      then (Inl (DisabledProtocol ''gossipsub and broadcast''), s)
      else
        let tx = next_channel s;
            s = s\<lparr>next_channel := Suc tx\<rparr>
        in case hm_get (subscriptions s) topic of
             Some subscribers \<Rightarrow>
               (Inr tx, s\<lparr>subscriptions := hm_insert topic (subscribers @ [tx]) (subscriptions s)\<rparr>)
           | None \<Rightarrow>
               let s = s\<lparr>subscriptions := hm_insert (topic_hash N topic) [tx] (subscriptions s)\<rparr>;
                   s = (if gossipsub_enabled s then call (GossipSubscribe topic) s else s)
               in case (if gossipsub_enabled s then gossip_subscribe N (proto_calls s) else Inr True) of
                    Inl err \<Rightarrow> (Inl (SubscriptionError err), s)
                  | Inr _ \<Rightarrow>
                      (Inr tx, if broadcast_enabled s
                               then call (BroadcastSubscribe (broadcast_topic N topic)) s else s))"

definition publish :: "'ma net_env \<Rightarrow> string \<Rightarrow> bytes \<Rightarrow> 'ma backend \<Rightarrow> unit result \<times> 'ma backend" where
  "publish N topic msg s =
     (if gossipsub_enabled s then
        (let s = call (GossipPublish topic msg) s
         in case gossip_publish N (proto_calls s) of
              Inr _ \<Rightarrow> (Inr (), s)
            | Inl InsufficientPeers \<Rightarrow> (Inr (), s)
            | Inl err \<Rightarrow> (Inl (GossipsubPublishError err), s))
      else (Inl (DisabledProtocol ''gossipsub''), s))"

definition broadcast :: "'ma net_env \<Rightarrow> string \<Rightarrow> bytes \<Rightarrow> 'ma backend \<Rightarrow> unit result \<times> 'ma backend" where
  "broadcast N topic msg s =
     (if broadcast_enabled s
      then (Inr (), call (BroadcastSend (broadcast_topic N topic) msg) s)
      else (Inl (DisabledProtocol ''broadcast''), s))"

subsection \<open>Queries\<close>

definition bootstrap :: "'ma net_env \<Rightarrow> oneshot \<Rightarrow> 'ma backend \<Rightarrow> 'ma backend" where
  "bootstrap N tx s =
     (if kad_enabled s then
        (let s = call KadBootstrap s
         in case kad_bootstrap N (proto_calls s) of
              Inr i \<Rightarrow> insert_query (KadQuery i) (BootstrapQ tx) s
            | Inl err \<Rightarrow> send_reply tx (ReplyUnit (Inl (NoKnownPeers err))) s)
      else send_reply tx (ReplyUnit (Inl NotBootstrapped)) s)"

text \<open>When Kademlia is disabled the sender is dropped at the end of the function.\<close>

definition provide :: "'ma net_env \<Rightarrow> kad_key \<Rightarrow> oneshot \<Rightarrow> 'ma backend \<Rightarrow> 'ma backend" where
  "provide N key tx s =
     (if bootstrapped s then
        if kad_enabled s then
          (let s = call (KadStartProviding key) s
           in case kad_start_providing N (proto_calls s) of
                Inr i \<Rightarrow> insert_query (KadQuery i) (StartProvidingQ tx) s
              | Inl err \<Rightarrow> send_reply tx (ReplyUnit (Inl (KadStoreError err))) s)
        else drop_oneshot tx s
      else send_reply tx (ReplyUnit (Inl NotBootstrapped)) s)"

definition unprovide :: "kad_key \<Rightarrow> 'ma backend \<Rightarrow> 'ma backend" where
  "unprovide key s = (if kad_enabled s then call (KadStopProviding key) s else s)"

definition providers :: "'ma net_env \<Rightarrow> kad_key \<Rightarrow> oneshot \<Rightarrow> 'ma backend \<Rightarrow> 'ma backend" where
  "providers N key tx s =
     (if bootstrapped s then
        if kad_enabled s then
          (let s = call (KadGetProviders key) s
           in insert_query (KadQuery (kad_get_providers N (proto_calls s))) (GetProvidersQ tx) s)
        else drop_oneshot tx s
      else send_reply tx (ReplyProviders (Inl NotBootstrapped)) s)"

definition get_record :: "'ma net_env \<Rightarrow> kad_key \<Rightarrow> quorum \<Rightarrow> oneshot \<Rightarrow> 'ma backend \<Rightarrow> 'ma backend" where
  "get_record N key quorum tx s =
     (if bootstrapped s then
        if kad_enabled s then
          (let s = call (KadGetRecord key quorum) s
           in insert_query (KadQuery (kad_get_record N (proto_calls s))) (GetRecordQ tx) s)
        else drop_oneshot tx s
      else send_reply tx (ReplyRecords (Inl NotBootstrapped)) s)"

definition put_record :: "'ma net_env \<Rightarrow> kad_record \<Rightarrow> quorum \<Rightarrow> oneshot \<Rightarrow> 'ma backend \<Rightarrow> 'ma backend" where
  "put_record N rec quorum tx s =
     (if bootstrapped s then
        if kad_enabled s then
          (let s = call (KadPutRecord rec quorum) s
           in case kad_put_record N (proto_calls s) of
                Inr i \<Rightarrow> insert_query (KadQuery i) (PutRecordQ tx) s
              | Inl err \<Rightarrow> send_reply tx (ReplyUnit (Inl (KadStoreError err))) s)
        else drop_oneshot tx s
      else send_reply tx (ReplyUnit (Inl NotBootstrapped)) s)"

definition remove_record :: "kad_key \<Rightarrow> 'ma backend \<Rightarrow> 'ma backend" where
  "remove_record key s = (if kad_enabled s then call (KadRemoveRecord key) s else s)"

text \<open>\<open>get\<close> and \<open>sync\<close> panic when bitswap is disabled.\<close>

definition backend_get :: "'ma net_env \<Rightarrow> cid \<Rightarrow> peer_id list \<Rightarrow> 'ma backend \<Rightarrow>
    ((oneshot \<times> query_id) \<times> 'ma backend) option" where
  "backend_get N c ps s =
     (if \<not> bitswap_enabled s then None
      else
        let tx = GetChannel (next_channel s);
            s = call (BitswapGet c ps) (s\<lparr>next_channel := Suc (next_channel s)\<rparr>);
            i = BitswapQuery (bitswap_get N (proto_calls s))
        in Some ((tx, i), insert_query i (GetQ tx) s))"

definition backend_sync :: "'ma net_env \<Rightarrow> cid \<Rightarrow> peer_id list \<Rightarrow> cid list \<Rightarrow> 'ma backend \<Rightarrow>
    ((sender \<times> query_id) \<times> 'ma backend) option" where
  "backend_sync N c ps missing s =
     (if \<not> bitswap_enabled s then None
      else
        let tx = next_channel s;
            s = call (BitswapSync c ps missing) (s\<lparr>next_channel := Suc tx\<rparr>);
            i = BitswapQuery (bitswap_sync N (proto_calls s))
        in Some ((tx, i), insert_query i (SyncQ tx) s))"

definition cancel :: "query_id \<Rightarrow> 'ma backend \<Rightarrow> 'ma backend option" where
  "cancel i s =
     (let s = remove_query i s
      in case i of
           BitswapQuery j \<Rightarrow> if bitswap_enabled s then Some (call (BitswapCancel j) s) else None
         | KadQuery _ \<Rightarrow> Some s)"

end
