(* ===== verification/Network.thy ===== *)
theory Network
  imports Behaviour
begin

text \<open>
  The network task and the queries its clients hold, \<open>src/src/net/mod.rs\<close>. \<open>poll_swarm\<close> is the loop that
  owns the swarm: it takes what the swarm reports or the next command, whichever comes, and
  runs the handler to completion. The order in which swarm events and commands arrive is
  the list of inputs; between two of them the swarm may call back the address book.
\<close>

subsection \<open>Commands and events\<close>

datatype 'ma listener_event =
    ListenerNewAddr 'ma
  | ListenerExpiredAddr 'ma
  | ListenFailed 'ma string

datatype 'ma network_command =
    CmdListenOn 'ma sender
  | CmdAddExternalAddress 'ma
  | CmdAddAddress peer_id 'ma
  | CmdRemoveAddress peer_id 'ma
  | CmdPrunePeers duration
  | CmdDial peer_id
  | CmdDialAddress peer_id 'ma
  | CmdBan peer_id
  | CmdUnban peer_id
  | CmdBootstrap "(peer_id \<times> 'ma) list" oneshot
  | CmdProviders kad_key oneshot
  | CmdProvide kad_key oneshot
  | CmdUnprovide kad_key
  | CmdGetRecord kad_key quorum oneshot
  | CmdPutRecord kad_record quorum oneshot
  | CmdRemoveRecord kad_key
  | CmdSubscribe string oneshot
  | CmdPublish string bytes oneshot
  | CmdBroadcast string bytes oneshot
  | CmdGet cid "peer_id list" oneshot
  | CmdSync cid "peer_id list" "cid list" oneshot
  | CmdSwarmEvents oneshot
  | CmdCancelQuery query_id

datatype 'ma swarm_event =
    SwConnectionClosed peer_id "'ma connected_point" u32 "connection_error option"
  | SwKad kad_event
  | SwMdns "'ma mdns_event"
  | SwPing peer_id ping_result
  | SwIdentify "'ma identify_event"
  | SwBitswap bitswap_event
  | SwGossipsub gossipsub_event
  | SwBroadcast broadcast_event
  | SwOther

text \<open>
  What \<open>select\<close> yields, and the callbacks of the address book that the swarm makes while it
  is polled.
\<close>

datatype 'ma input =
    SwarmEnded
  | FromSwarm "'ma swarm_event"
  | CommandsEnded
  | Command "'ma network_command"
  | Callback "'ma book_op"

text \<open>
  The state of the task: the behaviour, the spawned forwarders of listener events (listener,
  response channel, event channel) and what was sent on response channels.
\<close>

record 'ma swarm_task =
  backend :: "'ma backend"
  forwarders :: "(listener_id \<times> sender \<times> sender) list"
  listen_failures :: "(sender \<times> 'ma listener_event) list"

definition task_new :: "'ma address_book \<Rightarrow> bool \<Rightarrow> bool \<Rightarrow> bool \<Rightarrow> bool \<Rightarrow> 'ma swarm_task" where
  "task_new b kad bitswap gossip bcast =
     \<lparr>backend = \<lparr>book = b, kad_enabled = kad, bitswap_enabled = bitswap,
        gossipsub_enabled = gossip, broadcast_enabled = bcast, proto_calls = [], outcomes = [],
        sync_sent = [], sync_closed = [], gossip_sent = [], next_channel = 0, queries = [],
        subscriptions = [], bootstrapped = False\<rparr>,
      forwarders = [], listen_failures = []\<rparr>"

subsection \<open>The loop of the network task\<close>

fun on_swarm_event :: "'ma net_env \<Rightarrow> 'ma swarm_event \<Rightarrow> 'ma backend \<Rightarrow> 'ma backend option" where
  "on_swarm_event N (SwConnectionClosed peer cp num cause) s =
     Some (on_book (connection_closed (net_base N) peer cp num cause) s)"
| "on_swarm_event N (SwKad e) s = Some (inject_kad_event N e s)"
| "on_swarm_event N (SwMdns e) s = inject_mdns_event N e s"
| "on_swarm_event N (SwPing peer r) s = inject_ping_event N peer r s"
| "on_swarm_event N (SwIdentify e) s = inject_id_event N e s"
| "on_swarm_event N (SwBitswap e) s = Some (inject_bitswap_event N e s)"
| "on_swarm_event N (SwGossipsub e) s = Some (inject_gossip_event N e s)"
| "on_swarm_event N (SwBroadcast e) s = inject_broadcast_event N e s"
| "on_swarm_event N SwOther s = Some s"

text \<open>\<open>NetworkCommand::Bootstrap\<close>: the initial peers are added and dialled, then the query starts.\<close>

fun add_and_dial :: "'ma net_env \<Rightarrow> (peer_id \<times> 'ma) list \<Rightarrow> 'ma backend \<Rightarrow> 'ma backend option" where
  "add_and_dial N [] s = Some s"
| "add_and_dial N ((peer, addr) # rest) s = do {
     s \<leftarrow> backend_add_address N peer addr User s;
     add_and_dial N rest (on_book (dial peer) s)
   }"

definition subscribe_events :: "'ma backend \<Rightarrow> sender \<times> 'ma backend" where
  "subscribe_events s =
     (let tx = next_channel s in (tx, on_book (swarm_events tx) (s\<lparr>next_channel := Suc tx\<rparr>)))"

fun backend_command :: "'ma net_env \<Rightarrow> 'ma network_command \<Rightarrow> 'ma backend \<Rightarrow> 'ma backend option" where
  "backend_command N (CmdListenOn addr response) s = Some s"
| "backend_command N (CmdAddExternalAddress addr) s = Some (call (SwarmAddExternalAddress addr) s)"
| "backend_command N (CmdAddAddress peer addr) s = backend_add_address N peer addr User s"
| "backend_command N (CmdRemoveAddress peer addr) s = Some (backend_remove_address N peer addr s)"
| "backend_command N (CmdPrunePeers min_age) s = Some (on_book (prune_peers (net_base N) min_age) s)"
| "backend_command N (CmdDial peer) s = Some (on_book (dial peer) s)"
| "backend_command N (CmdDialAddress peer addr) s = Some (on_book (dial_address (net_base N) peer addr) s)"
| "backend_command N (CmdBan peer) s = Some (call (SwarmBan peer) s)"
| "backend_command N (CmdUnban peer) s = Some (call (SwarmUnban peer) s)"
| "backend_command N (CmdBootstrap initial tx) s =
     map_option (bootstrap N tx) (add_and_dial N initial s)"
| "backend_command N (CmdProviders key tx) s = Some (providers N key tx s)"
| "backend_command N (CmdProvide key tx) s = Some (provide N key tx s)"
| "backend_command N (CmdUnprovide key) s = Some (unprovide key s)"
| "backend_command N (CmdGetRecord key quorum tx) s = Some (get_record N key quorum tx s)"
| "backend_command N (CmdPutRecord rec quorum tx) s = Some (put_record N rec quorum tx s)"
| "backend_command N (CmdRemoveRecord key) s = Some (remove_record key s)"
| "backend_command N (CmdSubscribe topic tx) s =
     (let (r, s) = subscribe N topic s in Some (send_reply tx (ReplySubscription r) s))"
| "backend_command N (CmdPublish topic msg tx) s =
     (let (r, s) = publish N topic msg s in Some (send_reply tx (ReplyUnit r) s))"
| "backend_command N (CmdBroadcast topic msg tx) s =
     (let (r, s) = broadcast N topic msg s in Some (send_reply tx (ReplyUnit r) s))"
| "backend_command N (CmdGet c ps tx) s =
     map_option (\<lambda>((rx, i), s). send_reply tx (ReplyGetQuery i rx) s) (backend_get N c ps s)"
| "backend_command N (CmdSync c ps missing tx) s =
     map_option (\<lambda>((rx, i), s). send_reply tx (ReplySyncQuery i rx) s) (backend_sync N c ps missing s)"
| "backend_command N (CmdSwarmEvents result) s =
     (let (rx, s) = subscribe_events s in Some (send_reply result (ReplySwarmEvents rx) s))"
| "backend_command N (CmdCancelQuery i) s = cancel i s"

definition listen_on :: "'ma net_env \<Rightarrow> 'ma \<Rightarrow> sender \<Rightarrow> 'ma swarm_task \<Rightarrow> 'ma swarm_task" where
  "listen_on N addr response t =
     (let (rx, s) = subscribe_events (backend t);
          s = call (SwarmListenOn addr) s;
          t = t\<lparr>backend := s\<rparr>
      in case swarm_listen_on N (proto_calls s) of
           Inr listener \<Rightarrow> t\<lparr>forwarders := forwarders t @ [(listener, response, rx)]\<rparr>
         | Inl err \<Rightarrow> t\<lparr>listen_failures := listen_failures t @ [(response, ListenFailed addr err)]\<rparr>)"

definition swarm_command :: "'ma net_env \<Rightarrow> 'ma network_command \<Rightarrow> 'ma swarm_task \<Rightarrow> 'ma swarm_task option" where
  "swarm_command N cmd t =
     (case cmd of
        CmdListenOn addr response \<Rightarrow> Some (listen_on N addr response t)
      | _ \<Rightarrow> map_option (\<lambda>s. t\<lparr>backend := s\<rparr>) (backend_command N cmd (backend t)))"

text \<open>When the task returns its tables are dropped, and with them every channel they hold.\<close>

definition drop_tables :: "'ma backend \<Rightarrow> 'ma backend" where
  "drop_tables s = (fold drop_channel (map snd (queries s)) s)\<lparr>queries := [], subscriptions := []\<rparr>"

text \<open>One round of the loop: the result says whether the task returns.\<close>

fun swarm_step :: "'ma net_env \<Rightarrow> 'ma input \<Rightarrow> 'ma swarm_task \<Rightarrow> (bool \<times> 'ma swarm_task) option" where
  "swarm_step N SwarmEnded t = Some (True, t\<lparr>backend := drop_tables (backend t)\<rparr>)"
| "swarm_step N CommandsEnded t = Some (True, t\<lparr>backend := drop_tables (backend t)\<rparr>)"
| "swarm_step N (FromSwarm e) t =
     map_option (\<lambda>s. (False, t\<lparr>backend := s\<rparr>)) (on_swarm_event N e (backend t))"
| "swarm_step N (Command cmd) t = map_option (Pair False) (swarm_command N cmd t)"
| "swarm_step N (Callback op) t =
     map_option (\<lambda>s. (False, t\<lparr>backend := s\<rparr>)) (with_book (book_step (net_base N) op) (backend t))"

fun poll_swarm :: "'ma net_env \<Rightarrow> 'ma input list \<Rightarrow> 'ma swarm_task \<Rightarrow> (bool \<times> 'ma swarm_task) option" where
  "poll_swarm N [] t = Some (False, t)"
| "poll_swarm N (i # is) t =
     swarm_step N i t \<bind> (\<lambda>(ended, t). if ended then Some (True, t) else poll_swarm N is t)"

subsection \<open>Listener events\<close>

text \<open>
  \<open>forward_listener_events\<close> on the events it receives: what it sends on the response channel
  whose \<open>n\<close>-th send succeeds as \<open>ok n\<close> says. It stops at the end of the listener and at the
  first failed send.
\<close>

fun forward_listener_events :: "listener_id \<Rightarrow> (nat \<Rightarrow> bool) \<Rightarrow> nat \<Rightarrow> 'ma event list \<Rightarrow> 'ma listener_event list" where
  "forward_listener_events l ok n [] = []"
| "forward_listener_events l ok n (ev # evs) =
     (case ev of
        ListenerClosed i \<Rightarrow> if i = l then [] else forward_listener_events l ok n evs
      | NewListenAddr i addr \<Rightarrow>
          if i = l then
            (if ok n then ListenerNewAddr addr # forward_listener_events l ok (Suc n) evs else [])
          else forward_listener_events l ok n evs
      | ExpiredListenAddr i addr \<Rightarrow>
          if i = l then
            (if ok n then ListenerExpiredAddr addr # forward_listener_events l ok (Suc n) evs else [])
          else forward_listener_events l ok n evs
      | _ \<Rightarrow> forward_listener_events l ok n evs)"

subsection \<open>Queries held by clients\<close>

text \<open>A sync query: the queued events of its channel and whether the sender is gone.\<close>

record sync_query =
  sq_id :: "query_id option"
  sq_events :: "sync_event list"
  sq_closed :: bool

definition sync_query_ready :: "unit result \<Rightarrow> sync_query" where
  "sync_query_ready r = \<lparr>sq_id = None, sq_events = [Complete r], sq_closed = True\<rparr>"

definition sync_poll_next :: "sync_query \<Rightarrow> sync_event option poll \<times> sync_query" where
  "sync_poll_next q =
     (case sq_events q of
        ev # evs \<Rightarrow> (Ready (Some ev), q\<lparr>sq_events := evs\<rparr>)
      | [] \<Rightarrow> (if sq_closed q then Ready None else Pending, q))"

text \<open>\<open>SyncQuery::poll\<close> loops over \<open>poll_next\<close> until the query completes or is pending.\<close>

partial_function (option) sync_poll :: "sync_query \<Rightarrow> (unit result poll \<times> sync_query) option" where
  "sync_poll q =
     (case sync_poll_next q of
        (Ready (Some (Complete result)), q') \<Rightarrow> Some (Ready result, q')
      | (Ready _, q') \<Rightarrow> sync_poll q'
      | (Pending, q') \<Rightarrow> Some (Pending, q'))"

text \<open>Dropping a query that runs in the network task asks for its cancellation.\<close>

definition sync_query_drop :: "sync_query \<Rightarrow> 'ma network_command list" where
  "sync_query_drop q = (case sq_id q of Some i \<Rightarrow> [CmdCancelQuery i] | None \<Rightarrow> [])"

text \<open>A get query awaits a one-shot channel; it asks for cancellation whenever it is dropped.\<close>

datatype oneshot_state = Waiting | Received "unit result" | SenderDropped

definition get_poll :: "oneshot_state \<Rightarrow> unit result poll" where
  "get_poll rx =
     (case rx of
        Received result \<Rightarrow> Ready result
      | SenderDropped \<Rightarrow> Ready (Inl Canceled)
      | Waiting \<Rightarrow> Pending)"

definition get_query_drop :: "query_id \<Rightarrow> 'ma network_command list" where
  "get_query_drop i = [CmdCancelQuery i]"

end
