(* ===== verification/NetworkProperties.thy ===== *)
theory NetworkProperties
  imports Network BookProperties "HOL-Library.Multiset"
begin

text \<open>
  What the network task promises its clients: it does not panic, every reply channel that
  is handed to it is resolved exactly once, queries are refused before the bootstrap, topic
  subscribers receive the events of their topic in order, and the node is subscribed to
  exactly the topics somebody listens to.
\<close>

text \<open>A lookup stays a lookup.\<close>

declare map_of_eq_Some_iff [simp del] Some_eq_map_of_iff [simp del]

subsection \<open>Accounting of reply channels\<close>

text \<open>
  The channels that wait in the query table and those that are resolved, counted with
  multiplicity.
\<close>

definition channel_mset :: "query_channel \<Rightarrow> oneshot multiset" where
  "channel_mset qc = (case channel_oneshot qc of None \<Rightarrow> {#} | Some ch \<Rightarrow> {#ch#})"

fun table_mset :: "(query_id, query_channel) hashmap \<Rightarrow> oneshot multiset" where
  "table_mset [] = {#}"
| "table_mset ((_, qc) # m) = channel_mset qc + table_mset m"

definition pending :: "'ma backend \<Rightarrow> oneshot multiset" where
  "pending s = table_mset (queries s)"

definition resolved :: "'ma backend \<Rightarrow> oneshot multiset" where
  "resolved s = mset (map fst (outcomes s))"

definition tracked :: "'ma backend \<Rightarrow> oneshot multiset" where
  "tracked s = pending s + resolved s"

lemma table_mset_insert:
  "hm_ok m \<Longrightarrow> table_mset (hm_insert i qc m) +
     (case hm_get m i of Some old \<Rightarrow> channel_mset old | None \<Rightarrow> {#}) = table_mset m + channel_mset qc"
  by (induction m) (auto simp: ac_simps split: option.splits)

lemma delete_fresh: "k \<notin> fst ` set m \<Longrightarrow> AList.delete k m = m"
  by (induction m) auto

lemma table_mset_remove:
  "hm_ok m \<Longrightarrow> table_mset (hm_remove i m) +
     (case hm_get m i of Some old \<Rightarrow> channel_mset old | None \<Rightarrow> {#}) = table_mset m"
  by (induction m) (auto simp: ac_simps delete_fresh split: option.splits)

lemma drop_channel_frame [simp]:
  "queries (drop_channel qc s) = queries s" "book (drop_channel qc s) = book s"
  "subscriptions (drop_channel qc s) = subscriptions s" "gossip_sent (drop_channel qc s) = gossip_sent s"
  "proto_calls (drop_channel qc s) = proto_calls s" "bootstrapped (drop_channel qc s) = bootstrapped s"
  "next_channel (drop_channel qc s) = next_channel s"
  "kad_enabled (drop_channel qc s) = kad_enabled s" "bitswap_enabled (drop_channel qc s) = bitswap_enabled s"
  "gossipsub_enabled (drop_channel qc s) = gossipsub_enabled s"
  "broadcast_enabled (drop_channel qc s) = broadcast_enabled s"
  by (simp_all add: drop_channel_def drop_oneshot_def split: query_channel.splits option.splits)

lemma resolved_drop_channel [simp]: "resolved (drop_channel qc s) = resolved s + channel_mset qc"
  by (cases qc) (simp_all add: drop_channel_def drop_oneshot_def resolved_def channel_mset_def)

lemma tracked_insert_query:
  assumes "hm_ok (queries s)"
  shows "tracked (insert_query i qc s) = tracked s + channel_mset qc"
proof -
  have r: "resolved (x\<lparr>queries := q\<rparr>) = resolved x" for x :: "'a backend" and q
    by (simp add: resolved_def)
  show ?thesis
    using table_mset_insert [OF assms, of i qc]
    by (auto simp: insert_query_def Let_def tracked_def pending_def r ac_simps split: option.splits)
qed

text \<open>A selector finds only the channel that the entry holds.\<close>

definition selects :: "(query_channel \<Rightarrow> oneshot option) \<Rightarrow> bool" where
  "selects sel \<longleftrightarrow> (\<forall>qc ch. sel qc = Some ch \<longrightarrow> channel_oneshot qc = Some ch)"

lemma selects_sel [simp]:
  "selects sel_get" "selects sel_bootstrap" "selects sel_closest_peers" "selects sel_providers"
  "selects sel_start_providing" "selects sel_get_record" "selects sel_put_record"
  by (auto simp: selects_def sel_get_def sel_bootstrap_def sel_closest_peers_def sel_providers_def
      sel_start_providing_def sel_get_record_def sel_put_record_def split: query_channel.splits)

text \<open>Removing an entry and resolving its channel, in whatever way, keeps the account.\<close>

lemma tracked_take:
  assumes "hm_ok (queries s)" "hm_get (queries s) i = Some qc"
    "queries s' = hm_remove i (queries s)" "resolved s' = resolved s + channel_mset qc"
  shows "tracked s' = tracked s"
  using table_mset_remove [OF assms(1), of i] assms(2-)
  by (simp add: tracked_def pending_def ac_simps)

lemma resolved_send_reply [simp]: "resolved (send_reply ch r s) = add_mset ch (resolved s)"
  by (simp add: send_reply_def resolved_def)

lemma resolved_frame [simp]:
  "resolved (s\<lparr>queries := q\<rparr>) = resolved s" "resolved (s\<lparr>book := b\<rparr>) = resolved s"
  "resolved (s\<lparr>bootstrapped := x\<rparr>) = resolved s" "resolved (s\<lparr>next_channel := k\<rparr>) = resolved s"
  "resolved (s\<lparr>subscriptions := m\<rparr>) = resolved s" "resolved (s\<lparr>gossip_sent := h\<rparr>) = resolved s"
  "resolved (call c s) = resolved s" "resolved (send_sync N tx ev s) = resolved s"
  by (simp_all add: resolved_def call_def send_sync_def)

lemma queries_frame [simp]:
  "queries (send_reply ch r s) = queries s" "queries (drop_oneshot ch s) = queries s"
  "queries (call c s) = queries s" "queries (send_sync N tx ev s) = queries s"
  by (simp_all add: send_reply_def drop_oneshot_def call_def send_sync_def)

lemma tracked_answer_query:
  assumes "hm_ok (queries s)" "selects sel"
  shows "tracked (answer_query sel i r s) = tracked s"
proof (cases "hm_get (queries s) i")
  case (Some qc)
  show ?thesis
    by (rule tracked_take [OF assms(1) Some])
      (use assms(2) Some in \<open>auto simp: selects_def answer_query_def Let_def channel_mset_def split: option.splits\<close>)
qed (simp add: answer_query_def)

lemma tracked_remove_query:
  assumes "hm_ok (queries s)"
  shows "tracked (remove_query i s) = tracked s"
proof (cases "hm_get (queries s) i")
  case (Some qc)
  show ?thesis
    by (rule tracked_take [OF assms Some]) (use Some in \<open>simp_all add: remove_query_def\<close>)
qed (simp add: remove_query_def)

lemma hm_ok_queries [simp]:
  "hm_ok (queries s) \<Longrightarrow> hm_ok (queries (insert_query i qc s))"
  "hm_ok (queries s) \<Longrightarrow> hm_ok (queries (remove_query i s))"
  "hm_ok (queries s) \<Longrightarrow> hm_ok (queries (answer_query sel i r s))"
  by (auto simp: insert_query_def remove_query_def answer_query_def Let_def split: option.splits)

text \<open>
  The account of a handler: it keeps the query table well formed and tracks exactly the
  given channels in addition.
\<close>

definition accounts :: "'ma backend \<Rightarrow> 'ma backend \<Rightarrow> oneshot multiset \<Rightarrow> bool" where
  "accounts s s' A \<longleftrightarrow> (hm_ok (queries s) \<longrightarrow> hm_ok (queries s') \<and> tracked s' = tracked s + A) \<and>
     next_channel s \<le> next_channel s'"

lemma accounts_refl [simp]: "accounts s s {#}"
  by (simp add: accounts_def)

lemma accounts_trans: "accounts s s1 A \<Longrightarrow> accounts s1 s2 B \<Longrightarrow> accounts s s2 (A + B)"
  by (auto simp: accounts_def)

lemma accounts_trans0: "accounts s s1 {#} \<Longrightarrow> accounts s1 s2 B \<Longrightarrow> accounts s s2 B"
  using accounts_trans by fastforce

text \<open>A change of other fields.\<close>

lemma accounts_frame:
  "queries s' = queries s \<Longrightarrow> outcomes s' = outcomes s \<Longrightarrow> next_channel s \<le> next_channel s' \<Longrightarrow> accounts s s' {#}"
  by (simp add: accounts_def tracked_def pending_def resolved_def)

lemma next_channel_frame [simp]:
  "next_channel (insert_query i qc s) = next_channel s" "next_channel (remove_query i s) = next_channel s"
  "next_channel (answer_query sel i r s) = next_channel s" "next_channel (send_reply ch r s) = next_channel s"
  "next_channel (call c s) = next_channel s" "next_channel (drop_oneshot ch s) = next_channel s"
  "next_channel (send_sync N tx ev s) = next_channel s"
  by (simp_all add: insert_query_def remove_query_def answer_query_def send_reply_def call_def
      drop_oneshot_def send_sync_def Let_def split: option.splits)

lemma tracked_frame [simp]:
  "tracked (call c s) = tracked s" "tracked (s\<lparr>next_channel := k\<rparr>) = tracked s"
  "tracked (s\<lparr>book := b\<rparr>) = tracked s" "tracked (s\<lparr>bootstrapped := x\<rparr>) = tracked s"
  "tracked (send_reply ch r s) = add_mset ch (tracked s)"
  "tracked (drop_oneshot ch s) = add_mset ch (tracked s)"
  by (simp_all add: tracked_def pending_def) (simp add: drop_oneshot_def resolved_def)

lemma accounts_inject_query_result: "accounts s (inject_query_result N i r s) {#}"
  by (induction N i r s rule: inject_query_result.induct) (auto simp: accounts_def tracked_answer_query)

lemma accounts_inject_kad_event: "accounts s (inject_kad_event N e s) {#}"
  by (cases e) (simp_all add: accounts_inject_query_result)

lemma accounts_inject_bitswap_event: "accounts s (inject_bitswap_event N e s) {#}"
proof (cases e)
  case (BitswapProgress i missing)
  have "accounts s (send_sync N tx ev s) {#}" for tx ev
    by (rule accounts_frame) (simp_all add: send_sync_def)
  with BitswapProgress show ?thesis
    by (auto split: option.splits query_channel.splits)
next
  case (BitswapComplete i result)
  show ?thesis
  proof (cases "hm_get (queries s) (BitswapQuery i)")
    case None
    with BitswapComplete show ?thesis by simp
  next
    case (Some qc)
    let ?s = "inject_bitswap_event N e s"
    have "queries ?s = hm_remove (BitswapQuery i) (queries s)"
      "resolved ?s = resolved s + channel_mset qc" "next_channel ?s = next_channel s"
      using BitswapComplete Some
      by (auto simp: Let_def channel_mset_def split: query_channel.splits)
    with Some show ?thesis
      by (auto simp: accounts_def intro: tracked_take)
  qed
qed

lemma accounts_with_book: "with_book f s = Some s' \<Longrightarrow> accounts s s' {#}"
  by (auto simp: with_book_def intro: accounts_frame)

lemma accounts_call [simp]: "accounts s (call c s) {#}"
  by (rule accounts_frame) (simp_all add: call_def)

lemma accounts_on_book [simp]: "accounts s (s\<lparr>book := b\<rparr>) {#}"
  by (rule accounts_frame) simp_all

lemma accounts_unsubscribe: "accounts s (unsubscribe N topic s) {#}"
  using accounts_trans0 [OF accounts_call accounts_call] by (auto simp: unsubscribe_def Let_def)

lemma accounts_notify_subscribers: "accounts s (notify_subscribers N topic ev s) {#}"
proof (cases "hm_get (subscriptions s) topic")
  case (Some subs)
  obtain kept h where r: "retain_send (gossip_send N) ev subs (gossip_sent s) = (kept, h)" by (cases "retain_send (gossip_send N) ev subs (gossip_sent s)")
  let ?s = "s\<lparr>subscriptions := hm_insert topic kept (subscriptions s), gossip_sent := h\<rparr>"
  have 1: "accounts s ?s {#}" by (rule accounts_frame) simp_all
  have 2: "accounts x (x\<lparr>subscriptions := m\<rparr>) {#}" for x :: "'a backend" and m
    by (rule accounts_frame) simp_all
  show ?thesis
    using 1 accounts_trans0 [OF 1 accounts_trans0 [OF accounts_unsubscribe 2]]
    by (auto simp: notify_subscribers_def Some r Let_def)
qed (simp add: notify_subscribers_def)

lemma accounts_backend_add_address: "backend_add_address N p a src s = Some s' \<Longrightarrow> accounts s s' {#}"
  by (auto simp: backend_add_address_def Let_def split: if_splits
      intro: accounts_with_book accounts_trans0 [OF accounts_call accounts_with_book])

lemma accounts_add_addresses: "add_addresses N src as s = Some s' \<Longrightarrow> accounts s s' {#}"
  by (induction N src as s rule: add_addresses.induct)
    (auto simp: bind_eq_Some_conv intro: accounts_trans0 [OF accounts_backend_add_address])

lemma accounts_on_swarm_event:
  assumes "on_swarm_event N e s = Some s'"
  shows "accounts s s' {#}"
proof -
  note notify = accounts_trans0 [OF accounts_on_book accounts_notify_subscribers]
  have gossip: "accounts s (inject_gossip_event N g s) {#}" for g
    by (cases g) (simp_all add: accounts_notify_subscribers notify)
  have bcast: "inject_broadcast_event N g s = Some s' \<Longrightarrow> accounts s s' {#}" for g
    by (cases g) (auto simp: accounts_notify_subscribers notify split: option.splits)
  have ping: "inject_ping_event N p r s = Some s' \<Longrightarrow> accounts s s' {#}" for p r
    by (auto simp: inject_ping_event_def intro: accounts_with_book split: ping_result.splits)
  have ident: "inject_id_event N g s = Some s' \<Longrightarrow> accounts s s' {#}" for g
    by (cases g) (auto intro: accounts_with_book)
  have mdns: "inject_mdns_event N g s = Some s' \<Longrightarrow> accounts s s' {#}" for g
    by (cases g) (auto intro: accounts_add_addresses)
  from assms show ?thesis
    by (cases e) (auto simp: accounts_inject_kad_event accounts_inject_bitswap_event
        intro: gossip bcast ping ident mdns)
qed

subsection \<open>Commands\<close>

fun cmd_channels :: "'ma network_command \<Rightarrow> oneshot list" where
  "cmd_channels (CmdBootstrap _ tx) = [tx]"
| "cmd_channels (CmdProviders _ tx) = [tx]"
| "cmd_channels (CmdProvide _ tx) = [tx]"
| "cmd_channels (CmdGetRecord _ _ tx) = [tx]"
| "cmd_channels (CmdPutRecord _ _ tx) = [tx]"
| "cmd_channels (CmdSubscribe _ tx) = [tx]"
| "cmd_channels (CmdPublish _ _ tx) = [tx]"
| "cmd_channels (CmdBroadcast _ _ tx) = [tx]"
| "cmd_channels (CmdGet _ _ tx) = [tx]"
| "cmd_channels (CmdSync _ _ _ tx) = [tx]"
| "cmd_channels (CmdSwarmEvents tx) = [tx]"
| "cmd_channels _ = []"

text \<open>The channels a command makes the task responsible for: its own and the one \<open>get\<close> creates.\<close>

definition new_channels :: "'ma network_command \<Rightarrow> 'ma backend \<Rightarrow> oneshot multiset" where
  "new_channels cmd s = mset (cmd_channels cmd) +
     (case cmd of CmdGet _ _ _ \<Rightarrow> {#GetChannel (next_channel s)#} | _ \<Rightarrow> {#})"

lemma accounts_fresh [simp]: "accounts s (s\<lparr>next_channel := Suc (next_channel s)\<rparr>) {#}"
  by (rule accounts_frame) simp_all

lemma accounts_reply: "accounts s (send_reply tx r s) {#tx#}" "accounts s (drop_oneshot tx s) {#tx#}"
  by (simp_all add: accounts_def)

lemma accounts_reply_after: "accounts s s1 {#} \<Longrightarrow> accounts s (send_reply tx r s1) {#tx#}"
  by (rule accounts_trans0 [OF _ accounts_reply(1)])

lemma accounts_insert: "accounts s (insert_query i qc s) (channel_mset qc)"
  by (simp add: accounts_def tracked_insert_query)

lemmas accounts_query = accounts_trans0 [OF accounts_call accounts_insert]
  accounts_trans0 [OF accounts_call accounts_reply(1)] accounts_reply

lemma accounts_queries:
  "accounts s (bootstrap N tx s) {#tx#}" "accounts s (provide N key tx s) {#tx#}"
  "accounts s (providers N key tx s) {#tx#}" "accounts s (get_record N key q tx s) {#tx#}"
  "accounts s (put_record N rec q tx s) {#tx#}"
  using accounts_query(1) [where qc = "BootstrapQ tx"] accounts_query(1) [where qc = "StartProvidingQ tx"]
    accounts_query(1) [where qc = "GetProvidersQ tx"] accounts_query(1) [where qc = "GetRecordQ tx"]
    accounts_query(1) [where qc = "PutRecordQ tx"]
  by (auto simp: bootstrap_def provide_def providers_def get_record_def put_record_def Let_def
      channel_mset_def accounts_query(2-) split: sum.splits)

lemma accounts_subscribe: "subscribe N topic s = (r, s') \<Longrightarrow> accounts s s' {#}"
  by (intro accounts_frame)
    (auto simp: subscribe_def Let_def call_def split: if_splits option.splits sum.splits)

lemma accounts_publish: "publish N topic msg s = (r, s') \<Longrightarrow> accounts s s' {#}"
  by (auto simp: publish_def Let_def split: if_splits sum.splits publish_error.splits)

lemma accounts_broadcast: "broadcast N topic msg s = (r, s') \<Longrightarrow> accounts s s' {#}"
  by (auto simp: broadcast_def split: if_splits)

lemma accounts_subscribe_events: "subscribe_events s = (tx, s') \<Longrightarrow> accounts s s' {#}"
  by (intro accounts_frame) (auto simp: subscribe_events_def Let_def)

lemma accounts_add_and_dial: "add_and_dial N as s = Some s' \<Longrightarrow> accounts s s' {#}"
  by (induction N as s rule: add_and_dial.induct)
    (auto simp: bind_eq_Some_conv intro: accounts_trans0 [OF accounts_backend_add_address]
      accounts_trans0 [OF accounts_on_book])

lemma accounts_get:
  assumes "backend_get N c ps s = Some ((rx, i), s')"
  shows "accounts s s' {#GetChannel (next_channel s)#}"
proof -
  have "accounts s s' (channel_mset (GetQ (GetChannel (next_channel s))))"
    using assms by (auto simp: backend_get_def Let_def split: if_splits
        intro: accounts_trans0 [OF accounts_fresh accounts_query(1)])
  then show ?thesis by (simp add: channel_mset_def)
qed

lemma accounts_sync:
  assumes "backend_sync N c ps m s = Some ((rx, i), s')"
  shows "accounts s s' {#}"
proof -
  have "accounts s s' (channel_mset (SyncQ (next_channel s)))"
    using assms by (auto simp: backend_sync_def Let_def split: if_splits
        intro: accounts_trans0 [OF accounts_fresh accounts_query(1)])
  then show ?thesis by (simp add: channel_mset_def)
qed

lemma accounts_cancel: "cancel i s = Some s' \<Longrightarrow> accounts s s' {#}"
  by (auto simp: cancel_def Let_def accounts_def tracked_remove_query split: query_id.splits if_splits)

lemma accounts_remove_address: "accounts s (backend_remove_address N p a s) {#}"
  using accounts_trans0 [OF accounts_on_book accounts_call] by (auto simp: backend_remove_address_def Let_def)

lemma accounts_backend_command:
  assumes "backend_command N cmd s = Some s'"
  shows "accounts s s' (new_channels cmd s)"
proof (cases cmd)
  case (CmdGet c ps tx)
  with assms obtain rx i s1 where g: "backend_get N c ps s = Some ((rx, i), s1)"
    "s' = send_reply tx (ReplyGetQuery i rx) s1" by auto
  show ?thesis
    using accounts_trans [OF accounts_get [OF g(1)] accounts_reply(1) [of s1 tx "ReplyGetQuery i rx"]]
    by (simp add: new_channels_def CmdGet g(2) add_mset_commute)
next
  case (CmdBootstrap initial tx)
  with assms show ?thesis
    by (auto simp: new_channels_def intro: accounts_trans0 [OF accounts_add_and_dial accounts_queries(1)])
qed (use assms in \<open>auto simp: new_channels_def accounts_remove_address unprovide_def remove_record_def
    accounts_queries split: prod.splits if_splits
    intro: accounts_backend_add_address accounts_cancel accounts_trans0 [OF accounts_on_book accounts_call]
      accounts_reply_after accounts_subscribe accounts_publish accounts_broadcast accounts_sync
      accounts_subscribe_events\<close>)

lemma accounts_swarm_command:
  assumes "swarm_command N cmd t = Some t'"
  shows "accounts (backend t) (backend t') (new_channels cmd (backend t))"
proof (cases cmd)
  case (CmdListenOn addr response)
  with assms show ?thesis
    by (auto simp: swarm_command_def listen_on_def Let_def new_channels_def split: prod.splits sum.splits
        intro: accounts_trans0 [OF accounts_subscribe_events accounts_call])
qed (use assms in \<open>auto simp: swarm_command_def simp del: backend_command.simps intro: accounts_backend_command\<close>)

subsection \<open>Every request is answered once\<close>

fun input_channels :: "'ma input \<Rightarrow> oneshot list" where
  "input_channels (Command cmd) = cmd_channels cmd"
| "input_channels _ = []"

definition is_end :: "'ma input \<Rightarrow> bool" where
  "is_end i = (case i of SwarmEnded \<Rightarrow> True | CommandsEnded \<Rightarrow> True | _ \<Rightarrow> False)"

text \<open>The reply channels of the commands that the task took from its queue.\<close>

definition submitted :: "'ma input list \<Rightarrow> oneshot list" where
  "submitted is = concat (map input_channels (takeWhile (\<lambda>i. \<not> is_end i) is))"

lemma resolved_drop_all: "resolved (fold drop_channel qcs s) = resolved s + (\<Sum>qc \<leftarrow> qcs. channel_mset qc)"
  by (induction qcs arbitrary: s) (simp_all add: ac_simps)

lemma table_mset_sum: "table_mset m = (\<Sum>qc \<leftarrow> map snd m. channel_mset qc)"
  by (induction m rule: table_mset.induct) simp_all

lemma drop_all_frame [simp]:
  "next_channel (fold drop_channel qcs s) = next_channel s" "book (fold drop_channel qcs s) = book s"
  "bitswap_enabled (fold drop_channel qcs s) = bitswap_enabled s"
  by (induction qcs arbitrary: s) simp_all

lemma drop_tables_spec [simp]:
  "pending (drop_tables s) = {#}" "tracked (drop_tables s) = tracked s" "queries (drop_tables s) = []"
  "next_channel (drop_tables s) = next_channel s" "book (drop_tables s) = book s"
  "bitswap_enabled (drop_tables s) = bitswap_enabled s"
  by (simp_all add: drop_tables_def tracked_def pending_def resolved_drop_all table_mset_sum ac_simps)

text \<open>
  The ledger of the task: the channels it is responsible for are those of the commands it
  took and channels of its own, one for each number it used.
\<close>

definition ledger :: "oneshot list \<Rightarrow> 'ma backend \<Rightarrow> bool" where
  "ledger cs s \<longleftrightarrow> hm_ok (queries s) \<and>
     (\<exists>own. finite own \<and> own \<subseteq> {..<next_channel s} \<and>
        tracked s = mset cs + mset_set (GetChannel ` own))"

lemma ledger_step:
  assumes "ledger cs s" "accounts s s' (mset cs')"
  shows "ledger (cs @ cs') s'"
proof -
  obtain own where own: "finite own" "own \<subseteq> {..<next_channel s}"
    "tracked s = mset cs + mset_set (GetChannel ` own)" "hm_ok (queries s)"
    using assms(1) by (auto simp: ledger_def)
  moreover have "own \<subseteq> {..<next_channel s'}"
    using own(2) assms(2) by (auto simp: accounts_def)
  ultimately show ?thesis
    using assms(2) by (auto simp: ledger_def accounts_def ac_simps intro!: exI [of _ own])
qed

lemma ledger_get:
  assumes "ledger cs s" "accounts s s' (mset cs' + {#GetChannel (next_channel s)#})"
    "next_channel s < next_channel s'"
  shows "ledger (cs @ cs') s'"
proof -
  let ?k = "next_channel s"
  obtain own where own: "finite own" "own \<subseteq> {..<?k}"
    "tracked s = mset cs + mset_set (GetChannel ` own)" "hm_ok (queries s)"
    using assms(1) by (auto simp: ledger_def)
  then have "GetChannel ?k \<notin> GetChannel ` own" by auto
  with own(1) have "mset_set (GetChannel ` insert ?k own) = add_mset (GetChannel ?k) (mset_set (GetChannel ` own))"
    by simp
  moreover have "insert ?k own \<subseteq> {..<next_channel s'}"
    using own(2) assms(3) by auto
  ultimately show ?thesis
    using assms(2) own(1,3,4) by (auto simp: ledger_def accounts_def intro!: exI [of _ "insert ?k own"])
qed

lemma get_next_channel: "backend_get N c ps s = Some (r, s') \<Longrightarrow> next_channel s < next_channel s'"
  by (auto simp: backend_get_def Let_def split: if_splits)

lemma ledger_swarm_command:
  assumes "ledger cs (backend t)" "swarm_command N cmd t = Some t'"
  shows "ledger (cs @ cmd_channels cmd) (backend t')"
proof (cases "\<exists>c ps tx. cmd = CmdGet c ps tx")
  case True
  then obtain c ps tx where cmd: "cmd = CmdGet c ps tx" by blast
  have "next_channel (backend t) < next_channel (backend t')"
    using assms(2) get_next_channel by (fastforce simp: swarm_command_def cmd)
  with accounts_swarm_command [OF assms(2)] ledger_get [OF assms(1)] show ?thesis
    by (simp add: cmd new_channels_def)
next
  case False
  then have "new_channels cmd (backend t) = mset (cmd_channels cmd)"
    by (auto simp: new_channels_def split: network_command.splits)
  with ledger_step [OF assms(1)] accounts_swarm_command [OF assms(2)] show ?thesis by simp
qed

lemma ledger_swarm_step:
  assumes "ledger cs (backend t)" "swarm_step N i t = Some (ended, t')"
  shows "ledger (cs @ input_channels i) (backend t')" "ended = is_end i"
    "ended \<Longrightarrow> pending (backend t') = {#}"
proof -
  have drop: "ledger cs (drop_tables s)" if "ledger cs s" for s :: "'a backend"
    using that by (auto simp: ledger_def)
  have keep: "ledger cs s'" if "accounts (backend t) s' {#}" for s'
    using ledger_step [OF assms(1), of s' "[]"] that by simp
  show "ledger (cs @ input_channels i) (backend t')"
  proof (cases i)
    case (Command cmd)
    with assms show ?thesis by (auto intro: ledger_swarm_command)
  next
    case (FromSwarm e)
    with assms(2) show ?thesis by (auto intro!: keep accounts_on_swarm_event)
  next
    case (Callback op)
    with assms(2) show ?thesis by (auto intro!: keep accounts_with_book)
  qed (use assms in \<open>auto intro: drop\<close>)
  show "ended = is_end i" "ended \<Longrightarrow> pending (backend t') = {#}"
    using assms(2) by (cases i; auto simp: is_end_def)+
qed

lemma ledger_run:
  assumes "ledger cs (backend t)" "poll_swarm N is t = Some (ended, t')"
  shows "ledger (cs @ submitted is) (backend t') \<and> (ended \<longrightarrow> pending (backend t') = {#})"
  using assms
proof (induction "is" arbitrary: cs t)
  case Nil
  then show ?case by (simp add: submitted_def)
next
  case (Cons i "is")
  then obtain e t1 where step: "swarm_step N i t = Some (e, t1)"
    "if e then ended \<and> t' = t1 else poll_swarm N is t1 = Some (ended, t')"
    by (auto simp: bind_eq_Some_conv split: if_splits)
  note l = ledger_swarm_step [OF Cons.prems(1) step(1)]
  show ?case
  proof (cases e)
    case True
    then have "submitted (i # is) = []" "input_channels i = []"
      using l(2) by (auto simp: submitted_def is_end_def split: input.splits)
    with True l step(2) show ?thesis by simp
  next
    case False
    then have "submitted (i # is) = input_channels i @ submitted is"
      using l(2) by (simp add: submitted_def)
    with Cons.IH [OF l(1)] step(2) False show ?thesis by simp
  qed
qed

lemma resolved_once:
  assumes "poll_swarm N is (task_new b kad bitswap gossip bcast) = Some (ended, t)"
    "distinct (submitted is)" "\<forall>ch \<in> set (submitted is). \<exists>k. ch = CommandChannel k"
  shows "(\<forall>ch. count (resolved (backend t)) ch \<le> 1) \<and>
    (\<forall>ch \<in> set (submitted is). count (pending (backend t)) ch + count (resolved (backend t)) ch = 1) \<and>
    (ended \<longrightarrow> (\<forall>ch \<in> set (submitted is). count (resolved (backend t)) ch = 1)) \<and>
    (\<forall>k. CommandChannel k \<notin> set (submitted is) \<longrightarrow> count (resolved (backend t)) (CommandChannel k) = 0)"
proof -
  have "ledger [] (backend (task_new b kad bitswap gossip bcast))"
    by (auto simp: ledger_def task_new_def tracked_def pending_def resolved_def)
  from ledger_run [OF this assms(1)] obtain own where
    own: "finite own" "tracked (backend t) = mset (submitted is) + mset_set (GetChannel ` own)"
      "ended \<longrightarrow> pending (backend t) = {#}"
    by (auto simp: ledger_def)
  have cmd: "count (mset_set (GetChannel ` own)) ch = 0" if "ch \<in> set (submitted is)" for ch
    using that assms(3) by (cases ch) (auto simp: count_mset_set')
  have le: "count (tracked (backend t)) ch \<le> 1" for ch
    using cmd [of ch] assms(2) own(1)
    by (cases "ch \<in> set (submitted is)")
      (auto simp: own(2) count_mset_set' distinct_count_atmost_1 not_in_iff [symmetric])
  have one: "count (tracked (backend t)) ch = 1" if "ch \<in> set (submitted is)" for ch
    using that cmd assms(2) by (simp add: own(2) distinct_count_atmost_1)
  have zero: "count (resolved (backend t)) (CommandChannel k) = 0" if "CommandChannel k \<notin> set (submitted is)" for k
  proof -
    have "count (tracked (backend t)) (CommandChannel k) = 0"
      using that own(1) by (simp add: own(2) count_mset_set' image_iff not_in_iff [symmetric])
    then show ?thesis by (simp add: tracked_def)
  qed
  show ?thesis
    using le one own(3) zero by (auto simp: tracked_def intro: le_trans [OF le_add2])
qed

text \<open>
  C1. Every request is answered exactly once: whatever the network does and however events
  and commands interleave, no reply channel is ever resolved twice, each channel the task
  took with a command is either still waiting in the query table or resolved once (with a
  reply, or by being dropped, which the caller sees as a cancellation), and when the task
  ends none is left waiting.
\<close>

theorem every_request_resolved_once:
  assumes "poll_swarm N is (task_new b kad bitswap gossip bcast) = Some (ended, t)"
    "distinct (submitted is)" "\<forall>ch \<in> set (submitted is). \<exists>k. ch = CommandChannel k"
  shows "(\<forall>ch. count (resolved (backend t)) ch \<le> 1) \<and>
    (\<forall>ch \<in> set (submitted is). count (pending (backend t)) ch + count (resolved (backend t)) ch = 1) \<and>
    (ended \<longrightarrow> (\<forall>ch \<in> set (submitted is). count (resolved (backend t)) ch = 1))"
  using resolved_once [OF assms] by blast

text \<open>
  A concrete network: queries are numbered by the calls so far, subscribing and publishing
  succeed, a topic hashes to itself.
\<close>

definition sample_net :: "protocol list net_env" where
  "sample_net = \<lparr>net_base = sample_env, kad_bootstrap = (\<lambda>cs. Inr (length cs)),
     kad_start_providing = (\<lambda>cs. Inr (length cs)), kad_get_providers = length,
     kad_get_record = length, kad_put_record = (\<lambda>cs. Inr (length cs)),
     gossip_subscribe = (\<lambda>_. Inr True), gossip_publish = (\<lambda>_. Inr ()),
     bitswap_get = length, bitswap_sync = length, swarm_listen_on = (\<lambda>cs. Inr (length cs)),
     topic_hash = id, sync_send = (\<lambda>h tx ev. True), gossip_send = (\<lambda>h tx ev. True)\<rparr>"

definition sample_task :: "protocol list swarm_task" where
  "sample_task = task_new sample_book True True True True"

theorem every_request_resolved_once_witness:
  "\<exists>t. poll_swarm sample_net [Command (CmdProvide ''k'' (CommandChannel 1)),
       Command (CmdGet 1 [5] (CommandChannel 2)), CommandsEnded] sample_task = Some (True, t) \<and>
     (\<forall>ch \<in> {CommandChannel 1, CommandChannel 2}. count (resolved (backend t)) ch = 1)"
proof -
  let ?is = "[Command (CmdProvide ''k'' (CommandChannel 1)), Command (CmdGet 1 [5] (CommandChannel 2)),
    CommandsEnded] :: protocol list input list"
  obtain t where t: "poll_swarm sample_net ?is sample_task = Some (True, t)"
    by (simp add: sample_task_def task_new_def swarm_command_def provide_def backend_get_def Let_def
        send_reply_def call_def)
  have "submitted ?is = [CommandChannel 1, CommandChannel 2]"
    by (simp add: submitted_def is_end_def)
  with every_request_resolved_once [OF t [unfolded sample_task_def]] t show ?thesis
    by auto
qed

subsection \<open>The network task does not panic\<close>

text \<open>
  What the task needs of an input: \<open>get\<close>, \<open>sync\<close> and the cancellation of a bitswap query need
  bitswap to be enabled, a broadcast message needs a topic that is a string, a measured
  round-trip time leaves room for the averages.
\<close>

fun command_ok :: "bool \<Rightarrow> 'ma network_command \<Rightarrow> bool" where
  "command_ok bitswap (CmdGet _ _ _) = bitswap"
| "command_ok bitswap (CmdSync _ _ _ _) = bitswap"
| "command_ok bitswap (CmdCancelQuery i) = (case i of BitswapQuery _ \<Rightarrow> bitswap | KadQuery _ \<Rightarrow> True)"
| "command_ok bitswap _ = True"

fun input_ok :: "bool \<Rightarrow> 'ma input \<Rightarrow> bool" where
  "input_ok bitswap (Command cmd) = command_ok bitswap cmd"
| "input_ok bitswap (FromSwarm e) =
     (case e of
        SwBroadcast (BroadcastReceived _ topic _) \<Rightarrow> from_utf8 topic \<noteq> None
      | SwPing _ (Ping d) \<Rightarrow> dur_ok d
      | _ \<Rightarrow> True)"
| "input_ok bitswap (Callback op) = op_ok op"
| "input_ok bitswap _ = True"

definition net_inv :: "'ma net_env \<Rightarrow> bool \<Rightarrow> nat \<Rightarrow> 'ma backend \<Rightarrow> bool" where
  "net_inv N bitswap n s \<longleftrightarrow> book_inv (net_base N) n (book s) \<and> bitswap_enabled s = bitswap"

lemma net_inv_frame [simp]:
  "net_inv N w n (call c s) = net_inv N w n s" "net_inv N w n (send_reply ch r s) = net_inv N w n s"
  "net_inv N w n (drop_oneshot ch s) = net_inv N w n s" "net_inv N w n (drop_channel qc s) = net_inv N w n s"
  "net_inv N w n (s\<lparr>queries := q\<rparr>) = net_inv N w n s" "net_inv N w n (s\<lparr>next_channel := k\<rparr>) = net_inv N w n s"
  "net_inv N w n (s\<lparr>subscriptions := m\<rparr>) = net_inv N w n s" "net_inv N w n (s\<lparr>gossip_sent := h\<rparr>) = net_inv N w n s"
  "net_inv N w n (s\<lparr>bootstrapped := x\<rparr>) = net_inv N w n s" "net_inv N w n (send_sync N' tx ev s) = net_inv N w n s"
  "net_inv N w n (drop_tables s) = net_inv N w n s"
  by (simp_all add: net_inv_def call_def send_reply_def drop_oneshot_def send_sync_def)

lemma net_inv_tables [simp]:
  "net_inv N w n (insert_query i qc s) = net_inv N w n s" "net_inv N w n (remove_query i s) = net_inv N w n s"
  "net_inv N w n (answer_query sel i r s) = net_inv N w n s"
  by (simp_all add: insert_query_def remove_query_def answer_query_def Let_def split: option.splits)

lemma net_inv_notify [simp]: "net_inv N w n (s\<lparr>book := notify E ev (book s)\<rparr>) = net_inv N w n s"
  by (simp add: net_inv_def)

lemma net_inv_mono: "net_inv N w n s \<Longrightarrow> n \<le> m \<Longrightarrow> net_inv N w m s"
  by (auto simp: net_inv_def intro: book_inv_mono)

lemma net_inv_topics [simp]:
  "net_inv N w n (unsubscribe N' topic s) = net_inv N w n s"
  "net_inv N w n (notify_subscribers N' topic ev s) = net_inv N w n s"
proof -
  show "net_inv N w n (unsubscribe N' topic s) = net_inv N w n s" for s
    by (simp add: unsubscribe_def Let_def)
  then show "net_inv N w n (notify_subscribers N' topic ev s) = net_inv N w n s"
    by (simp add: notify_subscribers_def Let_def split: option.splits prod.splits)
qed

lemma net_inv_results [simp]:
  "net_inv N w n (inject_query_result N i r s) = net_inv N w n s"
  "net_inv N w n (inject_kad_event N e s) = net_inv N w n s"
  "net_inv N w n (inject_bitswap_event N be s) = net_inv N w n s"
  "net_inv N w n (inject_gossip_event N ge s) = net_inv N w n s"
proof -
  show r: "net_inv N w n (inject_query_result N i r s) = net_inv N w n s" for i r s
    by (induction N i r s rule: inject_query_result.induct) simp_all
  show "net_inv N w n (inject_kad_event N e s) = net_inv N w n s"
    by (cases e) (simp_all add: r)
  show "net_inv N w n (inject_bitswap_event N be s) = net_inv N w n s"
    by (cases be) (auto simp: Let_def split: option.splits query_channel.splits)
  show "net_inv N w n (inject_gossip_event N ge s) = net_inv N w n s"
    by (cases ge) simp_all
qed

lemma net_inv_with_book:
  "net_inv N w n s \<Longrightarrow> (book_inv (net_base N) n (book s) \<Longrightarrow> returns (book_inv (net_base N) m) (f (book s))) \<Longrightarrow>
     returns (net_inv N w m) (with_book f s)"
  by (auto simp: with_book_def net_inv_def elim!: returns_mono)

definition base_laws :: "'ma net_env \<Rightarrow> bool" where
  "base_laws N \<longleftrightarrow> multiaddr_laws (net_base N) \<and> hash_set_laws (net_base N)"

lemma backend_add_address_inv:
  "base_laws N \<Longrightarrow> net_inv N w n s \<Longrightarrow> returns (net_inv N w n) (backend_add_address N p a src s)"
  by (auto simp: backend_add_address_def Let_def base_laws_def intro!: net_inv_with_book [where n = n] add_address_inv)

lemma add_addresses_inv:
  "base_laws N \<Longrightarrow> net_inv N w n s \<Longrightarrow> returns (net_inv N w n) (add_addresses N src as s)"
  by (induction as arbitrary: s) (auto intro!: returns_mono [OF backend_add_address_inv])

lemma add_and_dial_inv:
  "base_laws N \<Longrightarrow> net_inv N w n s \<Longrightarrow> returns (net_inv N w n) (add_and_dial N as s)"
proof (induction as arbitrary: s)
  case (Cons x as)
  have "net_inv N w n (s1\<lparr>book := dial p (book s1)\<rparr>)" if "net_inv N w n s1" for p s1
    using that by (auto simp: net_inv_def intro: dial_inv)
  with Cons show ?case
    by (cases x) (auto intro!: returns_mono [OF backend_add_address_inv])
qed simp

lemma on_swarm_event_inv:
  assumes "base_laws N" "net_inv N w n s" "input_ok w (FromSwarm e)" "n + 1 < 2 ^ 32"
  shows "returns (net_inv N w (Suc n)) (on_swarm_event N e s)"
proof -
  have s: "net_inv N w (Suc n) s"
    using assms(2) by (rule net_inv_mono) simp
  have rtt: "returns (net_inv N w (Suc n)) (with_book (set_rtt (net_base N) p d) s)"
    if "\<And>x. d = Some x \<Longrightarrow> dur_ok x" for p d
    using assms that by (intro net_inv_with_book [OF assms(2)] set_rtt_inv) auto
  show ?thesis
  proof (cases e)
    case (SwConnectionClosed p cp k err)
    with s show ?thesis by (auto simp: net_inv_def intro: connection_closed_inv)
  next
    case (SwMdns m)
    with s assms(1) show ?thesis by (cases m) (auto intro: add_addresses_inv)
  next
    case (SwPing p r)
    with s assms(3) show ?thesis by (cases r) (auto simp: inject_ping_event_def intro!: rtt)
  next
    case (SwIdentify m)
    with s assms(1) show ?thesis
      by (cases m) (auto simp: base_laws_def intro!: net_inv_with_book [OF s] set_info_inv)
  next
    case (SwBroadcast m)
    with s assms(3) show ?thesis by (cases m) (auto split: option.splits)
  qed (use s in simp_all)
qed

lemma backend_command_inv:
  assumes "base_laws N" "net_inv N w n s" "command_ok w cmd"
  shows "returns (net_inv N w n) (backend_command N cmd s)"
proof -
  have topics: "net_inv N w n (snd (subscribe N topic s))" "net_inv N w n (snd (publish N topic msg s))"
    "net_inv N w n (snd (broadcast N topic msg s))" for topic msg
    using assms(2) by (auto simp: subscribe_def publish_def broadcast_def Let_def
        split: option.splits sum.splits publish_error.splits)
  have ev: "net_inv N w n (snd (subscribe_events s))"
    using assms(2) by (simp add: subscribe_events_def Let_def net_inv_def)
  have queries: "net_inv N w n (bootstrap N tx s') = net_inv N w n s'" "net_inv N w n (provide N k tx s') = net_inv N w n s'"
    "net_inv N w n (providers N k tx s') = net_inv N w n s'" "net_inv N w n (get_record N k q tx s') = net_inv N w n s'"
    "net_inv N w n (put_record N r q tx s') = net_inv N w n s'" for tx s' k q r
    by (simp_all add: bootstrap_def provide_def providers_def get_record_def put_record_def Let_def split: sum.splits)
  have b: "book_inv (net_base N) n (book s)" using assms(2) by (simp add: net_inv_def)
  have f: "net_inv N w n (s\<lparr>book := b'\<rparr>)" if "book_inv (net_base N) n b'" for b'
    using that assms(2) by (simp add: net_inv_def)
  have ra: "net_inv N w n (backend_remove_address N p a s)" for p a
    using f [OF remove_address_inv [OF b]] by (simp add: backend_remove_address_def Let_def)
  show ?thesis
  proof (cases cmd)
    case (CmdBootstrap initial tx)
    with assms(1,2) show ?thesis by (auto simp: queries intro!: returns_mono [OF add_and_dial_inv])
  next
    case (CmdGet c ps tx)
    with assms(2,3) show ?thesis by (auto simp: backend_get_def Let_def) (auto simp: net_inv_def)
  next
    case (CmdSync c ps m tx)
    with assms(2,3) show ?thesis by (auto simp: backend_sync_def Let_def) (auto simp: net_inv_def)
  next
    case (CmdCancelQuery i)
    have "bitswap_enabled (remove_query i s) = bitswap_enabled s"
      by (simp add: remove_query_def split: option.splits)
    moreover have "bitswap_enabled s = w" using assms(2) by (simp add: net_inv_def)
    ultimately show ?thesis
      using CmdCancelQuery assms(2,3) by (auto simp: cancel_def Let_def split: query_id.splits)
  qed (use assms(1,2) b topics ev in \<open>auto simp: queries ra unprovide_def remove_record_def case_prod_unfold Let_def
      intro!: backend_add_address_inv f prune_peers_inv dial_inv dial_address_inv\<close>)
qed

lemma swarm_command_inv:
  assumes "base_laws N" "net_inv N w n (backend t)" "command_ok w cmd"
  shows "returns (\<lambda>t'. net_inv N w n (backend t')) (swarm_command N cmd t)"
proof (cases "\<exists>addr response. cmd = CmdListenOn addr response")
  case True
  have "net_inv N w n (snd (subscribe_events (backend t)))"
    using assms(2) by (simp add: subscribe_events_def Let_def net_inv_def)
  with True show ?thesis
    by (auto simp: swarm_command_def listen_on_def Let_def case_prod_unfold split: sum.splits)
next
  case False
  then have "swarm_command N cmd t = map_option (\<lambda>s. t\<lparr>backend := s\<rparr>) (backend_command N cmd (backend t))"
    by (auto simp: swarm_command_def split: network_command.splits)
  with backend_command_inv [OF assms] show ?thesis by simp
qed

text \<open>The loop as a run of steps, where a task that has ended takes no more input.\<close>

definition loop_step :: "'ma net_env \<Rightarrow> 'ma input \<Rightarrow> bool \<times> 'ma swarm_task \<Rightarrow> (bool \<times> 'ma swarm_task) option" where
  "loop_step N i st = (if fst st then Some st else swarm_step N i (snd st))"

lemma loop_step_simps [simp]:
  "loop_step N i (True, t) = Some (True, t)" "loop_step N i (False, t) = swarm_step N i t"
  by (simp_all add: loop_step_def)

lemma loop_ended: "run_steps (loop_step N) is (True, t) = Some (True, t)"
  by (induction "is") simp_all

lemma poll_swarm_run: "poll_swarm N is t = run_steps (loop_step N) is (False, t)"
proof (induction "is" arbitrary: t)
  case (Cons i "is")
  show ?case
  proof (cases "swarm_step N i t")
    case (Some r)
    obtain e t' where r: "r = (e, t')" by (cases r)
    show ?thesis
      using Cons.IH [of t'] Some r by (cases e) (simp_all add: loop_ended)
  qed simp
qed simp

interpretation sw: bounded_steps "loop_step N"
  "\<lambda>n st. base_laws N \<and> net_inv N w n (backend (snd st))" "input_ok w" "2 ^ 32"
  for N :: "'ma net_env" and w
proof
  fix n and st :: "bool \<times> 'ma swarm_task" and i :: "'ma input"
  assume a: "base_laws N \<and> net_inv N w n (backend (snd st))" "input_ok w i" "n + 1 < 2 ^ 32"
  obtain e t where st: "st = (e, t)" by (cases st)
  have t: "base_laws N" "net_inv N w (Suc n) (backend t)"
    using a(1) by (auto simp: st intro: net_inv_mono)
  have "returns (\<lambda>r. net_inv N w (Suc n) (backend (snd r))) (swarm_step N i t)"
  proof (cases i)
    case (FromSwarm ev)
    with a show ?thesis
      by (auto simp: st simp del: on_swarm_event.simps input_ok.simps intro!: on_swarm_event_inv)
  next
    case (Command cmd)
    with a(2) t show ?thesis by (auto intro!: swarm_command_inv)
  next
    case (Callback op)
    have "returns (net_inv N w (Suc n)) (with_book (book_step (net_base N) op) (backend t))"
      using a Callback by (intro net_inv_with_book [where n = n] book_step_inv) (auto simp: st base_laws_def)
    with Callback show ?thesis by simp
  qed (use t in simp_all)
  with t show "returns (\<lambda>st. base_laws N \<and> net_inv N w (Suc n) (backend (snd st))) (loop_step N i st)"
    by (auto simp: loop_step_def st elim!: returns_mono)
qed

lemma task_runs:
  assumes "base_laws N" "book_inv (net_base N) 0 b" "list_all (input_ok bitswap) is" "length is < 2 ^ 32"
  shows "\<exists>ended t. poll_swarm N is (task_new b kad bitswap gossip bcast) = Some (ended, t) \<and>
    book_inv (net_base N) (length is) (book (backend t))"
proof -
  have "net_inv N bitswap 0 (backend (task_new b kad bitswap gossip bcast))"
    using assms(2) by (simp add: net_inv_def task_new_def)
  with sw.run_inv [of N bitswap 0 "(False, task_new b kad bitswap gossip bcast)" "is"] assms show ?thesis
    by (auto simp: poll_swarm_run net_inv_def returns_iff)
qed

text \<open>
  C2. The network task does not panic: from a new task and a well-formed address book,
  every interleaving of fewer than 2^32 commands, swarm events and callbacks is handled,
  provided bitswap is enabled when blocks are requested, broadcast topics are strings and
  measured times leave room for the averages; the address book stays well formed.
\<close>

theorem network_task_safe:
  assumes "base_laws N" "book_inv (net_base N) 0 b" "list_all (input_ok bitswap) is" "length is < 2 ^ 32"
  shows "\<exists>ended t. poll_swarm N is (task_new b kad bitswap gossip bcast) = Some (ended, t) \<and>
    book_inv (net_base N) (length is) (book (backend t))"
  using assms by (rule task_runs)

definition sample_inputs :: "protocol list input list" where
  "sample_inputs =
     [Command (CmdBootstrap [(5, [Ip4 9, Tcp 4001])] (CommandChannel 1)),
      FromSwarm (SwKad (OutboundQueryCompleted 2 (BootstrapResult (Inr 0)))),
      Callback (OpConnectionEstablished 5 (Dialer [Ip4 9, Tcp 4001] EndpointDialer) 0),
      FromSwarm (SwPing 5 (Ping 7))]"

theorem network_task_safe_witness:
  "\<exists>ended t. poll_swarm sample_net sample_inputs (task_new sample_book True True True True) = Some (ended, t) \<and>
    book_inv (net_base sample_net) (length sample_inputs) (book (backend t))"
  by (rule network_task_safe)
    (simp_all add: base_laws_def sample_net_def sample_inputs_def dur_ok_def DURATION_MAX_def)

end
