(* ===== verification/TaskInvariant.thy ===== *)
theory TaskInvariant
  imports NetworkProperties
begin

text \<open>
  Invariants of the network task that concern its protocols: the calls it makes and its
  table of topics. The interface \<open>task_invariant\<close> lists the few ways in which a handler can
  change these fields; whatever survives them holds throughout every run of the task. Two
  invariants use it: the protocols are used only when they are enabled and, for the queries
  of the distributed hash table, bootstrapped (here), and the topics match their
  subscribers (theory \<open>Subscriptions\<close>).
\<close>

lemma call_frame [simp]:
  "subscriptions (call c s) = subscriptions s" "gossip_sent (call c s) = gossip_sent s"
  "gossipsub_enabled (call c s) = gossipsub_enabled s" "broadcast_enabled (call c s) = broadcast_enabled s"
  "proto_calls (call c s) = proto_calls s @ [c]" "bootstrapped (call c s) = bootstrapped s"
  "book (call c s) = book s" "outcomes (call c s) = outcomes s" "kad_enabled (call c s) = kad_enabled s"
  "bitswap_enabled (call c s) = bitswap_enabled s"
  by (simp_all add: call_def)

subsection \<open>The interface\<close>

text \<open>A step that makes no call and leaves the topics alone; the bootstrap may complete.\<close>

definition keeps :: "'ma backend \<Rightarrow> 'ma backend \<Rightarrow> bool" where
  "keeps s s' \<longleftrightarrow> subscriptions s' = subscriptions s \<and> proto_calls s' = proto_calls s \<and>
     kad_enabled s' = kad_enabled s \<and> bitswap_enabled s' = bitswap_enabled s \<and>
     gossipsub_enabled s' = gossipsub_enabled s \<and> broadcast_enabled s' = broadcast_enabled s \<and>
     (bootstrapped s \<longrightarrow> bootstrapped s')"

text \<open>The calls a handler makes directly; topics are subscribed through the table only.\<close>

fun may_call :: "'ma backend \<Rightarrow> 'ma proto_call \<Rightarrow> bool" where
  "may_call s (KadStartProviding _) = (kad_enabled s \<and> bootstrapped s)"
| "may_call s (KadGetProviders _) = (kad_enabled s \<and> bootstrapped s)"
| "may_call s (KadGetRecord _ _) = (kad_enabled s \<and> bootstrapped s)"
| "may_call s (KadPutRecord _ _) = (kad_enabled s \<and> bootstrapped s)"
| "may_call s (KadAddAddress _ _) = kad_enabled s"
| "may_call s (KadRemoveAddress _ _) = kad_enabled s"
| "may_call s KadBootstrap = kad_enabled s"
| "may_call s (KadStopProviding _) = kad_enabled s"
| "may_call s (KadRemoveRecord _) = kad_enabled s"
| "may_call s (GossipPublish _ _) = gossipsub_enabled s"
| "may_call s (BroadcastSend _ _) = broadcast_enabled s"
| "may_call s (BitswapGet _ _) = bitswap_enabled s"
| "may_call s (BitswapSync _ _ _) = bitswap_enabled s"
| "may_call s (BitswapCancel _) = bitswap_enabled s"
| "may_call s (GossipSubscribe _) = False"
| "may_call s (GossipUnsubscribe _) = False"
| "may_call s (BroadcastSubscribe _) = False"
| "may_call s (BroadcastUnsubscribe _) = False"
| "may_call s _ = True"

lemma keeps_refl [simp]: "keeps s s"
  by (simp add: keeps_def)

lemma keeps_trans: "keeps s s1 \<Longrightarrow> keeps s1 s2 \<Longrightarrow> keeps s s2"
  by (simp add: keeps_def)

lemma keeps_frame [simp]:
  "keeps s (s\<lparr>book := b\<rparr>)" "keeps s (s\<lparr>queries := q\<rparr>)" "keeps s (s\<lparr>next_channel := k\<rparr>)"
  "keeps s (s\<lparr>bootstrapped := True\<rparr>)" "keeps s (send_reply ch r s)" "keeps s (drop_oneshot ch s)"
  "keeps s (send_sync N tx ev s)" "keeps s (drop_channel qc s)"
  by (simp_all add: keeps_def send_reply_def drop_oneshot_def send_sync_def)

lemma keeps_tables [simp]:
  "keeps s (insert_query i qc s)" "keeps s (remove_query i s)" "keeps s (answer_query sel i r s)"
  by (auto simp: keeps_def insert_query_def remove_query_def answer_query_def send_reply_def Let_def
      split: option.splits)

lemma keeps_book: "keeps s s1 \<Longrightarrow> keeps s (s1\<lparr>book := b\<rparr>)"
  by (simp add: keeps_def)

lemma keeps_with_book: "with_book f s = Some s' \<Longrightarrow> keeps s s'"
  by (auto simp: with_book_def)

lemma keeps_query_result: "keeps s (inject_query_result N i r s)"
proof -
  have "keeps s ((answer_query sel j reply (s\<lparr>bootstrapped := True\<rparr>))\<lparr>book := b\<rparr>)" for sel j reply b
    by (rule keeps_book, rule keeps_trans [OF keeps_frame(4) keeps_tables(3)])
  then show ?thesis
    by (induction N i r s rule: inject_query_result.induct) simp_all
qed

lemma keeps_kad_event: "keeps s (inject_kad_event N e s)"
  by (cases e) (simp_all add: keeps_query_result)

lemma keeps_bitswap_event: "keeps s (inject_bitswap_event N e s)"
proof (cases e)
  case (BitswapProgress i missing)
  then show ?thesis by (auto split: option.splits query_channel.splits)
next
  case (BitswapComplete i result)
  have "keeps s (s1\<lparr>queries := q\<rparr>)" if "keeps s s1" for s1 q
    using that by (simp add: keeps_def)
  with BitswapComplete show ?thesis
    by (auto simp: Let_def keeps_def send_reply_def send_sync_def split: option.splits query_channel.splits)
qed

lemma keeps_subscribe_events: "subscribe_events s = (tx, s') \<Longrightarrow> keeps s s'"
  by (auto simp: subscribe_events_def Let_def keeps_def)

locale task_invariant =
  fixes N :: "'ma net_env" and P :: "'ma backend \<Rightarrow> bool"
  assumes stable: "P s \<Longrightarrow> keeps s s' \<Longrightarrow> P s'"
    and calls: "P s \<Longrightarrow> may_call s c \<Longrightarrow> P (call c s)"
    and notifies: "P s \<Longrightarrow> P (notify_subscribers N topic ev s)"
    and subscribes: "P s \<Longrightarrow> P (snd (subscribe N topic s))"
begin

lemma with_book: "P s \<Longrightarrow> with_book f s = Some s' \<Longrightarrow> P s'"
  by (rule stable [OF _ keeps_with_book])

lemma call_then: "P s \<Longrightarrow> may_call s c \<Longrightarrow> keeps (call c s) s' \<Longrightarrow> P s'"
  by (rule stable [OF calls])

lemma call_query:
  "P s \<Longrightarrow> may_call s c \<Longrightarrow> P (insert_query i qc (call c s))"
  "P s \<Longrightarrow> may_call s c \<Longrightarrow> P (send_reply tx r (call c s))"
  "P s \<Longrightarrow> P (send_reply tx r s)" "P s \<Longrightarrow> P (drop_oneshot tx s)"
  subgoal by (rule call_then [of s c]) simp_all
  subgoal by (rule call_then [of s c]) simp_all
  subgoal by (rule stable [of s]) simp_all
  subgoal by (rule stable [of s]) simp_all
  done

lemma notify_after: "P s \<Longrightarrow> keeps s s' \<Longrightarrow> P (notify_subscribers N topic ev s')"
  by (rule notifies [OF stable])

lemma add_address_kept: "P s \<Longrightarrow> backend_add_address N p a src s = Some s' \<Longrightarrow> P s'"
  using calls [of s "KadAddAddress p a"] by (auto simp: backend_add_address_def Let_def split: if_splits intro: with_book)

lemma add_addresses_kept: "P s \<Longrightarrow> add_addresses N src as s = Some s' \<Longrightarrow> P s'"
proof (induction as arbitrary: s)
  case (Cons x as)
  then show ?case
    by (cases x) (auto simp: bind_eq_Some_conv intro: Cons.IH [OF add_address_kept])
qed simp

lemma add_and_dial_kept: "P s \<Longrightarrow> add_and_dial N as s = Some s' \<Longrightarrow> P s'"
proof (induction as arbitrary: s)
  case (Cons x as)
  obtain p a where x: "x = (p, a)" by (cases x)
  with Cons.prems obtain s1 where s1: "backend_add_address N p a User s = Some s1"
    "add_and_dial N as (s1\<lparr>book := dial p (book s1)\<rparr>) = Some s'"
    by (auto simp: bind_eq_Some_conv)
  show ?case
    by (rule Cons.IH [OF stable [OF add_address_kept [OF Cons.prems(1) s1(1)]] s1(2)]) simp
qed simp

lemma swarm_event_inv:
  assumes "P s" "on_swarm_event N e s = Some s'"
  shows "P s'"
proof (cases e)
  case (SwMdns m)
  with assms show ?thesis by (cases m) (auto intro: add_addresses_kept)
next
  case (SwPing p r)
  with assms show ?thesis by (cases r) (auto simp: inject_ping_event_def intro: with_book)
next
  case (SwIdentify m)
  with assms show ?thesis by (cases m) (auto intro: with_book)
next
  case (SwGossipsub m)
  with assms show ?thesis by (cases m) (auto intro: notifies notify_after)
next
  case (SwBroadcast m)
  with assms show ?thesis by (cases m) (auto intro: notifies notify_after split: option.splits)
qed (use assms in \<open>auto intro: stable keeps_kad_event keeps_bitswap_event\<close>)

lemma queries_inv:
  assumes "P s"
  shows "P (bootstrap N tx s)" "P (provide N k tx s)" "P (providers N k tx s)"
    "P (get_record N k q tx s)" "P (put_record N rec q tx s)"
  using assms
  by (simp_all add: bootstrap_def provide_def providers_def get_record_def put_record_def Let_def
      call_query split: sum.splits)

lemma get_sync_inv:
  assumes "P s"
  shows "backend_get N c ps s = Some (r, s') \<Longrightarrow> P s'"
    "backend_sync N c ps m s = Some (r', s') \<Longrightarrow> P s'"
    "cancel i s = Some s' \<Longrightarrow> P s'"
  using stable [OF assms keeps_frame(3)] stable [OF assms keeps_tables(2)]
  by (auto simp: backend_get_def backend_sync_def cancel_def Let_def
      intro!: calls call_query split: if_splits query_id.splits)

lemma backend_command_kept:
  assumes "P s" "backend_command N cmd s = Some s'"
  shows "P s'"
proof (cases cmd)
  case (CmdSubscribe topic tx)
  with assms(2) stable [OF subscribes [OF assms(1), of topic]] show ?thesis
    by (auto split: prod.splits)
next
  case (CmdBootstrap initial tx)
  with assms show ?thesis by (auto intro: queries_inv add_and_dial_kept)
next
  case (CmdRemoveAddress p a)
  with assms stable [OF assms(1) keeps_frame(1)] show ?thesis
    by (auto simp: backend_remove_address_def Let_def intro!: calls)
next
  case (CmdGet c ps tx)
  with assms show ?thesis by (auto intro: stable [OF get_sync_inv(1)])
next
  case (CmdSync c ps m tx)
  with assms show ?thesis by (auto intro: stable [OF get_sync_inv(2)])
next
  case (CmdSwarmEvents tx)
  with assms show ?thesis
    by (auto intro: call_query(3) stable keeps_subscribe_events split: prod.splits)
qed (use assms in \<open>auto simp: unprovide_def remove_record_def publish_def broadcast_def Let_def
    intro: add_address_kept get_sync_inv(3) queries_inv calls call_query stable [OF _ keeps_frame(1)]
    split: if_splits prod.splits sum.splits publish_error.splits\<close>)

lemma swarm_step_inv:
  assumes "P (backend t)" "swarm_step N i t = Some (False, t')"
  shows "P (backend t')"
proof (cases i)
  case (Command cmd)
  with assms(2) have c: "swarm_command N cmd t = Some t'" by auto
  show ?thesis
  proof (cases cmd)
    case (CmdListenOn addr response)
    have "P (call (SwarmListenOn addr) s)" if "subscribe_events (backend t) = (rx, s)" for rx s
      using calls [OF stable [OF assms(1) keeps_subscribe_events [OF that]]] by simp
    with c CmdListenOn show ?thesis
      by (auto simp: swarm_command_def listen_on_def Let_def split: prod.splits sum.splits)
  qed (use c assms(1) in \<open>auto simp: swarm_command_def simp del: backend_command.simps
      intro: backend_command_kept\<close>)
qed (use assms in \<open>auto intro: with_book swarm_event_inv\<close>)

lemma run_inv:
  assumes "P (backend t)" "poll_swarm N is t = Some (ended, t')"
  shows "\<exists>s. P s \<and> backend t' = (if ended then drop_tables s else s)"
  using assms
proof (induction "is" arbitrary: t)
  case (Cons i "is")
  then obtain e t1 where step: "swarm_step N i t = Some (e, t1)"
    "if e then ended \<and> t' = t1 else poll_swarm N is t1 = Some (ended, t')"
    by (auto simp: bind_eq_Some_conv split: if_splits)
  show ?case
  proof (cases e)
    case True
    with step have "i = SwarmEnded \<or> i = CommandsEnded" "ended" "t' = t1"
      by (cases i; auto)+
    with step(1) Cons.prems(1) show ?thesis by (intro exI [of _ "backend t"]) auto
  next
    case False
    with step have "swarm_step N i t = Some (False, t1)" "poll_swarm N is t1 = Some (ended, t')" by auto
    then show ?thesis
      using Cons.IH swarm_step_inv [OF Cons.prems(1)] by blast
  qed
qed auto

end

subsection \<open>Protocols are used as configured\<close>

text \<open>The protocol a call belongs to.\<close>

datatype protocol_name = KadProtocol | GossipProtocol | BroadcastProtocol | BitswapProtocol | SwarmItself

fun protocol_of :: "'ma proto_call \<Rightarrow> protocol_name" where
  "protocol_of (KadAddAddress _ _) = KadProtocol"
| "protocol_of (KadRemoveAddress _ _) = KadProtocol"
| "protocol_of KadBootstrap = KadProtocol"
| "protocol_of (KadStartProviding _) = KadProtocol"
| "protocol_of (KadStopProviding _) = KadProtocol"
| "protocol_of (KadGetProviders _) = KadProtocol"
| "protocol_of (KadGetRecord _ _) = KadProtocol"
| "protocol_of (KadPutRecord _ _) = KadProtocol"
| "protocol_of (KadRemoveRecord _) = KadProtocol"
| "protocol_of (GossipSubscribe _) = GossipProtocol"
| "protocol_of (GossipUnsubscribe _) = GossipProtocol"
| "protocol_of (GossipPublish _ _) = GossipProtocol"
| "protocol_of (BroadcastSubscribe _) = BroadcastProtocol"
| "protocol_of (BroadcastUnsubscribe _) = BroadcastProtocol"
| "protocol_of (BroadcastSend _ _) = BroadcastProtocol"
| "protocol_of (BitswapGet _ _) = BitswapProtocol"
| "protocol_of (BitswapSync _ _ _) = BitswapProtocol"
| "protocol_of (BitswapCancel _) = BitswapProtocol"
| "protocol_of _ = SwarmItself"

fun enabled_in :: "'ma backend \<Rightarrow> protocol_name \<Rightarrow> bool" where
  "enabled_in s KadProtocol = kad_enabled s"
| "enabled_in s GossipProtocol = gossipsub_enabled s"
| "enabled_in s BroadcastProtocol = broadcast_enabled s"
| "enabled_in s BitswapProtocol = bitswap_enabled s"
| "enabled_in s SwarmItself = True"

text \<open>Queries and announcements of the distributed hash table.\<close>

definition dht_query :: "'ma proto_call \<Rightarrow> bool" where
  "dht_query c = (case c of KadStartProviding _ \<Rightarrow> True | KadGetProviders _ \<Rightarrow> True |
     KadGetRecord _ _ \<Rightarrow> True | KadPutRecord _ _ \<Rightarrow> True | _ \<Rightarrow> False)"

definition permitted :: "'ma backend \<Rightarrow> 'ma proto_call \<Rightarrow> bool" where
  "permitted s c \<longleftrightarrow> enabled_in s (protocol_of c) \<and> (dht_query c \<longrightarrow> bootstrapped s)"

lemma enabled_in_keeps: "keeps s s' \<Longrightarrow> enabled_in s' p = enabled_in s p"
  by (cases p) (simp_all add: keeps_def)

lemma enabled_in_call [simp]: "enabled_in (call c s) p = enabled_in s p"
  by (cases p) simp_all

lemma permitted_call [simp]: "permitted (call c s) = permitted s"
  by (simp add: permitted_def fun_eq_iff)

lemma may_call_permitted: "may_call s c \<Longrightarrow> permitted s c"
  by (cases c) (simp_all add: permitted_def dht_query_def)

definition as_configured :: "(protocol_name \<Rightarrow> bool) \<Rightarrow> 'ma backend \<Rightarrow> bool" where
  "as_configured en s \<longleftrightarrow> enabled_in s = en \<and> list_all (permitted s) (proto_calls s)"

text \<open>Changes of the topic table add calls of enabled protocols only.\<close>

lemma as_configured_grow:
  assumes "as_configured en s" "proto_calls s' = proto_calls s @ cs" "list_all (permitted s) cs"
    "enabled_in s' = enabled_in s" "bootstrapped s' = bootstrapped s"
  shows "as_configured en s'"
proof -
  have "permitted s' = permitted s" by (simp add: permitted_def fun_eq_iff assms(4,5))
  with assms show ?thesis by (simp add: as_configured_def)
qed

lemma enabled_in_eqI:
  "kad_enabled s' = kad_enabled s \<Longrightarrow> gossipsub_enabled s' = gossipsub_enabled s \<Longrightarrow>
     broadcast_enabled s' = broadcast_enabled s \<Longrightarrow> bitswap_enabled s' = bitswap_enabled s \<Longrightarrow>
     enabled_in s' = enabled_in s"
  by (rule ext, rename_tac p, case_tac p) simp_all

lemma unsubscribe_fields:
  "enabled_in (unsubscribe N topic s) = enabled_in s" "bootstrapped (unsubscribe N topic s) = bootstrapped s"
  "proto_calls (unsubscribe N topic s) = proto_calls s @
     (if gossipsub_enabled s then [GossipUnsubscribe topic] else []) @
     (if broadcast_enabled s then [BroadcastUnsubscribe (broadcast_topic N topic)] else [])"
  by (auto simp: unsubscribe_def Let_def)

interpretation pc: task_invariant N "as_configured en" for N :: "'ma net_env" and en
proof
  fix s s' :: "'ma backend" and c topic ev
  assume a: "as_configured en s"
  show "as_configured en s'" if "keeps s s'"
  proof -
    have "enabled_in s' = enabled_in s" by (rule ext) (rule enabled_in_keeps [OF that])
    moreover have "proto_calls s' = proto_calls s" "bootstrapped s \<longrightarrow> bootstrapped s'"
      using that by (simp_all add: keeps_def)
    ultimately show ?thesis
      using a by (auto simp: as_configured_def permitted_def list_all_iff)
  qed
  show "as_configured en (call c s)" if "may_call s c"
    using may_call_permitted [OF that]
    by (intro as_configured_grow [OF a, where cs = "[c]"] ext) simp_all
  have sub: "enabled_in (x\<lparr>subscriptions := m\<rparr>) = enabled_in x" "enabled_in (x\<lparr>subscriptions := m, gossip_sent := h\<rparr>) = enabled_in x"
    "enabled_in (x\<lparr>next_channel := k\<rparr>) = enabled_in x"
    for x :: "'ma backend" and m h k by (rule enabled_in_eqI; simp)+
  show "as_configured en (notify_subscribers N topic ev s)"
  proof (cases "hm_get (subscriptions s) topic")
    case (Some subs)
    obtain kept h where r: "retain_send (gossip_send N) ev subs (gossip_sent s) = (kept, h)"
      by (cases "retain_send (gossip_send N) ev subs (gossip_sent s)")
    show ?thesis
      by (rule as_configured_grow [OF a, where cs = "if kept = [] then
            (if gossipsub_enabled s then [GossipUnsubscribe topic] else []) @
            (if broadcast_enabled s then [BroadcastUnsubscribe (broadcast_topic N topic)] else []) else []"])
        (simp_all add: notify_subscribers_def Some r Let_def unsubscribe_fields sub permitted_def dht_query_def)
  qed (simp add: notify_subscribers_def a)
  show "as_configured en (snd (subscribe N topic s))"
  proof (cases "hm_get (subscriptions s) topic")
    case (Some subs)
    then show ?thesis
      by (intro as_configured_grow [OF a, where cs = "[]"]) (simp_all add: subscribe_def Let_def sub)
  next
    case None
    let ?g = "if gossipsub_enabled s then [GossipSubscribe topic] else []"
    let ?b = "if broadcast_enabled s then [BroadcastSubscribe (broadcast_topic N topic)] else []"
    have "proto_calls (snd (subscribe N topic s)) \<in> (@) (proto_calls s) ` {[], ?g, ?g @ ?b}"
      using None by (auto simp: subscribe_def Let_def split: sum.splits)
    then obtain cs where "proto_calls (snd (subscribe N topic s)) = proto_calls s @ cs" "cs \<in> {[], ?g, ?g @ ?b}"
      by blast
    moreover from this(2) have "list_all (permitted s) cs"
      by (auto simp: permitted_def dht_query_def)
    moreover have "enabled_in (snd (subscribe N topic s)) = enabled_in s"
      "bootstrapped (snd (subscribe N topic s)) = bootstrapped s"
      using None by (auto simp: subscribe_def Let_def sub fun_eq_iff split: sum.splits)
    ultimately show ?thesis by (intro as_configured_grow [OF a])
  qed
qed

lemma calls_as_configured:
  assumes "poll_swarm N is (task_new b kad bitswap gossip bcast) = Some (ended, t)"
    "c \<in> set (proto_calls (backend t))"
  shows "(case protocol_of c of KadProtocol \<Rightarrow> kad | GossipProtocol \<Rightarrow> gossip | BroadcastProtocol \<Rightarrow> bcast
      | BitswapProtocol \<Rightarrow> bitswap | SwarmItself \<Rightarrow> True) \<and>
    (dht_query c \<longrightarrow> bootstrapped (backend t))"
proof -
  let ?s = "backend (task_new b kad bitswap gossip bcast)"
  have "as_configured (enabled_in ?s) ?s"
    by (simp add: as_configured_def task_new_def)
  from pc.run_inv [OF this assms(1)] obtain s where
    s: "as_configured (enabled_in ?s) s" "backend t = (if ended then drop_tables s else s)" by blast
  have frame: "proto_calls (fold drop_channel qcs x) = proto_calls x"
    "bootstrapped (fold drop_channel qcs x) = bootstrapped x" for qcs and x :: "'a backend"
    by (induction qcs arbitrary: x) simp_all
  have t: "proto_calls (backend t) = proto_calls s" "bootstrapped (backend t) = bootstrapped s"
    using s(2) by (simp_all add: drop_tables_def frame)
  with s(1) assms(2) have "permitted s c" "enabled_in s = enabled_in ?s"
    by (auto simp: as_configured_def list_all_iff)
  with t show ?thesis
    by (auto simp: permitted_def task_new_def split: protocol_name.splits)
qed

text \<open>
  C12. The network task uses its protocols as configured: whatever commands and events it
  handles, a protocol that is disabled in the configuration is never called, and the
  distributed hash table is never queried or written before a bootstrap has completed.
\<close>

theorem protocols_used_as_configured:
  assumes "poll_swarm N is (task_new b kad bitswap gossip bcast) = Some (ended, t)"
    "c \<in> set (proto_calls (backend t))"
  shows "(case protocol_of c of KadProtocol \<Rightarrow> kad | GossipProtocol \<Rightarrow> gossip | BroadcastProtocol \<Rightarrow> bcast
      | BitswapProtocol \<Rightarrow> bitswap | SwarmItself \<Rightarrow> True) \<and>
    (dht_query c \<longrightarrow> bootstrapped (backend t))"
  using assms by (rule calls_as_configured)

theorem protocols_used_as_configured_witness:
  "\<exists>t. poll_swarm sample_net
       [Command (CmdBootstrap [] (CommandChannel 1)),
        FromSwarm (SwKad (OutboundQueryCompleted 1 (BootstrapResult (Inr 0)))),
        Command (CmdProvide ''k'' (CommandChannel 2))]
       (task_new sample_book True False False False) = Some (False, t) \<and>
     KadStartProviding ''k'' \<in> set (proto_calls (backend t)) \<and> bootstrapped (backend t)"
proof -
  obtain t where t: "poll_swarm sample_net
       [Command (CmdBootstrap [] (CommandChannel 1)),
        FromSwarm (SwKad (OutboundQueryCompleted 1 (BootstrapResult (Inr 0)))),
        Command (CmdProvide ''k'' (CommandChannel 2))]
       (task_new sample_book True False False False) = Some (False, t)"
    "KadStartProviding ''k'' \<in> set (proto_calls (backend t))"
    by (simp add: swarm_command_def task_new_def bootstrap_def provide_def insert_query_def answer_query_def
        sel_bootstrap_def send_reply_def call_def sample_net_def Let_def)
  with protocols_used_as_configured [OF t] show ?thesis by (simp add: dht_query_def)
qed

end
