(* ===== verification/Subscriptions.thy ===== *)
theory Subscriptions
  imports TaskInvariant
begin

text \<open>
  Topics: subscribers of a topic receive its events in order, and as long as the protocol
  accepts subscriptions the node is subscribed to exactly the topics that have subscribers.
\<close>

subsection \<open>Delivery\<close>

definition topic_subs :: "string \<Rightarrow> 'ma backend \<Rightarrow> sender list" where
  "topic_subs topic s = (case hm_get (subscriptions s) topic of None \<Rightarrow> [] | Some subs \<Rightarrow> subs)"

lemma unsubscribe_frame [simp]:
  "subscriptions (unsubscribe N topic s) = subscriptions s" "gossip_sent (unsubscribe N topic s) = gossip_sent s"
  by (simp_all add: unsubscribe_def Let_def)

interpretation gs: fan_out "notify_subscribers N topic" "topic_subs topic" gossip_sent
  for N :: "'ma net_env" and topic
proof
  fix ev and s :: "'ma backend"
  show "\<exists>new. gossip_sent (notify_subscribers N topic ev s) = gossip_sent s @ new \<and>
      attempts ev (topic_subs topic s) new \<and> topic_subs topic (notify_subscribers N topic ev s) = survivors new"
  proof (cases "hm_get (subscriptions s) topic")
    case None
    then show ?thesis
      by (auto simp: notify_subscribers_def topic_subs_def attempts_def)
  next
    case (Some subs)
    obtain new where "snd (retain_send (gossip_send N) ev subs (gossip_sent s)) = gossip_sent s @ new"
      "attempts ev subs new" "fst (retain_send (gossip_send N) ev subs (gossip_sent s)) = survivors new"
      using retain_send_spec [of "gossip_send N" ev subs "gossip_sent s"] by blast
    with Some show ?thesis
      by (intro exI [of _ new]) (simp add: notify_subscribers_def topic_subs_def Let_def case_prod_unfold)
  qed
qed

text \<open>
  C27. A subscriber of a topic receives a prefix of the events of the topic, in order and
  each once, and all of them as long as it is subscribed.
\<close>

theorem topic_events_in_order:
  assumes "distinct (topic_subs topic s)"
  shows "\<exists>n. delivered (gossip_sent (fold (notify_subscribers N topic) evs s)) tx =
      delivered (gossip_sent s) tx @ take n evs \<and>
    (tx \<in> set (topic_subs topic (fold (notify_subscribers N topic) evs s)) \<longrightarrow> length evs \<le> n)"
  using assms by (rule gs.run_prefix)

theorem topic_events_in_order_witness:
  "\<exists>n. delivered (gossip_sent (fold (notify_subscribers sample_net ''t'') [GossipSubscribed 5, GossipMessage 5 ''m'']
        (snd (subscribe sample_net ''t'' (backend sample_task))))) 0 =
      delivered (gossip_sent (snd (subscribe sample_net ''t'' (backend sample_task)))) 0 @
        take n [GossipSubscribed 5, GossipMessage 5 ''m''] \<and>
    (0 \<in> set (topic_subs ''t'' (fold (notify_subscribers sample_net ''t'') [GossipSubscribed 5, GossipMessage 5 ''m'']
        (snd (subscribe sample_net ''t'' (backend sample_task))))) \<longrightarrow>
       length [GossipSubscribed 5, GossipMessage 5 ''m''] \<le> n)"
  by (rule topic_events_in_order)
    (simp add: subscribe_def sample_task_def task_new_def topic_subs_def sample_net_def Let_def)

subsection \<open>The table of topics\<close>

text \<open>The topics gossipsub is subscribed to, according to the calls made.\<close>

fun gossip_topics :: "'ma proto_call list \<Rightarrow> string set \<Rightarrow> string set" where
  "gossip_topics [] T = T"
| "gossip_topics (GossipSubscribe t # cs) T = gossip_topics cs (insert t T)"
| "gossip_topics (GossipUnsubscribe t # cs) T = gossip_topics cs (T - {t})"
| "gossip_topics (_ # cs) T = gossip_topics cs T"

lemma gossip_topics_append: "gossip_topics (cs @ ds) T = gossip_topics ds (gossip_topics cs T)"
  by (induction cs T rule: gossip_topics.induct) simp_all

definition topics_inv :: "'ma backend \<Rightarrow> bool" where
  "topics_inv s \<longleftrightarrow> hm_ok (subscriptions s) \<and> list_all (\<lambda>(_, subs). subs \<noteq> []) (subscriptions s) \<and>
     gossipsub_enabled s \<and> gossip_topics (proto_calls s) {} = set (hm_keys (subscriptions s))"

text \<open>The laws of the protocol: a topic is its own hash, and subscribing does not fail.\<close>

definition topic_laws :: "'ma net_env \<Rightarrow> bool" where
  "topic_laws N \<longleftrightarrow> (\<forall>t. topic_hash N t = t) \<and> (\<forall>cs. \<exists>new. gossip_subscribe N cs = Inr new)"

lemma topics_inv_cong:
  "subscriptions s' = subscriptions s \<Longrightarrow> gossipsub_enabled s' = gossipsub_enabled s \<Longrightarrow>
     proto_calls s' = proto_calls s \<Longrightarrow> topics_inv s' = topics_inv s"
  by (simp add: topics_inv_def)

lemma topics_inv_fresh [simp]: "topics_inv (s\<lparr>next_channel := k\<rparr>) = topics_inv s"
  by (rule topics_inv_cong) simp_all

lemma may_call_topics: "may_call s c \<Longrightarrow> gossip_topics [c] T = T"
  by (cases c) simp_all

lemma topics_update:
  assumes "topics_inv s" "topic \<in> set (hm_keys (subscriptions s))" "subs \<noteq> []"
  shows "topics_inv (s\<lparr>subscriptions := hm_insert topic subs (subscriptions s)\<rparr>)"
  using assms by (auto simp: topics_inv_def list_all_update hm_keys_insert simp del: set_map)

lemma topics_remove:
  assumes "topics_inv s" "subscriptions s' = hm_remove topic (subscriptions s)"
    "gossipsub_enabled s' = gossipsub_enabled s"
    "gossipsub_enabled s \<longrightarrow> gossip_topics (proto_calls s') {} = gossip_topics (proto_calls s) {} - {topic}"
  shows "topics_inv s'"
  using assms
  by (auto simp: topics_inv_def list_all_iff AList.delete_eq intro: distinct_map_filter)

lemma topics_inv_notify_subscribers:
  assumes "topics_inv s"
  shows "topics_inv (notify_subscribers N topic ev s)"
proof (cases "hm_get (subscriptions s) topic")
  case None
  with assms show ?thesis by (simp add: notify_subscribers_def)
next
  case (Some subs)
  obtain kept h where r: "retain_send (gossip_send N) ev subs (gossip_sent s) = (kept, h)"
    by (cases "retain_send (gossip_send N) ev subs (gossip_sent s)")
  have key: "topic \<in> set (hm_keys (subscriptions s))"
    using Some by (force dest: map_of_SomeD)
  show ?thesis
  proof (cases "kept = []")
    case True
    show ?thesis
      by (rule topics_remove [OF assms]) (use True in \<open>auto simp: notify_subscribers_def Some r Let_def
          AList.delete_update_same unsubscribe_def gossip_topics_append\<close>)
  next
    case False
    have "topics_inv (x\<lparr>gossip_sent := h\<rparr>) = topics_inv x" for x :: "'a backend"
      by (rule topics_inv_cong) simp_all
    with topics_update [OF assms key False] False show ?thesis
      by (simp add: notify_subscribers_def Some r)
  qed
qed

lemma topics_subscribe:
  assumes "topic_laws N" "topics_inv s" "subscribe N topic s = (r, s')"
  shows "topics_inv s'"
proof (cases "gossipsub_enabled s \<or> broadcast_enabled s")
  case False
  with assms show ?thesis by (auto simp: subscribe_def)
next
  case True
  note en = True
  show ?thesis
  proof (cases "hm_get (subscriptions s) topic")
    case (Some subs)
    then have key: "topic \<in> set (hm_keys (subscriptions s))" by (force dest: map_of_SomeD)
    have "s' = s\<lparr>next_channel := Suc (next_channel s),
        subscriptions := hm_insert topic (subs @ [next_channel s]) (subscriptions s)\<rparr>"
      using assms(3) en Some by (auto simp: subscribe_def Let_def)
    with topics_update [of "s\<lparr>next_channel := Suc (next_channel s)\<rparr>" topic "subs @ [next_channel s]"] assms(2) key
    show ?thesis by simp
  next
    case None
    have sub: "\<exists>new. gossip_subscribe N cs = Inr new" for cs
      using assms(1) by (simp add: topic_laws_def)
    have "subscriptions s' = hm_insert topic [next_channel s] (subscriptions s)"
      "gossipsub_enabled s' = gossipsub_enabled s"
      "gossipsub_enabled s \<longrightarrow> gossip_topics (proto_calls s') {} = insert topic (gossip_topics (proto_calls s) {})"
      using assms(1,3) en None sub
      by (auto simp: subscribe_def Let_def topic_laws_def gossip_topics_append split: if_splits sum.splits)
    with assms(2) show ?thesis
      by (auto simp: topics_inv_def list_all_update hm_keys_insert simp del: set_map)
  qed
qed

interpretation tp: task_invariant N "\<lambda>s. topic_laws N \<and> topics_inv s" for N :: "'ma net_env"
proof
  fix s s' :: "'ma backend" and c topic ev
  assume a: "topic_laws N \<and> topics_inv s"
  show "topic_laws N \<and> topics_inv s'" if "keeps s s'"
    using a that topics_inv_cong [of s' s] by (simp add: keeps_def)
  show "topic_laws N \<and> topics_inv (call c s)" if "may_call s c"
    using a may_call_topics [OF that] by (simp add: topics_inv_def gossip_topics_append)
  show "topic_laws N \<and> topics_inv (notify_subscribers N topic ev s)"
    using a by (simp add: topics_inv_notify_subscribers)
  show "topic_laws N \<and> topics_inv (snd (subscribe N topic s))"
    using a topics_subscribe [of N s topic] by (cases "subscribe N topic s") auto
qed



text \<open>
  A subscription that gossipsub refuses is not undone: the caller is told of the error,
  but the topic stays in the table with its dead subscriber, and the next subscription to
  the same topic succeeds although the protocol is not asked again.
\<close>

lemma refused_subscription_sticks:
  assumes "gossipsub_enabled s" "hm_get (subscriptions s) topic = None" "topic_hash N topic = topic"
    "gossip_subscribe N (proto_calls s @ [GossipSubscribe topic]) = Inl err"
    "subscribe N topic s = (r1, s1)" "subscribe N topic s1 = (r2, s2)"
  shows "r1 = Inl (SubscriptionError err) \<and> hm_get (subscriptions s1) topic = Some [next_channel s] \<and>
    r2 = Inr (Suc (next_channel s)) \<and> proto_calls s2 = proto_calls s1"
proof -
  have 1: "r1 = Inl (SubscriptionError err)" "hm_get (subscriptions s1) topic = Some [next_channel s]"
    "gossipsub_enabled s1" "next_channel s1 = Suc (next_channel s)"
    using assms(1-5) by (auto simp: subscribe_def Let_def)
  with assms(6) have "r2 = Inr (Suc (next_channel s))" "proto_calls s2 = proto_calls s1"
    by (auto simp: subscribe_def Let_def)
  with 1 show ?thesis by simp
qed

lemma refused_subscription_sticks_sample:
  "\<exists>r2 s2. subscribe (sample_net\<lparr>gossip_subscribe := \<lambda>_. Inl ''refused''\<rparr>) ''t''
      (snd (subscribe (sample_net\<lparr>gossip_subscribe := \<lambda>_. Inl ''refused''\<rparr>) ''t'' (backend sample_task))) = (r2, s2) \<and>
    r2 = Inr 1"
proof -
  let ?N = "sample_net\<lparr>gossip_subscribe := \<lambda>_. Inl ''refused''\<rparr>"
  obtain r1 s1 where 1: "subscribe ?N ''t'' (backend sample_task) = (r1, s1)" by (cases "subscribe ?N ''t'' (backend sample_task)")
  obtain r2 s2 where 2: "subscribe ?N ''t'' s1 = (r2, s2)" by (cases "subscribe ?N ''t'' s1")
  from refused_subscription_sticks [OF _ _ _ _ 1 2, of "''refused''"] 1 2 show ?thesis
    by (simp add: sample_task_def task_new_def sample_net_def)
qed

end
