(* ===== verification/Queries.thy ===== *)
theory Queries
  imports TaskInvariant
begin

text \<open>
  The life of a query. A query of Kademlia or bitswap waits in the table of the task until
  its protocol reports the end, it is cancelled or the task ends, whatever other inputs are
  handled meanwhile; then its caller is answered with the result. The events of a sync
  query reach its channel in the order in which bitswap reports them, and the channel is
  closed by the first completion.
\<close>

subsection \<open>Waiting\<close>

text \<open>The inputs that end a query.\<close>

fun concerns :: "query_id \<Rightarrow> 'ma input \<Rightarrow> bool" where
  "concerns q (FromSwarm (SwKad (OutboundQueryCompleted i _))) = (q = KadQuery i)"
| "concerns q (FromSwarm (SwBitswap (BitswapComplete i _))) = (q = BitswapQuery i)"
| "concerns q (Command (CmdCancelQuery i)) = (q = i)"
| "concerns q SwarmEnded = True"
| "concerns q CommandsEnded = True"
| "concerns q _ = False"

text \<open>The protocols do not use the id of a query again in later calls.\<close>

definition not_reissued :: "'ma net_env \<Rightarrow> query_id \<Rightarrow> nat \<Rightarrow> bool" where
  "not_reissued N q k \<longleftrightarrow> (\<forall>cs i. k < length cs \<longrightarrow>
     q \<noteq> BitswapQuery (bitswap_get N cs) \<and> q \<noteq> BitswapQuery (bitswap_sync N cs) \<and>
     q \<noteq> KadQuery (kad_get_providers N cs) \<and> q \<noteq> KadQuery (kad_get_record N cs) \<and>
     (kad_bootstrap N cs = Inr i \<or> kad_start_providing N cs = Inr i \<or> kad_put_record N cs = Inr i \<longrightarrow>
        q \<noteq> KadQuery i))"

definition waits :: "query_id \<Rightarrow> query_channel \<Rightarrow> nat \<Rightarrow> 'ma backend \<Rightarrow> bool" where
  "waits q qc k s \<longleftrightarrow> hm_get (queries s) q = Some qc \<and> k \<le> length (proto_calls s)"

text \<open>A step that does not touch the query table.\<close>

definition leaves :: "'ma backend \<Rightarrow> 'ma backend \<Rightarrow> bool" where
  "leaves s s' \<longleftrightarrow> queries s' = queries s \<and> length (proto_calls s) \<le> length (proto_calls s')"

lemma leaves_refl [simp]: "leaves s s"
  by (simp add: leaves_def)

lemma leaves_trans: "leaves s s1 \<Longrightarrow> leaves s1 s2 \<Longrightarrow> leaves s s2"
  by (simp add: leaves_def)

lemma waits_leaves: "waits q qc k s \<Longrightarrow> leaves s s' \<Longrightarrow> waits q qc k s'"
  by (simp add: waits_def leaves_def)

lemma leaves_frame [simp]:
  "leaves s (s\<lparr>book := b\<rparr>)" "leaves s (s\<lparr>next_channel := n\<rparr>)" "leaves s (send_reply ch r s)"
  "leaves s (drop_oneshot ch s)" "leaves s (call c s)" "leaves s (send_sync N tx ev s)"
  by (simp_all add: leaves_def send_reply_def drop_oneshot_def send_sync_def)

lemma leaves_with_book: "with_book f s = Some s' \<Longrightarrow> leaves s s'"
  by (auto simp: with_book_def)

lemma leaves_add_address: "backend_add_address N p a src s = Some s' \<Longrightarrow> leaves s s'"
  by (auto simp: backend_add_address_def with_book_def Let_def leaves_def split: if_splits)

lemma leaves_add_addresses: "add_addresses N src as s = Some s' \<Longrightarrow> leaves s s'"
  by (induction N src as s rule: add_addresses.induct)
    (auto simp: bind_eq_Some_conv intro: leaves_trans leaves_add_address)

lemma leaves_add_and_dial: "add_and_dial N as s = Some s' \<Longrightarrow> leaves s s'"
proof (induction as arbitrary: s)
  case (Cons x as)
  obtain p a where x: "x = (p, a)" by (cases x)
  with Cons.prems obtain s1 where "backend_add_address N p a User s = Some s1"
    "add_and_dial N as (s1\<lparr>book := dial p (book s1)\<rparr>) = Some s'"
    by (auto simp: bind_eq_Some_conv)
  then show ?case
    using leaves_trans [OF leaves_add_address leaves_trans [OF leaves_frame(1) Cons.IH]] by blast
qed simp

lemma leaves_notify_subscribers: "leaves s (notify_subscribers N topic ev s)"
  by (auto simp: notify_subscribers_def unsubscribe_def leaves_def Let_def split: option.splits prod.splits)

lemma leaves_notify: "leaves s (notify_subscribers N topic ev (s\<lparr>book := b\<rparr>))"
  by (rule leaves_trans [OF leaves_frame(1) leaves_notify_subscribers])

lemma leaves_subscribe: "leaves s (snd (subscribe N topic s))"
  by (auto simp: subscribe_def leaves_def Let_def split: option.splits sum.splits)

lemma leaves_publish: "leaves s (snd (publish N topic msg s))" "leaves s (snd (broadcast N topic msg s))"
  by (auto simp: publish_def broadcast_def Let_def split: sum.splits publish_error.splits)

lemma leaves_subscribe_events: "leaves s (snd (subscribe_events s))"
  by (simp add: subscribe_events_def leaves_def Let_def)

lemma leaves_reply: "leaves s s' \<Longrightarrow> leaves s (send_reply tx r s')"
  by (rule leaves_trans [OF _ leaves_frame(3)])

text \<open>Changes of the table at another query.\<close>

lemma waits_other:
  "waits q qc k s \<Longrightarrow> q \<noteq> i \<Longrightarrow> waits q qc k (insert_query i qc' s)"
  "waits q qc k s \<Longrightarrow> q \<noteq> i \<Longrightarrow> waits q qc k (remove_query i s)"
  "waits q qc k s \<Longrightarrow> q \<noteq> i \<Longrightarrow> waits q qc k (answer_query sel i r s)"
  by (auto simp: waits_def insert_query_def remove_query_def answer_query_def send_reply_def Let_def
      split: option.splits)

lemma waits_frame [simp]:
  "waits q qc k (s\<lparr>bootstrapped := x\<rparr>) = waits q qc k s" "waits q qc k (s\<lparr>book := b\<rparr>) = waits q qc k s"
  by (simp_all add: waits_def)

lemma waits_call: "waits q qc k s \<Longrightarrow> waits q qc k (call c s)"
  by (rule waits_leaves [OF _ leaves_frame(5)])

lemma waits_query_result:
  "waits q qc k s \<Longrightarrow> q \<noteq> KadQuery i \<Longrightarrow> waits q qc k (inject_query_result N i r s)"
  by (induction N i r s rule: inject_query_result.induct) (simp_all add: waits_other)

lemma waits_queries:
  assumes "waits q qc k s" "not_reissued N q k"
  shows "waits q qc k (bootstrap N tx s)" "waits q qc k (provide N key tx s)"
    "waits q qc k (providers N key tx s)" "waits q qc k (get_record N key quorum tx s)"
    "waits q qc k (put_record N rec quorum tx s)"
proof -
  have k: "k < length (proto_calls s @ [c])" for c
    using assms(1) by (simp add: waits_def)
  note fresh = assms(2) [unfolded not_reissued_def, rule_format, OF k]
  have r: "waits q qc k (send_reply tx rep s')" "waits q qc k (drop_oneshot tx s')" if "waits q qc k s'" for rep s'
    using that waits_leaves by fastforce+
  show "waits q qc k (bootstrap N tx s)" "waits q qc k (provide N key tx s)"
    "waits q qc k (put_record N rec quorum tx s)"
    using assms(1) fresh
    by (auto simp: bootstrap_def provide_def put_record_def Let_def intro!: r waits_other waits_call split: sum.splits)
  show "waits q qc k (providers N key tx s)" "waits q qc k (get_record N key quorum tx s)"
    using assms(1) fresh
    by (auto simp: providers_def get_record_def Let_def intro!: r waits_other waits_call)
qed

lemma waits_get_sync:
  assumes "waits q qc k s" "not_reissued N q k"
  shows "backend_get N c ps s = Some (r, s') \<Longrightarrow> waits q qc k s'"
    "backend_sync N c ps m s = Some (r', s') \<Longrightarrow> waits q qc k s'"
    "cancel i s = Some s' \<Longrightarrow> q \<noteq> i \<Longrightarrow> waits q qc k s'"
proof -
  have k: "k < length (proto_calls s @ [c])" for c
    using assms(1) by (simp add: waits_def)
  note fresh = assms(2) [unfolded not_reissued_def, rule_format, OF k]
  have n: "waits q qc k (s\<lparr>next_channel := n\<rparr>)" for n
    using assms(1) by (simp add: waits_def)
  show "backend_get N c ps s = Some (r, s') \<Longrightarrow> waits q qc k s'"
    "backend_sync N c ps m s = Some (r', s') \<Longrightarrow> waits q qc k s'"
    using fresh n by (auto simp: backend_get_def backend_sync_def Let_def intro!: waits_other waits_call split: if_splits)
  show "cancel i s = Some s' \<Longrightarrow> q \<noteq> i \<Longrightarrow> waits q qc k s'"
    using assms(1) by (auto simp: cancel_def Let_def intro!: waits_other waits_call split: query_id.splits if_splits)
qed

lemma waits_backend_command:
  assumes "waits q qc k s" "not_reissued N q k" "\<not> concerns q (Command cmd)" "backend_command N cmd s = Some s'"
  shows "waits q qc k s'"
proof -
  note l = waits_leaves [OF assms(1)]
  have reply: "waits q qc k (send_reply tx r s1)" if "waits q qc k s1" for tx r s1
    by (rule waits_leaves [OF that]) simp
  show ?thesis
  proof (cases cmd)
    case (CmdBootstrap initial tx)
    with assms show ?thesis by (auto intro: waits_queries(1) [OF l [OF leaves_add_and_dial]])
  next
    case (CmdSubscribe topic tx)
    with assms(4) leaves_subscribe [of s N topic] show ?thesis by (auto intro!: reply [OF l] split: prod.splits)
  next
    case (CmdPublish topic msg tx)
    with assms(4) leaves_publish(1) [of s N topic msg] show ?thesis by (auto intro!: reply [OF l] split: prod.splits)
  next
    case (CmdBroadcast topic msg tx)
    with assms(4) leaves_publish(2) [of s N topic msg] show ?thesis by (auto intro!: reply [OF l] split: prod.splits)
  next
    case (CmdSwarmEvents tx)
    with assms(4) leaves_subscribe_events [of s] show ?thesis by (auto intro!: reply [OF l] split: prod.splits)
  next
    case (CmdGet c ps tx)
    with assms show ?thesis by (auto intro: reply [OF waits_get_sync(1)])
  next
    case (CmdSync c ps m tx)
    with assms show ?thesis by (auto intro: reply [OF waits_get_sync(2)])
  next
    case (CmdCancelQuery i)
    with assms show ?thesis by (auto intro: waits_get_sync(3))
  next
    case (CmdAddAddress p a)
    with assms(4) show ?thesis by (auto intro: l leaves_add_address)
  qed (use assms in \<open>auto simp: backend_remove_address_def unprovide_def remove_record_def Let_def
      intro!: waits_queries waits_call split: if_splits\<close>)
qed

lemma waits_swarm_event:
  assumes "waits q qc k s" "\<not> concerns q (FromSwarm e)" "on_swarm_event N e s = Some s'"
  shows "waits q qc k s'"
proof -
  note l = waits_leaves [OF assms(1)]
  show ?thesis
  proof (cases e)
    case (SwKad ev)
    with assms show ?thesis by (cases ev) (auto intro: waits_query_result)
  next
    case (SwMdns ev)
    with assms show ?thesis by (cases ev) (auto intro: l leaves_add_addresses)
  next
    case (SwPing p r)
    with assms show ?thesis by (cases r) (auto simp: inject_ping_event_def intro: l leaves_with_book)
  next
    case (SwIdentify ev)
    with assms show ?thesis by (cases ev) (auto intro: l leaves_with_book)
  next
    case (SwBitswap ev)
    show ?thesis
    proof (cases ev)
      case (BitswapProgress i missing)
      with SwBitswap assms show ?thesis by (auto intro: l split: option.splits query_channel.splits)
    next
      case (BitswapComplete i result)
      with SwBitswap assms show ?thesis
        by (auto simp: waits_def Let_def send_reply_def send_sync_def split: option.splits query_channel.splits)
    qed
  next
    case (SwGossipsub ev)
    with assms show ?thesis by (cases ev) (auto intro!: l leaves_notify leaves_notify_subscribers)
  next
    case (SwBroadcast ev)
    with assms show ?thesis
      by (cases ev) (auto intro!: l leaves_notify leaves_notify_subscribers split: option.splits)
  qed (use assms in auto)
qed

lemma waits_step:
  assumes "waits q qc k (backend t)" "not_reissued N q k" "\<not> concerns q i" "swarm_step N i t = Some (ended, t')"
  shows "\<not> ended \<and> waits q qc k (backend t')"
proof (cases i)
  case (Command cmd)
  with assms(4) have c: "swarm_command N cmd t = Some t'" "\<not> ended" by auto
  show ?thesis
  proof (cases cmd)
    case (CmdListenOn addr response)
    have "waits q qc k (call (SwarmListenOn addr) s)" if "subscribe_events (backend t) = (rx, s)" for rx s
      using waits_call [OF waits_leaves [OF assms(1) leaves_subscribe_events]] that by simp
    with c CmdListenOn show ?thesis
      by (auto simp: swarm_command_def listen_on_def Let_def split: prod.splits sum.splits)
  qed (use c assms(1-3) Command in \<open>auto simp: swarm_command_def simp del: backend_command.simps
      elim!: waits_backend_command [rotated 3]\<close>)
next
  case (FromSwarm e)
  with assms show ?thesis by (auto intro: waits_swarm_event)
next
  case (Callback op)
  with assms show ?thesis by (auto intro: waits_leaves [OF assms(1) leaves_with_book])
qed (use assms(3) in simp_all)

lemma waits_run:
  assumes "waits q qc k (backend t)" "not_reissued N q k" "list_all (\<lambda>i. \<not> concerns q i) is"
    "poll_swarm N (is @ js) t = Some (ended, t')"
  shows "\<exists>t1. waits q qc k (backend t1) \<and> poll_swarm N js t1 = Some (ended, t')"
  using assms
proof (induction "is" arbitrary: t)
  case (Cons i "is")
  then obtain e t1 where step: "swarm_step N i t = Some (e, t1)"
    "if e then ended \<and> t' = t1 else poll_swarm N (is @ js) t1 = Some (ended, t')"
    by (auto simp: bind_eq_Some_conv split: if_splits)
  with waits_step [OF Cons.prems(1,2) _ step(1)] Cons.prems(3) have "\<not> e" "waits q qc k (backend t1)" by auto
  with step Cons show ?case by simp
qed auto

subsection \<open>Answers\<close>

text \<open>The reply that a completed Kademlia query owes to the channel that waits for it.\<close>

fun owed :: "query_channel \<Rightarrow> query_result \<Rightarrow> (oneshot \<times> reply) option" where
  "owed (BootstrapQ ch) (BootstrapResult r) =
     (case r of Inr n \<Rightarrow> if n = 0 then Some (ch, ReplyUnit (Inr ())) else None
      | Inl e \<Rightarrow> Some (ch, ReplyUnit (Inl (KadBootstrapError e))))"
| "owed (GetClosestPeersQ ch) (GetClosestPeersResult r) =
     Some (ch, ReplyPeers (map_sum KadGetClosestPeersError id r))"
| "owed (GetProvidersQ ch) (GetProvidersResult r) =
     Some (ch, ReplyProviders (map_sum KadGetProvidersError id r))"
| "owed (StartProvidingQ ch) (StartProvidingResult r) =
     Some (ch, ReplyUnit (map_sum KadAddProviderError id r))"
| "owed (GetRecordQ ch) (GetRecordResult r) = Some (ch, ReplyRecords (map_sum KadGetRecordError id r))"
| "owed (PutRecordQ ch) (PutRecordResult r) = Some (ch, ReplyUnit (map_sum KadPutRecordError id r))"
| "owed _ _ = None"

lemma answer_query_spec:
  assumes "hm_get (queries s) j = Some qc" "sel qc = Some ch"
  shows "outcomes (answer_query sel j reply s) = outcomes s @ [(ch, Replied reply)]"
    "queries (answer_query sel j reply s) = hm_remove j (queries s)"
  using assms by (simp_all add: answer_query_def send_reply_def)

lemmas sel_defs = sel_bootstrap_def sel_closest_peers_def sel_providers_def sel_start_providing_def
  sel_get_record_def sel_put_record_def

lemma completion_answers:
  assumes "hm_get (queries s) (KadQuery i) = Some qc" "owed qc r = Some (ch, reply)"
  shows "outcomes (inject_query_result N i r s) = outcomes s @ [(ch, Replied reply)] \<and>
    hm_get (queries (inject_query_result N i r s)) (KadQuery i) = None"
proof -
  have boot: "hm_get (queries (s\<lparr>bootstrapped := True\<rparr>)) (KadQuery i) = Some qc"
    using assms(1) by simp
  show ?thesis
    using assms(2) answer_query_spec [OF assms(1)] answer_query_spec [OF boot]
    by (cases r; rename_tac x; case_tac x; cases qc) (simp_all add: sel_defs split: if_splits)
qed



subsection \<open>The stream of a sync query\<close>

text \<open>What bitswap reports of one query, up to its first completion.\<close>

fun sync_stream :: "nat \<Rightarrow> bitswap_event list \<Rightarrow> sync_event list" where
  "sync_stream i [] = []"
| "sync_stream i (BitswapProgress j missing # evs) =
     (if j = i then Progress missing # sync_stream i evs else sync_stream i evs)"
| "sync_stream i (BitswapComplete j result # evs) =
     (if j = i then [Complete result] else sync_stream i evs)"

definition sent_to :: "sender \<Rightarrow> sync_event history \<Rightarrow> sync_event list" where
  "sent_to tx h = map (\<lambda>(_, ev, _). ev) (filter (\<lambda>(tx', _). tx' = tx) h)"

definition completes :: "nat \<Rightarrow> bitswap_event \<Rightarrow> bool" where
  "completes i ev \<longleftrightarrow> (\<exists>r. ev = BitswapComplete i r)"

text \<open>The only entry with this channel.\<close>

definition streams :: "nat \<Rightarrow> sender \<Rightarrow> 'ma backend \<Rightarrow> bool" where
  "streams i tx s \<longleftrightarrow> hm_get (queries s) (BitswapQuery i) = Some (SyncQ tx) \<and>
     (\<forall>j. hm_get (queries s) j = Some (SyncQ tx) \<longrightarrow> j = BitswapQuery i)"

definition unheard :: "sender \<Rightarrow> 'ma backend \<Rightarrow> bool" where
  "unheard tx s \<longleftrightarrow> (\<forall>j. hm_get (queries s) j \<noteq> Some (SyncQ tx))"

lemma sent_to_simps [simp]:
  "sent_to tx (h @ h') = sent_to tx h @ sent_to tx h'" "sent_to tx [] = []"
  "sent_to tx ((tx', ev, ok) # h) = (if tx' = tx then ev # sent_to tx h else sent_to tx h)"
  by (simp_all add: sent_to_def)

lemma unheard_step:
  "unheard tx s \<Longrightarrow> unheard tx (inject_bitswap_event N ev s) \<and>
     sent_to tx (sync_sent (inject_bitswap_event N ev s)) = sent_to tx (sync_sent s) \<and>
     (tx \<in> set (sync_closed (inject_bitswap_event N ev s)) \<longleftrightarrow> tx \<in> set (sync_closed s))"
  by (cases ev) (auto simp: unheard_def send_sync_def send_reply_def drop_channel_def drop_oneshot_def Let_def
      split: option.splits query_channel.splits)

lemma unheard_run:
  "unheard tx s \<Longrightarrow> sent_to tx (sync_sent (fold (inject_bitswap_event N) evs s)) = sent_to tx (sync_sent s) \<and>
     (tx \<in> set (sync_closed (fold (inject_bitswap_event N) evs s)) \<longleftrightarrow> tx \<in> set (sync_closed s))"
  using unheard_step by (induction evs arbitrary: s) fastforce+

lemma streams_progress:
  assumes "streams i tx s"
  shows "streams i tx (inject_bitswap_event N (BitswapProgress j missing) s)"
    "sent_to tx (sync_sent (inject_bitswap_event N (BitswapProgress j missing) s)) =
       sent_to tx (sync_sent s) @ (if j = i then [Progress missing] else [])"
    "sync_closed (inject_bitswap_event N (BitswapProgress j missing) s) = sync_closed s"
  using assms by (auto simp: streams_def send_sync_def split: option.splits query_channel.splits)

lemma streams_other:
  assumes "streams i tx s" "j \<noteq> i"
  shows "streams i tx (inject_bitswap_event N (BitswapComplete j r) s)"
    "sent_to tx (sync_sent (inject_bitswap_event N (BitswapComplete j r) s)) = sent_to tx (sync_sent s)"
    "tx \<in> set (sync_closed (inject_bitswap_event N (BitswapComplete j r) s)) \<longleftrightarrow> tx \<in> set (sync_closed s)"
  using assms by (auto simp: streams_def send_sync_def send_reply_def drop_channel_def drop_oneshot_def Let_def
      split: option.splits query_channel.splits)

lemma streams_complete:
  assumes "streams i tx s"
  shows "unheard tx (inject_bitswap_event N (BitswapComplete i r) s)"
    "sent_to tx (sync_sent (inject_bitswap_event N (BitswapComplete i r) s)) =
       sent_to tx (sync_sent s) @ [Complete r]"
    "tx \<in> set (sync_closed (inject_bitswap_event N (BitswapComplete i r) s))"
  using assms by (auto simp: streams_def unheard_def send_sync_def drop_channel_def)

text \<open>
  C13. The channel of a sync query carries exactly what bitswap reports of this query: the
  reports of progress in order, then the completion, after which nothing more is sent; the
  channel is closed by the completion and not before.
\<close>

theorem sync_stream_exact:
  assumes "hm_get (queries s) (BitswapQuery i) = Some (SyncQ tx)"
    "\<forall>j. hm_get (queries s) j = Some (SyncQ tx) \<longrightarrow> j = BitswapQuery i" "tx \<notin> set (sync_closed s)"
  shows "sent_to tx (sync_sent (fold (inject_bitswap_event N) evs s)) =
      sent_to tx (sync_sent s) @ sync_stream i evs \<and>
    (tx \<in> set (sync_closed (fold (inject_bitswap_event N) evs s)) \<longleftrightarrow> list_ex (completes i) evs)"
proof -
  have "streams i tx s" unfolding streams_def by (intro conjI assms)
  with assms(3) show ?thesis
  proof (induction evs arbitrary: s)
    case (Cons ev evs)
    show ?case
    proof (cases ev)
      case (BitswapProgress j missing)
      with Cons.IH [of "inject_bitswap_event N ev s"] Cons.prems streams_progress [OF Cons.prems(2), of N j missing]
      show ?thesis by (simp add: completes_def del: inject_bitswap_event.simps)
    next
      case (BitswapComplete j r)
      show ?thesis
      proof (cases "j = i")
        case True
        note c = streams_complete [OF Cons.prems(2), of N r]
        with BitswapComplete True unheard_run [OF c(1), of N evs] show ?thesis
          by (simp add: completes_def del: inject_bitswap_event.simps)
      next
        case False
        with BitswapComplete Cons.IH [of "inject_bitswap_event N ev s"] Cons.prems
          streams_other [OF Cons.prems(2) False, of N r]
        show ?thesis by (simp add: completes_def del: inject_bitswap_event.simps)
      qed
    qed
  qed simp
qed

theorem sync_stream_exact_witness:
  "let s = (backend sample_task)\<lparr>queries := [(BitswapQuery 1, SyncQ 4)]\<rparr>;
       s' = fold (inject_bitswap_event sample_net) [BitswapProgress 1 3, BitswapComplete 1 (Inr ())] s
   in sent_to 4 (sync_sent s') = [Progress 3, Complete (Inr ())] \<and> 4 \<in> set (sync_closed s')"
  using sync_stream_exact [of "(backend sample_task)\<lparr>queries := [(BitswapQuery 1, SyncQ 4)]\<rparr>" 1 4 sample_net
      "[BitswapProgress 1 3, BitswapComplete 1 (Inr ())]"]
  by (simp add: sample_task_def task_new_def completes_def Let_def)

end
