(* ===== verification/Service.thy ===== *)
theory Service
  imports Network
begin

text \<open>
  The handle through which a program talks to the network task, \<open>NetworkService\<close> in
  \<open>src/src/net/mod.rs\<close>. Its methods put commands into the bounded command channel or read
  the variables that the task shares with it. What \<open>try_send\<close> reports is given with each
  call; a command is in the channel when it reported success.
\<close>

subsection \<open>The handle\<close>

datatype try_send = SendOk | SendFull | SendDisconnected

text \<open>
  The command channel is the list of the commands it accepted. New one-shot and response
  channels are numbered. Events that a method itself sends on a response channel are listed.
\<close>

record 'ma service =
  svc_public_key :: string
  svc_peer_id :: peer_id
  svc_node_name :: string
  next_request :: nat
  cmd_queue :: "'ma network_command list"
  listen_errors :: "(sender \<times> 'ma listener_event) list"

definition service_new :: "string \<Rightarrow> peer_id \<Rightarrow> string \<Rightarrow> 'ma service" where
  "service_new key peer name =
     \<lparr>svc_public_key = key, svc_peer_id = peer, svc_node_name = name, next_request = 0,
      cmd_queue = [], listen_errors = []\<rparr>"

definition handle_send_result :: "'c \<Rightarrow> try_send \<Rightarrow> ('c \<times> string) option" where
  "handle_send_result msg r =
     (case r of
        SendOk \<Rightarrow> None
      | SendDisconnected \<Rightarrow> Some (msg, ''receiver went away'')
      | SendFull \<Rightarrow> Some (msg, ''channel is full''))"

text \<open>\<open>cmd\<close> and \<open>cmd_shared\<close>: the command and the reason come back when it was not accepted.\<close>

definition service_cmd :: "try_send \<Rightarrow> 'ma network_command \<Rightarrow> 'ma service \<Rightarrow>
    ('ma network_command \<times> string) option \<times> 'ma service" where
  "service_cmd r msg v =
     (handle_send_result msg r, if r = SendOk then v\<lparr>cmd_queue := cmd_queue v @ [msg]\<rparr> else v)"

subsection \<open>Methods without a reply\<close>

text \<open>The result of a failed send is ignored.\<close>

definition send_cmd :: "try_send \<Rightarrow> 'ma network_command \<Rightarrow> 'ma service \<Rightarrow> 'ma service" where
  "send_cmd r msg v = snd (service_cmd r msg v)"

definition service_add_external_address :: "'ma env \<Rightarrow> try_send \<Rightarrow> 'ma \<Rightarrow> 'ma service \<Rightarrow> 'ma service" where
  "service_add_external_address E r addr v =
     send_cmd r (CmdAddExternalAddress (normalize_addr E addr (svc_peer_id v))) v"

definition service_add_address :: "try_send \<Rightarrow> peer_id \<Rightarrow> 'ma \<Rightarrow> 'ma service \<Rightarrow> 'ma service" where
  "service_add_address r peer addr = send_cmd r (CmdAddAddress peer addr)"

definition service_remove_address :: "try_send \<Rightarrow> peer_id \<Rightarrow> 'ma \<Rightarrow> 'ma service \<Rightarrow> 'ma service" where
  "service_remove_address r peer addr = send_cmd r (CmdRemoveAddress peer addr)"

definition service_prune_peers :: "try_send \<Rightarrow> duration \<Rightarrow> 'ma service \<Rightarrow> 'ma service" where
  "service_prune_peers r min_age = send_cmd r (CmdPrunePeers min_age)"

definition service_dial :: "try_send \<Rightarrow> peer_id \<Rightarrow> 'ma service \<Rightarrow> 'ma service" where
  "service_dial r peer = send_cmd r (CmdDial peer)"

definition service_dial_address :: "try_send \<Rightarrow> peer_id \<Rightarrow> 'ma \<Rightarrow> 'ma service \<Rightarrow> 'ma service" where
  "service_dial_address r peer addr = send_cmd r (CmdDialAddress peer addr)"

definition service_ban :: "try_send \<Rightarrow> peer_id \<Rightarrow> 'ma service \<Rightarrow> 'ma service" where
  "service_ban r peer = send_cmd r (CmdBan peer)"

definition service_unban :: "try_send \<Rightarrow> peer_id \<Rightarrow> 'ma service \<Rightarrow> 'ma service" where
  "service_unban r peer = send_cmd r (CmdUnban peer)"

text \<open>
  \<open>listen_on\<close> returns the receiver of a new channel, here its token; when the command cannot
  be sent the reason is sent on it.
\<close>

definition service_listen_on :: "try_send \<Rightarrow> 'ma \<Rightarrow> 'ma service \<Rightarrow> sender \<times> 'ma service" where
  "service_listen_on r addr v =
     (let tx = next_request v;
          (failed, v) = service_cmd r (CmdListenOn addr tx) (v\<lparr>next_request := Suc tx\<rparr>)
      in (tx, case failed of
                Some (CmdListenOn addr tx, reason) \<Rightarrow>
                  v\<lparr>listen_errors := listen_errors v @
                      [(tx, ListenFailed addr (''cannot send to Swarm: '' @ reason))]\<rparr>
              | _ \<Rightarrow> v))"

subsection \<open>Requests\<close>

text \<open>
  A request creates a one-shot channel and sends its sender along. When the command cannot
  be sent the future is ready with the reason, else it waits for the channel; a dropped
  sender is an error.
\<close>

datatype request = ReadyErr string | Await oneshot

definition service_request :: "try_send \<Rightarrow> (oneshot \<Rightarrow> 'ma network_command) \<Rightarrow> 'ma service \<Rightarrow> request \<times> 'ma service" where
  "service_request r msg v =
     (let rx = CommandChannel (next_request v);
          (failed, v) = service_cmd r (msg rx) (v\<lparr>next_request := Suc (next_request v)\<rparr>)
      in (case failed of Some (_, err) \<Rightarrow> ReadyErr err | None \<Rightarrow> Await rx, v))"

definition service_bootstrap :: "try_send \<Rightarrow> (peer_id \<times> 'ma) list \<Rightarrow> 'ma service \<Rightarrow> request \<times> 'ma service" where
  "service_bootstrap r nodes = service_request r (CmdBootstrap nodes)"

definition service_providers :: "try_send \<Rightarrow> kad_key \<Rightarrow> 'ma service \<Rightarrow> request \<times> 'ma service" where
  "service_providers r key = service_request r (CmdProviders key)"

definition service_provide :: "try_send \<Rightarrow> kad_key \<Rightarrow> 'ma service \<Rightarrow> request \<times> 'ma service" where
  "service_provide r key = service_request r (CmdProvide key)"

definition service_get_record :: "try_send \<Rightarrow> kad_key \<Rightarrow> quorum \<Rightarrow> 'ma service \<Rightarrow> request \<times> 'ma service" where
  "service_get_record r key quorum = service_request r (CmdGetRecord key quorum)"

definition service_put_record :: "try_send \<Rightarrow> kad_record \<Rightarrow> quorum \<Rightarrow> 'ma service \<Rightarrow> request \<times> 'ma service" where
  "service_put_record r rec quorum = service_request r (CmdPutRecord rec quorum)"

definition service_subscribe :: "try_send \<Rightarrow> string \<Rightarrow> 'ma service \<Rightarrow> request \<times> 'ma service" where
  "service_subscribe r topic = service_request r (CmdSubscribe topic)"

definition service_publish :: "try_send \<Rightarrow> string \<Rightarrow> bytes \<Rightarrow> 'ma service \<Rightarrow> request \<times> 'ma service" where
  "service_publish r topic msg = service_request r (CmdPublish topic msg)"

definition service_broadcast :: "try_send \<Rightarrow> string \<Rightarrow> bytes \<Rightarrow> 'ma service \<Rightarrow> request \<times> 'ma service" where
  "service_broadcast r topic msg = service_request r (CmdBroadcast topic msg)"

definition service_get :: "try_send \<Rightarrow> cid \<Rightarrow> peer_id list \<Rightarrow> 'ma service \<Rightarrow> request \<times> 'ma service" where
  "service_get r c ps = service_request r (CmdGet c ps)"

definition service_swarm_events :: "try_send \<Rightarrow> 'ma service \<Rightarrow> request \<times> 'ma service" where
  "service_swarm_events r = service_request r CmdSwarmEvents"

text \<open>\<open>unprovide\<close> and \<open>remove_record\<close> report a failed send and wait for nothing.\<close>

definition service_unprovide :: "try_send \<Rightarrow> kad_key \<Rightarrow> 'ma service \<Rightarrow> (string + unit) \<times> 'ma service" where
  "service_unprovide r key v =
     (case service_cmd r (CmdUnprovide key) v of
        (Some (_, err), v) \<Rightarrow> (Inl err, v)
      | (None, v) \<Rightarrow> (Inr (), v))"

definition service_remove_record :: "try_send \<Rightarrow> kad_key \<Rightarrow> 'ma service \<Rightarrow> (string + unit) \<times> 'ma service" where
  "service_remove_record r key v =
     (case service_cmd r (CmdRemoveRecord key) v of
        (Some (_, err), v) \<Rightarrow> (Inl err, v)
      | (None, v) \<Rightarrow> (Inr (), v))"

text \<open>\<open>sync\<close> answers at once when there is nothing to fetch or nobody to ask.\<close>

datatype sync_request = SyncReady sync_query | SyncRequest request

definition service_sync :: "try_send \<Rightarrow> cid \<Rightarrow> peer_id list \<Rightarrow> cid list \<Rightarrow> 'ma service \<Rightarrow> sync_request \<times> 'ma service" where
  "service_sync r c ps missing v =
     (if missing = [] then (SyncReady (sync_query_ready (Inr ())), v)
      else if ps = [] then (SyncReady (sync_query_ready (Inl (BlockNotFound (hd missing)))), v)
      else (case service_request r (CmdSync c ps missing) v of (q, v) \<Rightarrow> (SyncRequest q, v)))"

text \<open>Dropping a query that runs in the network task sends its cancellation; a failure is logged.\<close>

definition service_drop_get :: "try_send \<Rightarrow> query_id \<Rightarrow> 'ma service \<Rightarrow> 'ma service" where
  "service_drop_get r i v = (if r = SendOk then v\<lparr>cmd_queue := cmd_queue v @ get_query_drop i\<rparr> else v)"

definition service_drop_sync :: "try_send \<Rightarrow> sync_query \<Rightarrow> 'ma service \<Rightarrow> 'ma service" where
  "service_drop_sync r q v = (if r = SendOk then v\<lparr>cmd_queue := cmd_queue v @ sync_query_drop q\<rparr> else v)"

subsection \<open>Reading the shared variables\<close>

text \<open>
  The task writes its listeners, peers and external addresses and the bootstrapped flag into
  variables whose readers the service holds: their values are those of the backend.
\<close>

definition service_listeners :: "'ma env \<Rightarrow> 'ma backend \<Rightarrow> 'ma list" where
  "service_listeners E s = hash_set_iter E (listeners (book s))"

definition service_external_addresses :: "'ma backend \<Rightarrow> 'ma address_record list" where
  "service_external_addresses s = external (book s)"

definition service_peers :: "'ma backend \<Rightarrow> peer_id list" where
  "service_peers s = hm_keys (peers (book s))"

definition service_connections :: "'ma backend \<Rightarrow> (peer_id \<times> 'ma \<times> datetime \<times> direction) list" where
  "service_connections s =
     concat (map (\<lambda>(peer, info). map (\<lambda>(a, t). (peer, a, fst t, snd t)) (connections info)) (peers (book s)))"

definition is_connected :: "'ma service \<Rightarrow> 'ma backend \<Rightarrow> peer_id \<Rightarrow> bool" where
  "is_connected v s peer \<longleftrightarrow> peer = svc_peer_id v \<or>
     (case hm_get (peers (book s)) peer of Some info \<Rightarrow> connections info \<noteq> [] | None \<Rightarrow> False)"

definition service_peer_info :: "'ma backend \<Rightarrow> peer_id \<Rightarrow> 'ma peer_info option" where
  "service_peer_info s peer = hm_get (peers (book s)) peer"

definition is_bootstrapped :: "'ma backend \<Rightarrow> bool" where
  "is_bootstrapped s = bootstrapped s"

end
