(* ===== verification/Clients.thy ===== *)
theory Clients
  imports Service NetworkProperties
begin

text \<open>
  The client side of \<open>src/src/net/mod.rs\<close>: awaiting a sync query, following a listener,
  and reading the shared peer table.
\<close>

subsection \<open>Awaiting a sync query\<close>

lemma sync_poll_unfold:
  "sync_poll q =
     (case sq_events q of
        Complete r # evs \<Rightarrow> Some (Ready r, q\<lparr>sq_events := evs\<rparr>)
      | Progress k # evs \<Rightarrow> sync_poll (q\<lparr>sq_events := evs\<rparr>)
      | [] \<Rightarrow> if sq_closed q then sync_poll q else Some (Pending, q))"
  by (subst sync_poll.simps)
    (simp add: sync_poll_next_def split: list.splits sync_event.splits)

lemma sync_poll_steps:
  "sync_poll \<lparr>sq_id = i, sq_events = map Progress ks @ Complete r # evs, sq_closed = c\<rparr> =
      Some (Ready r, \<lparr>sq_id = i, sq_events = evs, sq_closed = c\<rparr>)"
  "sync_poll \<lparr>sq_id = i, sq_events = map Progress ks, sq_closed = False\<rparr> =
      Some (Pending, \<lparr>sq_id = i, sq_events = [], sq_closed = False\<rparr>)"
  by (induction ks) (simp_all add: sync_poll_unfold [of "\<lparr>sq_id = i, sq_events = e, sq_closed = d\<rparr>" for e d])

text \<open>
  Awaiting a sync query skips the reports of progress: the future is ready with the
  result of the first completion that is queued, and as long as the query has not completed
  and is still running, the future is pending and the queue is empty.
\<close>

lemma sync_poll_result:
  "sync_poll \<lparr>sq_id = i, sq_events = map Progress ks @ Complete r # evs, sq_closed = c\<rparr> =
      Some (Ready r, \<lparr>sq_id = i, sq_events = evs, sq_closed = c\<rparr>) \<and>
    sync_poll \<lparr>sq_id = i, sq_events = map Progress ks, sq_closed = False\<rparr> =
      Some (Pending, \<lparr>sq_id = i, sq_events = [], sq_closed = False\<rparr>)"
  by (simp add: sync_poll_steps)

text \<open>The loop on a closed channel: its approximations are all undefined.\<close>

lemma sync_poll_closed:
  assumes "sync_poll q = Some r"
  shows "sq_closed q \<longrightarrow> (\<exists>x. Complete x \<in> set (sq_events q))"
proof (rule sync_poll.raw_induct [OF _ assms])
  fix f and q :: sync_query and r
  assume IH: "\<And>q r. f q = Some r \<Longrightarrow> sq_closed q \<longrightarrow> (\<exists>x. Complete x \<in> set (sq_events q))"
    and step: "(case sync_poll_next q of
        (Ready (Some (Complete result)), q') \<Rightarrow> Some (Ready result, q')
      | (Ready (Some _), q') \<Rightarrow> f q' | (Ready None, q') \<Rightarrow> f q'
      | (Pending, q') \<Rightarrow> Some (Pending, q')) = Some r"
  show "sq_closed q \<longrightarrow> (\<exists>x. Complete x \<in> set (sq_events q))"
  proof (cases "sq_events q")
    case Nil
    with step IH [of q r] show ?thesis by (auto simp: sync_poll_next_def split: if_splits)
  next
    case (Cons ev evs)
    with step IH [of "q\<lparr>sq_events := evs\<rparr>" r] show ?thesis
      by (cases ev) (auto simp: sync_poll_next_def)
  qed
qed

text \<open>
  C39. When the network task goes away before a sync query completes, awaiting the query
  never returns: the closed channel is polled again and again, whatever reports of progress
  are queued.
\<close>

theorem sync_poll_spins_when_closed:
  assumes "sq_closed q" "\<forall>r. Complete r \<notin> set (sq_events q)"
  shows "sync_poll q = None"
  using sync_poll_closed [of q] assms by (cases "sync_poll q") auto

theorem sync_poll_spins_when_closed_witness:
  "sync_poll \<lparr>sq_id = Some (BitswapQuery 1), sq_events = [Progress 3], sq_closed = True\<rparr> = None"
  by (rule sync_poll_spins_when_closed) simp_all

text \<open>
  A sync that has nothing to fetch completes at once, and one that misses blocks but
  has no provider fails at once with the first missing block; neither sends a command to
  the network, not even when the query is dropped.
\<close>

lemma trivial_sync_is_ready:
  assumes "missing = [] \<or> ps = []"
  shows "\<exists>q q'. service_sync r c ps missing v = (SyncReady q, v) \<and>
    sync_poll q = Some (Ready (if missing = [] then Inr () else Inl (BlockNotFound (hd missing))), q') \<and>
    service_drop_sync r q v = v"
  using assms sync_poll_steps(1) [of None "[]" _ "[]" True]
  by (auto simp: service_sync_def sync_query_ready_def service_drop_sync_def sync_query_drop_def)

subsection \<open>Following a listener\<close>

text \<open>What a listener event says about one listener.\<close>

definition about_listener :: "listener_id \<Rightarrow> 'ma event \<Rightarrow> 'ma listener_event option" where
  "about_listener l ev =
     (case ev of
        NewListenAddr i addr \<Rightarrow> if i = l then Some (ListenerNewAddr addr) else None
      | ExpiredListenAddr i addr \<Rightarrow> if i = l then Some (ListenerExpiredAddr addr) else None
      | _ \<Rightarrow> None)"

text \<open>
  The stream of a listener contains exactly the new and expired addresses of this
  listener, in order, up to the point where the listener is closed or the caller stops
  listening: with \<open>m\<close> sends accepted, the first \<open>m\<close> of them.
\<close>

lemma forward_listener_events_spec:
  assumes "\<forall>i < m. ok i" "\<not> ok m"
  shows "forward_listener_events l ok 0 evs =
    take m (List.map_filter (about_listener l) (takeWhile (\<lambda>ev. ev \<noteq> ListenerClosed l) evs))"
proof -
  have "forward_listener_events l ok n evs =
      take (m - n) (List.map_filter (about_listener l) (takeWhile (\<lambda>ev. ev \<noteq> ListenerClosed l) evs))" if "n \<le> m" for n
    using that
  proof (induction evs arbitrary: n)
    case Nil
    then show ?case by simp
  next
    case (Cons ev evs)
    have ok: "ok n \<longleftrightarrow> n < m" using Cons.prems assms by (cases "n = m") auto
    show ?case
    proof (cases "about_listener l ev")
      case None
      then show ?thesis
        using Cons by (cases ev) (auto simp: about_listener_def List.map_filter_simps split: if_splits)
    next
      case (Some x)
      then have "forward_listener_events l ok n (ev # evs) =
          (if ok n then x # forward_listener_events l ok (Suc n) evs else [])" "ev \<noteq> ListenerClosed l"
        by (cases ev; auto simp: about_listener_def split: if_splits)+
      with Cons.IH [of "Suc n"] Some ok show ?thesis
        by (cases "n < m") (auto simp: List.map_filter_simps simp flip: Suc_diff_Suc)
    qed
  qed
  from this [of 0] show ?thesis by simp
qed

lemma forward_listener_events_spec_sample:
  "forward_listener_events 1 (\<lambda>i. i < 1) 0 [NewListenAddr 1 [Tcp 1], NewListenAddr 2 [Tcp 2],
      ExpiredListenAddr 1 [Tcp 1], ListenerClosed 1] = [ListenerNewAddr [Tcp 1]]"
  by (subst forward_listener_events_spec [of 1])
    (simp_all add: about_listener_def List.map_filter_simps)

subsection \<open>The shared peer table\<close>

text \<open>
  A peer other than the node itself counts as connected exactly when one of its
  connections is listed.
\<close>

lemma is_connected_iff_listed:
  assumes "hm_ok (peers (book s))" "p \<noteq> svc_peer_id v"
  shows "is_connected v s p \<longleftrightarrow> (\<exists>a t d. (p, a, t, d) \<in> set (service_connections s))"
proof
  assume "is_connected v s p"
  then obtain info x xs where i: "hm_get (peers (book s)) p = Some info" "connections info = x # xs"
    using assms(2) by (auto simp: is_connected_def neq_Nil_conv split: option.splits)
  obtain a t d where "x = (a, t, d)" by (cases x)
  with i show "\<exists>a t d. (p, a, t, d) \<in> set (service_connections s)"
    by (force simp: service_connections_def dest!: map_of_SomeD)
next
  assume "\<exists>a t d. (p, a, t, d) \<in> set (service_connections s)"
  then obtain info where "(p, info) \<in> set (peers (book s))" "connections info \<noteq> []"
    by (fastforce simp: service_connections_def)
  then have "hm_get (peers (book s)) p = Some info"
    using assms(1) by simp
  with \<open>connections info \<noteq> []\<close> show "is_connected v s p"
    by (simp add: is_connected_def)
qed

subsection \<open>Requests from the client to the task\<close>

text \<open>What a program can do with its handle.\<close>

datatype 'ma client_op =
    ClListenOn 'ma
  | ClAddExternalAddress 'ma
  | ClAddAddress peer_id 'ma
  | ClRemoveAddress peer_id 'ma
  | ClPrunePeers duration
  | ClDial peer_id
  | ClDialAddress peer_id 'ma
  | ClBan peer_id
  | ClUnban peer_id
  | ClBootstrap "(peer_id \<times> 'ma) list"
  | ClProviders kad_key
  | ClProvide kad_key
  | ClUnprovide kad_key
  | ClGetRecord kad_key quorum
  | ClPutRecord kad_record quorum
  | ClRemoveRecord kad_key
  | ClSubscribe string
  | ClPublish string bytes
  | ClBroadcast string bytes
  | ClGet cid "peer_id list"
  | ClSync cid "peer_id list" "cid list"
  | ClSwarmEvents
  | ClDropGet query_id
  | ClDropSync sync_query

text \<open>The channel that the caller awaits after the operation, if any.\<close>

fun awaited :: "request \<Rightarrow> oneshot list" where
  "awaited (Await rx) = [rx]"
| "awaited (ReadyErr _) = []"

fun awaited_sync :: "sync_request \<Rightarrow> oneshot list" where
  "awaited_sync (SyncRequest q) = awaited q"
| "awaited_sync (SyncReady _) = []"

fun client_step :: "'ma env \<Rightarrow> try_send \<Rightarrow> 'ma client_op \<Rightarrow> 'ma service \<Rightarrow> oneshot list \<times> 'ma service" where
  "client_step E r (ClListenOn a) v = ([], snd (service_listen_on r a v))"
| "client_step E r (ClAddExternalAddress a) v = ([], service_add_external_address E r a v)"
| "client_step E r (ClAddAddress p a) v = ([], service_add_address r p a v)"
| "client_step E r (ClRemoveAddress p a) v = ([], service_remove_address r p a v)"
| "client_step E r (ClPrunePeers d) v = ([], service_prune_peers r d v)"
| "client_step E r (ClDial p) v = ([], service_dial r p v)"
| "client_step E r (ClDialAddress p a) v = ([], service_dial_address r p a v)"
| "client_step E r (ClBan p) v = ([], service_ban r p v)"
| "client_step E r (ClUnban p) v = ([], service_unban r p v)"
| "client_step E r (ClBootstrap ns) v = map_prod awaited id (service_bootstrap r ns v)"
| "client_step E r (ClProviders k) v = map_prod awaited id (service_providers r k v)"
| "client_step E r (ClProvide k) v = map_prod awaited id (service_provide r k v)"
| "client_step E r (ClUnprovide k) v = ([], snd (service_unprovide r k v))"
| "client_step E r (ClGetRecord k q) v = map_prod awaited id (service_get_record r k q v)"
| "client_step E r (ClPutRecord k q) v = map_prod awaited id (service_put_record r k q v)"
| "client_step E r (ClRemoveRecord k) v = ([], snd (service_remove_record r k v))"
| "client_step E r (ClSubscribe t) v = map_prod awaited id (service_subscribe r t v)"
| "client_step E r (ClPublish t m) v = map_prod awaited id (service_publish r t m v)"
| "client_step E r (ClBroadcast t m) v = map_prod awaited id (service_broadcast r t m v)"
| "client_step E r (ClGet c ps) v = map_prod awaited id (service_get r c ps v)"
| "client_step E r (ClSync c ps m) v = map_prod awaited_sync id (service_sync r c ps m v)"
| "client_step E r ClSwarmEvents v = map_prod awaited id (service_swarm_events r v)"
| "client_step E r (ClDropGet i) v = ([], service_drop_get r i v)"
| "client_step E r (ClDropSync q) v = ([], service_drop_sync r q v)"

fun client_run :: "'ma env \<Rightarrow> (try_send \<times> 'ma client_op) list \<Rightarrow> 'ma service \<Rightarrow> oneshot list \<times> 'ma service" where
  "client_run E [] v = ([], v)"
| "client_run E ((r, op) # ops) v =
     (let (rx, v) = client_step E r op v; (rxs, v) = client_run E ops v in (rx @ rxs, v))"

abbreviation queue_channels :: "'ma network_command list \<Rightarrow> oneshot list" where
  "queue_channels cmds \<equiv> concat (map cmd_channels cmds)"

text \<open>
  Every accepted request carries a channel of its own, and the caller awaits exactly the
  channels of the accepted requests.
\<close>

definition requests_ok :: "oneshot list \<Rightarrow> 'ma service \<Rightarrow> bool" where
  "requests_ok rxs v \<longleftrightarrow> queue_channels (cmd_queue v) = rxs \<and> distinct rxs \<and>
     (\<forall>rx \<in> set rxs. \<exists>k < next_request v. rx = CommandChannel k)"

lemma requests_ok_silent:
  assumes "requests_ok rxs v" "cmd_queue v' = cmd_queue v @ cmds" "queue_channels cmds = []"
    "next_request v \<le> next_request v'"
  shows "requests_ok rxs v'"
proof -
  have "queue_channels (cmd_queue v') = queue_channels (cmd_queue v)"
    unfolding assms(2) map_append concat_append assms(3) by (rule append_Nil2)
  with assms show ?thesis by (fastforce simp: requests_ok_def)
qed

lemma requests_ok_request:
  assumes "requests_ok rxs v" "service_request r msg v = (q, v')" "\<And>rx. cmd_channels (msg rx) = [rx]"
  shows "requests_ok (rxs @ awaited q) v'"
proof (cases "r = SendOk")
  case True
  with assms(2) have v': "q = Await (CommandChannel (next_request v))"
    "cmd_queue v' = cmd_queue v @ [msg (CommandChannel (next_request v))]" "next_request v' = Suc (next_request v)"
    by (auto simp: service_request_def service_cmd_def handle_send_result_def Let_def)
  with assms(1,3) show ?thesis by (fastforce simp: requests_ok_def)
next
  case False
  with assms(2) have "awaited q = []" "cmd_queue v' = cmd_queue v" "next_request v' = Suc (next_request v)"
    by (auto simp: service_request_def service_cmd_def handle_send_result_def Let_def split: try_send.splits)
  with assms(1) show ?thesis using requests_ok_silent [of rxs v v' "[]"] by simp
qed

lemmas request_defs = service_bootstrap_def service_providers_def service_provide_def service_get_record_def
  service_put_record_def service_subscribe_def service_publish_def service_broadcast_def service_get_def
  service_swarm_events_def

lemmas silent_defs = send_cmd_def service_cmd_def service_add_external_address_def service_add_address_def
  service_remove_address_def service_prune_peers_def service_dial_def service_dial_address_def
  service_ban_def service_unban_def service_unprovide_def service_remove_record_def
  service_drop_get_def service_drop_sync_def get_query_drop_def sync_query_drop_def

lemma client_step_ok:
  assumes "requests_ok rxs v" "client_step E r op v = (rx, v')"
  shows "requests_ok (rxs @ rx) v'"
proof -
  have silent: "requests_ok rxs v1" if "cmd_queue v1 = cmd_queue v @ cmds" "queue_channels cmds = []"
    "next_request v \<le> next_request v1" for v1 cmds
    by (rule requests_ok_silent [OF assms(1) that])
  have silent0: "requests_ok rxs v1" if "cmd_queue v1 = cmd_queue v" "next_request v \<le> next_request v1" for v1
    using silent [of v1 "[]"] that by simp
  have silent1: "requests_ok rxs v1" if "cmd_queue v1 = cmd_queue v @ [cmd]" "cmd_channels cmd = []"
    "next_request v \<le> next_request v1" for v1 cmd
    using silent [of v1 "[cmd]"] that by simp
  have listen: "requests_ok rxs (snd (service_listen_on r a v))" for a
    by (cases "r = SendOk") (auto simp: service_listen_on_def service_cmd_def handle_send_result_def Let_def
        split: try_send.splits intro: silent0 silent1)
  have request: "requests_ok (rxs @ rx) v'" if "map_prod awaited id (service_request r msg v) = (rx, v')"
    "\<And>ch. cmd_channels (msg ch) = [ch]" for msg
    using that requests_ok_request [OF assms(1), of r msg] by (cases "service_request r msg v") auto
  show ?thesis
  proof (cases op)
    case (ClListenOn a)
    with assms(2) listen show ?thesis by auto
  next
    case (ClSync c ps m)
    with assms requests_ok_request [OF assms(1), of r "CmdSync c ps m"] show ?thesis
      by (auto simp: service_sync_def split: if_splits prod.splits)
  qed (use assms in \<open>auto simp: request_defs silent_defs split: prod.splits option.splits if_splits
      intro: request silent0 silent1\<close>)
qed

lemma client_run_ok:
  assumes "requests_ok rxs v" "client_run E ops v = (rx, v')"
  shows "requests_ok (rxs @ rx) v'"
  using assms
proof (induction ops arbitrary: rxs v rx)
  case (Cons x ops)
  obtain r op where x: "x = (r, op)" by (cases x)
  obtain rx1 v1 where 1: "client_step E r op v = (rx1, v1)" by (cases "client_step E r op v")
  obtain rx2 where 2: "client_run E ops v1 = (rx2, v')" "rx = rx1 @ rx2"
    using Cons.prems(2) x 1 by (auto split: prod.splits)
  from Cons.IH [OF client_step_ok [OF Cons.prems(1) 1] 2(1)] 2(2) show ?case by simp
qed simp

text \<open>The commands the task took from the channel before it ended.\<close>

definition taken :: "'ma input list \<Rightarrow> 'ma network_command list" where
  "taken is = concat (map (\<lambda>i. case i of Command cmd \<Rightarrow> [cmd] | _ \<Rightarrow> []) (takeWhile (\<lambda>i. \<not> is_end i) is))"

lemma submitted_taken: "submitted is = queue_channels (taken is)"
proof -
  have "concat (map input_channels is) =
      queue_channels (concat (map (\<lambda>i. case i of Command cmd \<Rightarrow> [cmd] | _ \<Rightarrow> []) is))" for "is" :: "'a input list"
    by (induction "is") (auto split: input.splits)
  then show ?thesis by (simp add: submitted_def taken_def)
qed

lemma count_list_distinct: "distinct xs \<Longrightarrow> x \<in> set xs \<Longrightarrow> count_list xs x = 1"
  by (induction xs) auto

text \<open>
  From the call to the answer: whatever a program does with its handle and whatever the
  network does, every request that is awaited is either answered or dropped by the task,
  exactly once, or its command is still in the channel that the task leaves behind when it
  ends; and no request is awaited whose command was not accepted.
\<close>

lemma client_requests_resolved:
  assumes "client_run E ops (service_new key peer name) = (rxs, v)"
    "taken is = take n (cmd_queue v)"
    "poll_swarm N is (task_new b kad bitswap gossip bcast) = Some (True, t)"
  shows "distinct rxs \<and> (\<forall>rx \<in> set rxs.
    count (resolved (backend t)) rx + count_list (queue_channels (drop n (cmd_queue v))) rx = 1)"
proof -
  have "requests_ok [] (service_new key peer name)"
    by (simp add: requests_ok_def service_new_def)
  from client_run_ok [OF this assms(1)] have ok: "requests_ok rxs v" by simp
  have split: "rxs = queue_channels (take n (cmd_queue v)) @ queue_channels (drop n (cmd_queue v))"
    using ok by (simp add: requests_ok_def flip: concat_append map_append)
  have sub: "submitted is = queue_channels (take n (cmd_queue v))"
    by (simp add: submitted_taken assms(2))
  have dist: "distinct rxs" "\<forall>rx \<in> set rxs. \<exists>k. rx = CommandChannel k"
    using ok by (auto simp: requests_ok_def)
  then have "distinct (submitted is)" "\<forall>ch \<in> set (submitted is). \<exists>k. ch = CommandChannel k"
    unfolding split sub by auto
  note res = resolved_once [OF assms(3) this]
  have "count (resolved (backend t)) rx + count_list (queue_channels (drop n (cmd_queue v))) rx = 1"
    if rx: "rx \<in> set rxs" for rx
  proof (cases "rx \<in> set (submitted is)")
    case True
    then have "rx \<notin> set (queue_channels (drop n (cmd_queue v)))"
      using dist(1) unfolding split sub by auto
    then have "count_list (queue_channels (drop n (cmd_queue v))) rx = 0"
      by (simp only: count_list_0_iff not_False_eq_True)
    with True res show ?thesis by auto
  next
    case False
    obtain k where k: "rx = CommandChannel k" using bspec [OF dist(2) rx] by (rule exE)
    have "count_list (queue_channels (drop n (cmd_queue v))) rx = 1"
      using False rx dist(1) unfolding split sub by (intro count_list_distinct) auto
    with False res k show ?thesis by auto
  qed
  with dist(1) show ?thesis by blast
qed

lemma client_requests_resolved_sample:
  "\<exists>v t. client_run sample_env [(SendOk, ClProvide ''k''), (SendFull, ClDial 5), (SendOk, ClSwarmEvents)]
       (service_new ''key'' 1 ''node'') = ([CommandChannel 0, CommandChannel 1], v) \<and>
     poll_swarm sample_net [Command (CmdProvide ''k'' (CommandChannel 0)), CommandsEnded] sample_task = Some (True, t) \<and>
     count (resolved (backend t)) (CommandChannel 0) = 1"
proof -
  let ?is = "[Command (CmdProvide ''k'' (CommandChannel 0)), CommandsEnded] :: protocol list input list"
  let ?ops = "[(SendOk, ClProvide ''k''), (SendFull, ClDial 5), (SendOk, ClSwarmEvents)]"
  obtain v where v: "client_run sample_env ?ops (service_new ''key'' 1 ''node'') = ([CommandChannel 0, CommandChannel 1], v)"
    "cmd_queue v = [CmdProvide ''k'' (CommandChannel 0), CmdSwarmEvents (CommandChannel 1)]"
    by (simp add: request_defs silent_defs service_request_def handle_send_result_def service_new_def Let_def)
  obtain t where t: "poll_swarm sample_net ?is sample_task = Some (True, t)"
    by (simp add: sample_task_def task_new_def swarm_command_def provide_def send_reply_def)
  have "taken ?is = take 1 (cmd_queue v)"
    by (simp add: taken_def is_end_def v(2))
  from client_requests_resolved [OF v(1) this t [unfolded sample_task_def]] v t show ?thesis
    by auto
qed

end
