(* ===== verification/Interleaving.thy ===== *)
theory Interleaving
  imports Clients
begin

text \<open>
  Clients and the network task side by side. \<open>NetworkService::new\<close> in \<open>src/src/net/mod.rs\<close>
  creates a bounded command channel, spawns the task with the receiving end and returns a
  handle with the sending end. From then on the methods of the handle and the rounds of the
  task interleave in any order; the channel is what they share.
\<close>

subsection \<open>The system\<close>

text \<open>
  The handle keeps all commands the channel ever accepted; \<open>sys_taken\<close> of them have been
  taken by the task. \<open>sys_awaited\<close> are the channels callers wait on, \<open>sys_rounds\<close> counts the
  rounds of the loop of the task.
\<close>

record 'ma system =
  sys_handle :: "'ma service"
  sys_awaited :: "oneshot list"
  sys_taken :: nat
  sys_task :: "'ma swarm_task"
  sys_ended :: bool
  sys_rounds :: nat

definition COMMAND_BUFFER :: nat where
  "COMMAND_BUFFER = 100"

definition sys_new :: "'ma service \<Rightarrow> 'ma swarm_task \<Rightarrow> 'ma system" where
  "sys_new v t = \<lparr>sys_handle = v, sys_awaited = [], sys_taken = 0, sys_task = t, sys_ended = False, sys_rounds = 0\<rparr>"

definition backlog :: "'ma system \<Rightarrow> 'ma network_command list" where
  "backlog S = drop (sys_taken S) (cmd_queue (sys_handle S))"

text \<open>
  What \<open>try_send\<close> may report: the capacity of a bounded channel of the futures crate is its
  buffer plus one slot per sender, and a channel whose receiver is gone is disconnected.
\<close>

fun may_report :: "nat \<Rightarrow> 'ma system \<Rightarrow> try_send \<Rightarrow> bool" where
  "may_report senders S SendOk \<longleftrightarrow> \<not> sys_ended S \<and> length (backlog S) < COMMAND_BUFFER + senders"
| "may_report senders S SendFull \<longleftrightarrow> \<not> sys_ended S"
| "may_report senders S SendDisconnected \<longleftrightarrow> sys_ended S"

text \<open>
  A step is a method call of a client, a round of the task that takes the next command, or
  a round that takes an event of the swarm or a callback, or ends. The task has a sender of
  its own, so the channel of commands never ends.
\<close>

inductive sys_step :: "'ma env \<Rightarrow> 'ma net_env \<Rightarrow> nat \<Rightarrow> 'ma system \<Rightarrow> 'ma system \<Rightarrow> bool"
  for E :: "'ma env" and N :: "'ma net_env" and senders :: nat where
  client: "may_report senders S r \<Longrightarrow> client_step E r op (sys_handle S) = (rx, v) \<Longrightarrow>
     sys_step E N senders S (S\<lparr>sys_handle := v, sys_awaited := sys_awaited S @ rx\<rparr>)"
| command: "\<not> sys_ended S \<Longrightarrow> backlog S = cmd # rest \<Longrightarrow> swarm_step N (Command cmd) (sys_task S) = Some (ended, t) \<Longrightarrow>
     sys_step E N senders S (S\<lparr>sys_taken := Suc (sys_taken S), sys_task := t, sys_rounds := Suc (sys_rounds S)\<rparr>)"
| event: "\<not> sys_ended S \<Longrightarrow> i \<in> {SwarmEnded} \<union> range FromSwarm \<union> range Callback \<Longrightarrow> input_ok True i \<Longrightarrow>
     swarm_step N i (sys_task S) = Some (ended, t) \<Longrightarrow>
     sys_step E N senders S (S\<lparr>sys_task := t, sys_ended := ended, sys_rounds := Suc (sys_rounds S)\<rparr>)"

abbreviation sys_reachable :: "'ma env \<Rightarrow> 'ma net_env \<Rightarrow> nat \<Rightarrow> 'ma system \<Rightarrow> 'ma system \<Rightarrow> bool" where
  "sys_reachable E N senders \<equiv> (sys_step E N senders)\<^sup>*\<^sup>*"

subsection \<open>The invariant\<close>

definition sys_inv :: "'ma net_env \<Rightarrow> nat \<Rightarrow> 'ma system \<Rightarrow> bool" where
  "sys_inv N senders S \<longleftrightarrow>
     requests_ok (sys_awaited S) (sys_handle S) \<and>
     sys_taken S \<le> length (cmd_queue (sys_handle S)) \<and>
     length (backlog S) \<le> COMMAND_BUFFER + senders \<and>
     ledger (queue_channels (take (sys_taken S) (cmd_queue (sys_handle S)))) (backend (sys_task S)) \<and>
     (sys_ended S \<longrightarrow> pending (backend (sys_task S)) = {#}) \<and>
     (sys_rounds S < 2 ^ 32 \<longrightarrow> net_inv N True (sys_rounds S) (backend (sys_task S)))"

text \<open>A method call puts at most one command into the channel, and none when it is refused.\<close>

lemma client_step_queue:
  assumes "client_step E r op v = (rx, v')"
  shows "\<exists>cmds. cmd_queue v' = cmd_queue v @ cmds \<and> length cmds \<le> 1 \<and> (r \<noteq> SendOk \<longrightarrow> cmds = [])"
proof -
  have request: ?thesis if "map_prod f id (service_request r msg v) = (rx, v')" for f :: "request \<Rightarrow> oneshot list" and msg
    using that by (auto simp: service_request_def service_cmd_def Let_def split: if_splits)
  show ?thesis
  proof (cases op)
    case (ClSync c ps missing)
    with assms request [of awaited "CmdSync c ps missing"] show ?thesis
      by (auto simp: service_sync_def split: if_splits prod.splits)
  qed (use assms in \<open>auto simp: request_defs silent_defs service_listen_on_def handle_send_result_def Let_def
      split: try_send.splits option.splits prod.splits if_splits dest!: request\<close>)
qed

lemma take_task_command:
  assumes "drop n xs = x # ys"
  shows "take (Suc n) xs = take n xs @ [x]" "drop (Suc n) xs = ys" "Suc n \<le> length xs"
proof -
  have n: "n < length xs" using assms by (cases "n < length xs") auto
  then show "take (Suc n) xs = take n xs @ [x]" "drop (Suc n) xs = ys" "Suc n \<le> length xs"
    using assms Cons_nth_drop_Suc [OF n] by (auto simp: take_Suc_conv_app_nth)
qed

text \<open>A round of the task keeps the books and the invariant of the backend.\<close>

lemma round_keeps:
  assumes "swarm_step N i t = Some (ended, t')" "ledger cs (backend t)"
  shows "ledger (cs @ input_channels i) (backend t')" "ended \<longrightarrow> pending (backend t') = {#}" "ended = is_end i"
  using ledger_swarm_step [OF assms(2,1)] ledger_run [OF assms(2), of N "[i]" ended t'] assms(1) by auto

lemma round_inv:
  assumes "base_laws N" "swarm_step N i t = Some (ended, t')" "input_ok True i" "Suc n < 2 ^ 32" "net_inv N True n (backend t)"
  shows "net_inv N True (Suc n) (backend t')"
  using sw.step_inv [of N True n "(False, t)" i] assms by simp

lemma sys_step_inv:
  assumes "sys_step E N senders S S'" "base_laws N" "sys_inv N senders S"
  shows "sys_inv N senders S'"
  using assms
proof (induction rule: sys_step.induct)
  case (client S r op rx v)
  obtain cmds where c: "cmd_queue v = cmd_queue (sys_handle S) @ cmds" "length cmds \<le> 1" "r \<noteq> SendOk \<longrightarrow> cmds = []"
    using client_step_queue [OF client(2)] by blast
  have "length (drop (sys_taken S) (cmd_queue v)) \<le> COMMAND_BUFFER + senders"
    using c client by (cases r) (auto simp: sys_inv_def backlog_def)
  moreover have "requests_ok (sys_awaited S @ rx) v"
    using client_step_ok [OF _ client(2)] client by (auto simp: sys_inv_def)
  ultimately show ?case
    using client c by (auto simp: sys_inv_def backlog_def)
next
  case (command S cmd rest ended t)
  note next_cmd = take_task_command [OF command(2) [unfolded backlog_def]]
  have old: "ledger (queue_channels (take (sys_taken S) (cmd_queue (sys_handle S)))) (backend (sys_task S))"
    using command by (simp add: sys_inv_def)
  note new = round_keeps [OF command(3) old]
  have "net_inv N True (Suc (sys_rounds S)) (backend t)" if "Suc (sys_rounds S) < 2 ^ 32"
    using round_inv [OF command(4,3) _ that] command that by (cases cmd) (auto simp: sys_inv_def split: query_id.splits)
  with command new next_cmd show ?case
    by (auto simp: sys_inv_def backlog_def)
next
  case (event S i ended t)
  have old: "ledger (queue_channels (take (sys_taken S) (cmd_queue (sys_handle S)))) (backend (sys_task S))"
    using event by (simp add: sys_inv_def)
  note new = round_keeps [OF event(4) old]
  have "net_inv N True (Suc (sys_rounds S)) (backend t)" if "Suc (sys_rounds S) < 2 ^ 32"
    using round_inv [OF event(5,4,3) that] event that by (auto simp: sys_inv_def)
  moreover have "input_channels i = []" using event(2) by auto
  ultimately show ?case
    using event new by (auto simp: sys_inv_def backlog_def)
qed

lemma sys_reachable_inv:
  assumes "sys_reachable E N senders S S'" "base_laws N" "sys_inv N senders S"
  shows "sys_inv N senders S'"
  using assms by (induction rule: rtranclp_induct) (auto intro: sys_step_inv)

lemma sys_new_inv:
  assumes "book_inv (net_base N) 0 b"
  shows "sys_inv N senders (sys_new (service_new key peer name) (task_new b kad True gossip bcast))"
  using assms
  by (auto simp: sys_inv_def sys_new_def backlog_def requests_ok_def service_new_def ledger_def task_new_def
      tracked_def pending_def resolved_def net_inv_def)

subsection \<open>What holds in every reachable state\<close>

lemma awaited_once:
  assumes "sys_inv N senders S" "rx \<in> set (sys_awaited S)"
  shows "count_list (queue_channels (backlog S)) rx + count (pending (backend (sys_task S))) rx +
    count (resolved (backend (sys_task S))) rx = 1"
proof -
  let ?cs = "queue_channels (take (sys_taken S) (cmd_queue (sys_handle S)))"
  have ok: "requests_ok (sys_awaited S) (sys_handle S)" using assms(1) by (simp add: sys_inv_def)
  have split: "sys_awaited S = ?cs @ queue_channels (backlog S)"
    using ok by (simp add: requests_ok_def backlog_def flip: concat_append map_append)
  obtain k where k: "rx = CommandChannel k" using ok assms(2) by (auto simp: requests_ok_def)
  obtain own where own: "finite own" "tracked (backend (sys_task S)) = mset ?cs + mset_set (GetChannel ` own)"
    using assms(1) by (auto simp: sys_inv_def ledger_def)
  have "count (mset_set (GetChannel ` own)) rx = 0"
    using own(1) by (auto simp: k count_mset_set')
  then have "count (tracked (backend (sys_task S))) rx = count_list ?cs rx"
    by (simp add: own(2) count_mset)
  moreover have "count_list ?cs rx + count_list (queue_channels (backlog S)) rx = 1"
    using ok assms(2) count_list_distinct [of "sys_awaited S" rx]
    unfolding requests_ok_def split by (simp flip: count_list_append)
  ultimately show ?thesis by (simp add: tracked_def)
qed


lemma drain_backlog:
  assumes "base_laws N" "sys_inv N senders S" "\<not> sys_ended S" "sys_rounds S + length (backlog S) < 2 ^ 32"
  shows "\<exists>S'. sys_reachable E N senders S S' \<and> backlog S' = [] \<and> sys_awaited S' = sys_awaited S \<and> \<not> sys_ended S'"
  using assms(2-)
proof (induction "length (backlog S)" arbitrary: S)
  case (Suc n)
  then obtain cmd rest where c: "backlog S = cmd # rest" by (cases "backlog S") auto
  have "net_inv N True (sys_rounds S) (backend (sys_task S))" using Suc.prems by (simp add: sys_inv_def)
  moreover have "input_ok True (Command cmd)" by (cases cmd) (auto split: query_id.splits)
  ultimately obtain e t where t: "swarm_step N (Command cmd) (sys_task S) = Some (e, t)"
    using sw.step_inv [of N True "sys_rounds S" "(False, sys_task S)" "Command cmd"] assms(1) Suc.prems(3) c
    by (auto simp: returns_iff simp del: swarm_step.simps input_ok.simps)
  let ?S = "S\<lparr>sys_taken := Suc (sys_taken S), sys_task := t, sys_rounds := Suc (sys_rounds S)\<rparr>"
  have step: "sys_step E N senders S ?S" using Suc.prems(2) c t by (rule sys_step.command)
  have rest: "backlog ?S = rest" using take_task_command(2) [OF c [unfolded backlog_def]] by (simp add: backlog_def)
  obtain S' where "sys_reachable E N senders ?S S'" "backlog S' = []" "sys_awaited S' = sys_awaited S" "\<not> sys_ended S'"
    using Suc.hyps(1) [of ?S] Suc.hyps(2) Suc.prems sys_step_inv [OF step assms(1)] rest c by auto
  with step show ?case by (auto intro: converse_rtranclp_into_rtranclp)
qed auto


text \<open>A provider and a listener of events, of which the task has taken the first.\<close>

abbreviation sample_start_state :: "protocol list system" where
  "sample_start_state \<equiv> sys_new (service_new ''key'' 7 ''node'') (task_new sample_book True True True True)"

lemma sample_system:
  "\<exists>S. sys_reachable sample_env sample_net 2 sample_start_state S \<and> \<not> sys_ended S \<and> sys_rounds S = 1 \<and>
     sys_awaited S = [CommandChannel 0, CommandChannel 1] \<and> backlog S = [CmdSwarmEvents (CommandChannel 1)]"
proof -
  let ?v1 = "snd (client_step sample_env SendOk (ClProvide ''k'') (service_new ''key'' 7 ''node'')) :: protocol list service"
  let ?v2 = "snd (client_step sample_env SendOk ClSwarmEvents ?v1)"
  let ?S1 = "sample_start_state\<lparr>sys_handle := ?v1, sys_awaited := [CommandChannel 0]\<rparr>"
  let ?S2 = "?S1\<lparr>sys_handle := ?v2, sys_awaited := [CommandChannel 0, CommandChannel 1]\<rparr>"
  have v1: "client_step sample_env SendOk (ClProvide ''k'') (service_new ''key'' 7 ''node'') = ([CommandChannel 0], ?v1)"
    "cmd_queue ?v1 = [CmdProvide ''k'' (CommandChannel 0)]"
    by (simp_all add: request_defs service_request_def service_cmd_def handle_send_result_def service_new_def Let_def)
  have v2: "client_step sample_env SendOk ClSwarmEvents ?v1 = ([CommandChannel 1], ?v2)"
    "cmd_queue ?v2 = [CmdProvide ''k'' (CommandChannel 0), CmdSwarmEvents (CommandChannel 1)]"
    by (simp_all add: request_defs service_request_def service_cmd_def handle_send_result_def service_new_def Let_def)
  have 1: "sys_step sample_env sample_net 2 sample_start_state ?S1"
    using sys_step.client [of 2 sample_start_state SendOk sample_env "ClProvide ''k''" "[CommandChannel 0]" ?v1 sample_net] v1
    by (simp add: sys_new_def backlog_def service_new_def COMMAND_BUFFER_def)
  have 2: "sys_step sample_env sample_net 2 ?S1 ?S2"
    using sys_step.client [of 2 ?S1 SendOk sample_env ClSwarmEvents "[CommandChannel 1]" ?v2 sample_net] v1 v2
    by (simp add: sys_new_def backlog_def COMMAND_BUFFER_def)
  obtain t where t: "swarm_step sample_net (Command (CmdProvide ''k'' (CommandChannel 0))) (sys_task ?S2) = Some (False, t)"
    by (simp add: swarm_command_def sys_new_def task_new_def provide_def)
  have 3: "sys_step sample_env sample_net 2 ?S2 (?S2\<lparr>sys_taken := Suc (sys_taken ?S2), sys_task := t, sys_rounds := Suc (sys_rounds ?S2)\<rparr>)"
    by (rule sys_step.command [OF _ _ t]) (simp_all add: sys_new_def backlog_def v2(2) del: client_step.simps)
  from 1 2 3 show ?thesis
    by (intro exI [of _ "?S2\<lparr>sys_taken := Suc (sys_taken ?S2), sys_task := t, sys_rounds := Suc (sys_rounds ?S2)\<rparr>"] conjI)
      (auto simp: sys_new_def backlog_def v2(2) simp del: client_step.simps intro: rtranclp_trans [OF r_into_rtranclp rtranclp_trans [OF r_into_rtranclp r_into_rtranclp]])
qed

lemma sample_net_laws: "base_laws sample_net" "book_inv (net_base sample_net) 0 sample_book"
  by (simp_all add: base_laws_def sample_net_def)



end
