(* ===== verification/ReplyTypes.thy ===== *)
theory ReplyTypes
  imports Clients
begin

text \<open>
  The types of the reply channels. In the code every channel has a type of its own
  (\<open>oneshot::Sender<Result<Vec<PeerRecord>>>\<close> and so on) and the variants of \<open>QueryChannel\<close>
  in \<open>src/src/net/behaviour.rs\<close> carry them through the query table; in the model replies are
  values of one datatype. The theorem of this theory is that the model is well typed: a
  channel only ever receives a reply of the type its command asks for.
\<close>

datatype reply_type = TUnit | TPeers | TProviders | TRecords | TSubscription | TGetQuery | TSyncQuery | TSwarmEvents

fun type_of :: "reply \<Rightarrow> reply_type" where
  "type_of (ReplyUnit _) = TUnit"
| "type_of (ReplyPeers _) = TPeers"
| "type_of (ReplyProviders _) = TProviders"
| "type_of (ReplyRecords _) = TRecords"
| "type_of (ReplySubscription _) = TSubscription"
| "type_of (ReplyGetQuery _ _) = TGetQuery"
| "type_of (ReplySyncQuery _ _) = TSyncQuery"
| "type_of (ReplySwarmEvents _) = TSwarmEvents"

text \<open>The type of the channel in an entry of the query table.\<close>

fun entry_type :: "query_channel \<Rightarrow> (oneshot \<times> reply_type) option" where
  "entry_type (GetQ ch) = Some (ch, TUnit)"
| "entry_type (SyncQ _) = None"
| "entry_type (BootstrapQ ch) = Some (ch, TUnit)"
| "entry_type (GetClosestPeersQ ch) = Some (ch, TPeers)"
| "entry_type (GetProvidersQ ch) = Some (ch, TProviders)"
| "entry_type (StartProvidingQ ch) = Some (ch, TUnit)"
| "entry_type (GetRecordQ ch) = Some (ch, TRecords)"
| "entry_type (PutRecordQ ch) = Some (ch, TUnit)"

text \<open>The type of the channel in a command.\<close>

fun command_types :: "'ma network_command \<Rightarrow> (oneshot \<times> reply_type) list" where
  "command_types (CmdBootstrap _ tx) = [(tx, TUnit)]"
| "command_types (CmdProviders _ tx) = [(tx, TProviders)]"
| "command_types (CmdProvide _ tx) = [(tx, TUnit)]"
| "command_types (CmdGetRecord _ _ tx) = [(tx, TRecords)]"
| "command_types (CmdPutRecord _ _ tx) = [(tx, TUnit)]"
| "command_types (CmdSubscribe _ tx) = [(tx, TSubscription)]"
| "command_types (CmdPublish _ _ tx) = [(tx, TUnit)]"
| "command_types (CmdBroadcast _ _ tx) = [(tx, TUnit)]"
| "command_types (CmdGet _ _ tx) = [(tx, TGetQuery)]"
| "command_types (CmdSync _ _ _ tx) = [(tx, TSyncQuery)]"
| "command_types (CmdSwarmEvents tx) = [(tx, TSwarmEvents)]"
| "command_types _ = []"

type_synonym tyenv = "oneshot \<Rightarrow> reply_type option"

text \<open>Channels of \<open>get\<close> are created by the task and deliver its completion.\<close>

definition tyenv_ok :: "tyenv \<Rightarrow> bool" where
  "tyenv_ok \<Gamma> \<longleftrightarrow> (\<forall>k. \<Gamma> (GetChannel k) = Some TUnit)"

definition entry_ok :: "tyenv \<Rightarrow> query_channel \<Rightarrow> bool" where
  "entry_ok \<Gamma> qc \<longleftrightarrow> (case entry_type qc of Some (ch, \<tau>) \<Rightarrow> \<Gamma> ch = Some \<tau> | None \<Rightarrow> True)"

fun outcome_ok :: "tyenv \<Rightarrow> oneshot \<times> outcome \<Rightarrow> bool" where
  "outcome_ok \<Gamma> (ch, Replied r) \<longleftrightarrow> \<Gamma> ch = Some (type_of r)"
| "outcome_ok \<Gamma> (ch, Dropped) \<longleftrightarrow> True"

definition well_typed :: "tyenv \<Rightarrow> 'ma backend \<Rightarrow> bool" where
  "well_typed \<Gamma> s \<longleftrightarrow> hm_all (\<lambda>_. entry_ok \<Gamma>) (queries s) \<and> list_all (outcome_ok \<Gamma>) (outcomes s)"

definition command_typed :: "tyenv \<Rightarrow> 'ma network_command \<Rightarrow> bool" where
  "command_typed \<Gamma> cmd \<longleftrightarrow> list_all (\<lambda>(ch, \<tau>). \<Gamma> ch = Some \<tau>) (command_types cmd)"

subsection \<open>Steps that touch neither the table nor the replies\<close>

definition untouched :: "'ma backend \<Rightarrow> 'ma backend \<Rightarrow> bool" where
  "untouched s s' \<longleftrightarrow> queries s' = queries s \<and> outcomes s' = outcomes s"

lemma well_typed_untouched: "untouched s s' \<Longrightarrow> well_typed \<Gamma> s \<Longrightarrow> well_typed \<Gamma> s'"
  by (simp add: untouched_def well_typed_def)

lemma untouched_trans: "untouched s s1 \<Longrightarrow> untouched s1 s2 \<Longrightarrow> untouched s s2"
  by (simp add: untouched_def)

lemma untouched_frame [simp]:
  "untouched s s" "untouched s (s\<lparr>book := b\<rparr>)" "untouched s (s\<lparr>next_channel := n\<rparr>)" "untouched s (s\<lparr>bootstrapped := x\<rparr>)"
  "untouched s (call c s)" "untouched s (send_sync N tx ev s)"
  by (simp_all add: untouched_def call_def send_sync_def)

lemma untouched_with_book: "with_book f s = Some s' \<Longrightarrow> untouched s s'"
  by (auto simp: with_book_def)

lemma untouched_add_address: "backend_add_address N p a src s = Some s' \<Longrightarrow> untouched s s'"
  by (auto simp: backend_add_address_def with_book_def Let_def untouched_def call_def split: if_splits)

lemma untouched_add_addresses: "add_addresses N src as s = Some s' \<Longrightarrow> untouched s s'"
  by (induction N src as s rule: add_addresses.induct)
    (auto simp: bind_eq_Some_conv intro: untouched_trans untouched_add_address)

lemma untouched_add_and_dial: "add_and_dial N as s = Some s' \<Longrightarrow> untouched s s'"
  by (induction N as s rule: add_and_dial.induct)
    (auto simp: bind_eq_Some_conv intro: untouched_trans [OF untouched_add_address] untouched_trans [OF untouched_frame(2)])

lemma untouched_topics:
  "untouched s (notify_subscribers N topic ev s)" "untouched s (snd (subscribe N topic s))"
  "untouched s (snd (publish N topic msg s))" "untouched s (snd (broadcast N topic msg s))"
  "untouched s (snd (subscribe_events s))" "untouched s (backend_remove_address N p a s)"
  "untouched s (unprovide k s)" "untouched s (remove_record k s)"
  by (auto simp: notify_subscribers_def unsubscribe_def subscribe_def publish_def broadcast_def subscribe_events_def
      backend_remove_address_def unprovide_def remove_record_def untouched_def call_def Let_def
      split: option.splits prod.splits sum.splits publish_error.splits)

lemma untouched_notify: "untouched s (notify_subscribers N topic ev (s\<lparr>book := b\<rparr>))"
  by (rule untouched_trans [OF untouched_frame(2) untouched_topics(1)])

subsection \<open>Preservation\<close>

lemma well_typed_reply: "well_typed \<Gamma> s \<Longrightarrow> \<Gamma> ch = Some (type_of r) \<Longrightarrow> well_typed \<Gamma> (send_reply ch r s)"
  by (simp add: well_typed_def send_reply_def)

lemma well_typed_drop [simp]:
  "well_typed \<Gamma> (drop_oneshot ch s) = well_typed \<Gamma> s" "well_typed \<Gamma> (drop_channel qc s) = well_typed \<Gamma> s"
  by (auto simp: well_typed_def drop_oneshot_def drop_channel_def split: query_channel.splits)

lemma well_typed_insert: "well_typed \<Gamma> s \<Longrightarrow> entry_ok \<Gamma> qc \<Longrightarrow> well_typed \<Gamma> (insert_query i qc s)"
proof -
  assume a: "well_typed \<Gamma> s" "entry_ok \<Gamma> qc"
  have "well_typed \<Gamma> (case hm_get (queries s) i of Some old \<Rightarrow> drop_channel old s | None \<Rightarrow> s)"
    using a(1) by (simp split: option.split)
  with a(2) show ?thesis
    by (simp add: insert_query_def Let_def well_typed_def hm_all_insert)
qed

lemma well_typed_without: "well_typed \<Gamma> s \<Longrightarrow> well_typed \<Gamma> (s\<lparr>queries := hm_remove i (queries s)\<rparr>)"
  by (simp add: well_typed_def hm_all_remove)

lemma well_typed_remove: "well_typed \<Gamma> s \<Longrightarrow> well_typed \<Gamma> (remove_query i s)"
  by (auto simp: remove_query_def well_typed_without split: option.splits)

lemma entry_at: "well_typed \<Gamma> s \<Longrightarrow> hm_get (queries s) i = Some qc \<Longrightarrow> entry_ok \<Gamma> qc"
  by (auto simp: well_typed_def dest: hm_all_get)

text \<open>Each variant is answered with the type of its channel.\<close>

lemma well_typed_answer:
  assumes "well_typed \<Gamma> s" "\<And>qc ch. sel qc = Some ch \<Longrightarrow> entry_type qc = Some (ch, type_of r)"
  shows "well_typed \<Gamma> (answer_query sel i r s)"
proof (cases "hm_get (queries s) i")
  case (Some qc)
  with entry_at [OF assms(1) Some] assms show ?thesis
    by (auto simp: answer_query_def entry_ok_def Let_def intro!: well_typed_reply well_typed_without split: option.splits)
qed (use assms in \<open>simp add: answer_query_def\<close>)

lemmas sel_defs = sel_bootstrap_def sel_closest_peers_def sel_providers_def sel_start_providing_def
  sel_get_record_def sel_put_record_def

lemma well_typed_query_result: "well_typed \<Gamma> s \<Longrightarrow> well_typed \<Gamma> (inject_query_result N i r s)"
  by (induction N i r s rule: inject_query_result.induct)
    (auto simp: sel_defs split: query_channel.splits
      intro!: well_typed_answer well_typed_untouched [OF untouched_frame(2)] elim: well_typed_untouched [OF untouched_frame(4)])

lemma well_typed_bitswap: "well_typed \<Gamma> s \<Longrightarrow> well_typed \<Gamma> (inject_bitswap_event N e s)"
proof (cases e)
  case (BitswapProgress i missing)
  assume "well_typed \<Gamma> s"
  with BitswapProgress show ?thesis
    by (auto intro: well_typed_untouched [OF untouched_frame(6)] split: option.splits query_channel.splits)
next
  case (BitswapComplete i result)
  assume t: "well_typed \<Gamma> s"
  show ?thesis
  proof (cases "hm_get (queries s) (BitswapQuery i)")
    case (Some qc)
    with entry_at [OF t Some] well_typed_without [OF t, of "BitswapQuery i"] BitswapComplete show ?thesis
      by (cases qc) (auto simp: entry_ok_def Let_def intro: well_typed_reply well_typed_untouched [OF untouched_frame(6)])
  qed (use BitswapComplete t in simp)
qed

lemma well_typed_event:
  assumes "well_typed \<Gamma> s" "on_swarm_event N e s = Some s'"
  shows "well_typed \<Gamma> s'"
proof -
  have u: "well_typed \<Gamma> s1" if "untouched s s1" for s1
    by (rule well_typed_untouched [OF that assms(1)])
  show ?thesis
  proof (cases e)
    case (SwKad ev)
    with assms show ?thesis by (cases ev) (auto intro: well_typed_query_result)
  next
    case (SwMdns ev)
    with assms show ?thesis by (cases ev) (auto intro: u untouched_add_addresses)
  next
    case (SwPing p r)
    with assms show ?thesis by (cases r) (auto simp: inject_ping_event_def intro: u untouched_with_book)
  next
    case (SwIdentify ev)
    with assms show ?thesis by (cases ev) (auto intro: u untouched_with_book)
  next
    case (SwGossipsub ev)
    with assms show ?thesis by (cases ev) (auto intro!: u untouched_notify untouched_topics)
  next
    case (SwBroadcast ev)
    with assms show ?thesis by (cases ev) (auto intro!: u untouched_notify untouched_topics split: option.splits)
  qed (use assms in \<open>auto intro: u well_typed_bitswap\<close>)
qed

lemma well_typed_queries:
  assumes "well_typed \<Gamma> s"
  shows "\<Gamma> tx = Some TUnit \<Longrightarrow> well_typed \<Gamma> (bootstrap N tx s)" "\<Gamma> tx = Some TUnit \<Longrightarrow> well_typed \<Gamma> (provide N key tx s)"
    "\<Gamma> tx = Some TProviders \<Longrightarrow> well_typed \<Gamma> (providers N key tx s)"
    "\<Gamma> tx = Some TRecords \<Longrightarrow> well_typed \<Gamma> (get_record N key quorum tx s)"
    "\<Gamma> tx = Some TUnit \<Longrightarrow> well_typed \<Gamma> (put_record N rec quorum tx s)"
proof -
  have c: "well_typed \<Gamma> (call c s)" for c
    by (rule well_typed_untouched [OF untouched_frame(5) assms])
  show "\<Gamma> tx = Some TUnit \<Longrightarrow> well_typed \<Gamma> (bootstrap N tx s)" "\<Gamma> tx = Some TUnit \<Longrightarrow> well_typed \<Gamma> (provide N key tx s)"
    "\<Gamma> tx = Some TProviders \<Longrightarrow> well_typed \<Gamma> (providers N key tx s)"
    "\<Gamma> tx = Some TRecords \<Longrightarrow> well_typed \<Gamma> (get_record N key quorum tx s)"
    "\<Gamma> tx = Some TUnit \<Longrightarrow> well_typed \<Gamma> (put_record N rec quorum tx s)"
    using assms c
    by (auto simp: bootstrap_def provide_def providers_def get_record_def put_record_def entry_ok_def Let_def
        intro!: well_typed_insert well_typed_reply split: sum.splits)
qed

lemma well_typed_command:
  assumes "well_typed \<Gamma> s" "tyenv_ok \<Gamma>" "command_typed \<Gamma> cmd" "backend_command N cmd s = Some s'"
  shows "well_typed \<Gamma> s'"
proof -
  have u: "well_typed \<Gamma> s1" if "untouched s s1" for s1
    by (rule well_typed_untouched [OF that assms(1)])
  have fresh: "well_typed \<Gamma> (call c (s\<lparr>next_channel := n\<rparr>))" for c n
    by (rule u, rule untouched_trans [OF untouched_frame(3,5)])
  have after: "well_typed \<Gamma> (send_reply tx r (snd p))" if "untouched s (snd p)" "\<Gamma> tx = Some (type_of r)"
    for tx r and p :: "'x \<times> 'a backend"
    by (rule well_typed_reply [OF u [OF that(1)] that(2)])
  note t = assms(3) [unfolded command_typed_def]
  show ?thesis
  proof (cases cmd)
    case (CmdBootstrap initial tx)
    with assms(4) t show ?thesis by (auto intro: well_typed_queries(1) u untouched_add_and_dial)
  next
    case (CmdGet c ps tx)
    with assms(2,4) t fresh show ?thesis
      by (auto simp: backend_get_def entry_ok_def tyenv_ok_def Let_def intro!: well_typed_reply well_typed_insert split: if_splits)
  next
    case (CmdSync c ps m tx)
    with assms(4) t fresh show ?thesis
      by (auto simp: backend_sync_def entry_ok_def Let_def intro!: well_typed_reply well_typed_insert split: if_splits)
  next
    case (CmdCancelQuery i)
    with assms(4) well_typed_untouched [OF untouched_frame(5) well_typed_remove [OF assms(1), of i]] show ?thesis
      by (auto simp: cancel_def Let_def well_typed_remove [OF assms(1)] split: query_id.splits if_splits)
  next
    case (CmdSubscribe topic tx)
    with assms(4) t after [OF untouched_topics(2)] show ?thesis by (auto simp: split_beta)
  next
    case (CmdPublish topic msg tx)
    with assms(4) t after [OF untouched_topics(3)] show ?thesis by (auto simp: split_beta)
  next
    case (CmdBroadcast topic msg tx)
    with assms(4) t after [OF untouched_topics(4)] show ?thesis by (auto simp: split_beta)
  next
    case (CmdSwarmEvents tx)
    with assms(4) t after [OF untouched_topics(5)] show ?thesis by (auto simp: split_beta)
  qed (use assms(1,4) t in \<open>auto intro: well_typed_queries u untouched_topics untouched_add_address\<close>)
qed

lemma well_typed_step:
  assumes "well_typed \<Gamma> (backend t)" "tyenv_ok \<Gamma>" "\<And>cmd. i = Command cmd \<Longrightarrow> command_typed \<Gamma> cmd"
    "swarm_step N i t = Some (ended, t')"
  shows "well_typed \<Gamma> (backend t')"
proof -
  have drop: "well_typed \<Gamma> (fold drop_channel qcs s) = well_typed \<Gamma> s" for qcs and s :: "'a backend"
    by (induction qcs arbitrary: s) simp_all
  have tables: "well_typed \<Gamma> (drop_tables s)" if "well_typed \<Gamma> s" for s :: "'a backend"
    using that drop [of "map snd (queries s)" s] by (simp add: drop_tables_def well_typed_def)
  show ?thesis
  proof (cases i)
    case (Command cmd)
    with assms(4) have c: "swarm_command N cmd t = Some t'" by auto
    show ?thesis
    proof (cases cmd)
      case (CmdListenOn addr response)
      have "well_typed \<Gamma> (call (SwarmListenOn addr) s)" if "subscribe_events (backend t) = (rx, s)" for rx s
        using well_typed_untouched [OF untouched_trans [OF untouched_topics(5) untouched_frame(5)] assms(1)] that by simp
      with c CmdListenOn show ?thesis
        by (auto simp: swarm_command_def listen_on_def Let_def split: prod.splits sum.splits)
    qed (use c assms(1,2) assms(3) [OF Command] in \<open>auto simp: swarm_command_def simp del: backend_command.simps
        elim!: well_typed_command [rotated 3]\<close>)
  next
    case (Callback op)
    with assms(4) show ?thesis by (auto intro: well_typed_untouched [OF untouched_with_book assms(1)])
  qed (use assms tables in \<open>auto intro: well_typed_event\<close>)
qed

lemma well_typed_run:
  assumes "well_typed \<Gamma> (backend t)" "tyenv_ok \<Gamma>" "\<forall>cmd \<in> set (taken is). command_typed \<Gamma> cmd"
    "poll_swarm N is t = Some (ended, t')"
  shows "well_typed \<Gamma> (backend t')"
  using assms(1,3,4)
proof (induction "is" arbitrary: t)
  case (Cons i "is")
  then obtain e t1 where step: "swarm_step N i t = Some (e, t1)"
    "if e then ended \<and> t' = t1 else poll_swarm N is t1 = Some (ended, t')"
    by (auto simp: bind_eq_Some_conv split: if_splits)
  have e: "e = is_end i" using step(1) by (cases i) (auto simp: is_end_def)
  have "command_typed \<Gamma> cmd" if "i = Command cmd" for cmd
    using Cons.prems(2) that by (simp add: taken_def is_end_def)
  from well_typed_step [OF Cons.prems(1) assms(2) this step(1)] have t1: "well_typed \<Gamma> (backend t1)" by blast
  show ?case
  proof (cases e)
    case False
    with e Cons.prems(2) have "\<forall>cmd \<in> set (taken is). command_typed \<Gamma> cmd" by (simp add: taken_def)
    with Cons.IH [OF t1] step False show ?thesis by simp
  qed (use step t1 in simp)
qed simp

lemma command_types_channels: "map fst (command_types cmd) = cmd_channels cmd"
  by (cases cmd) simp_all



end
