(* ===== verification/Storage.thy ===== *)
theory Storage
  imports Prelude
begin

text \<open>
  The block storage, \<open>src/src/db.rs\<close>. The block store itself (a database) is another crate:
  its state is a type variable and its operations are the record \<open>store_api\<close>. What that crate
  calls a transaction is a batch of operations: it implies no atomicity.
\<close>

subsection \<open>Configuration\<close>

type_synonym path = string

record storage_config =
  cfg_path :: "path option"
  cfg_access_db_path :: "path option"
  cfg_cache_size_blocks :: "64 word"
  cfg_cache_size_bytes :: "64 word"
  cfg_gc_interval :: duration
  cfg_gc_min_blocks :: "64 word"
  cfg_gc_target_duration :: duration

definition storage_config_new :: "path option \<Rightarrow> path option \<Rightarrow> 64 word \<Rightarrow> duration \<Rightarrow> storage_config" where
  "storage_config_new p access_db cache_size gc_interval =
     \<lparr>cfg_path = p, cfg_access_db_path = access_db, cfg_cache_size_blocks = cache_size,
      cfg_cache_size_bytes = - 1, cfg_gc_interval = gc_interval, cfg_gc_min_blocks = - 1,
      cfg_gc_target_duration = DURATION_MAX\<rparr>"

subsection \<open>The block store\<close>

type_synonym block_data = "u8 list"
type_synonym temp_pin = nat

text \<open>
  An operation acts on the store at once and returns its result and the store afterwards,
  also when it fails. What a transaction gathers for the tracker of accesses is part of the
  store: it is handed over by \<open>tx_commit\<close> and discarded by \<open>tx_drop\<close>.
\<close>

type_synonym ('s, 'r) tx = "'s \<Rightarrow> (string + 'r) \<times> 's"

record 's store_api =
  tx_temp_pin :: "'s \<Rightarrow> temp_pin \<times> 's"
  tx_extend_temp_pin :: "temp_pin \<Rightarrow> cid \<Rightarrow> ('s, temp_pin) tx"
  tx_block_cids :: "('s, cid list) tx"
  tx_has_block :: "cid \<Rightarrow> ('s, bool) tx"
  tx_get_block :: "cid \<Rightarrow> ('s, block_data option) tx"
  tx_put_block :: "cid \<Rightarrow> block_data \<Rightarrow> temp_pin option \<Rightarrow> ('s, unit) tx"
  tx_resolve :: "bytes \<Rightarrow> ('s, cid option) tx"
  tx_alias :: "bytes \<Rightarrow> cid option \<Rightarrow> ('s, unit) tx"
  tx_aliases :: "('s, (bytes \<times> cid) list) tx"
  tx_reverse_alias :: "cid \<Rightarrow> ('s, bytes list option) tx"
  tx_missing_blocks :: "cid \<Rightarrow> ('s, cid list) tx"
  tx_commit :: "('s, unit) tx"
  tx_drop :: "'s \<Rightarrow> 's"
  db_incremental_gc :: "64 word \<Rightarrow> duration \<Rightarrow> ('s, bool) tx"
  db_flush :: "('s, unit) tx"
  db_store_stats :: "'s \<Rightarrow> string + 64 word \<times> 64 word"

text \<open>
  The service: the store behind its lock, the limits of a collection, and the background
  collector, which has the store itself or, when the store is a file, a connection of its
  own. The counters are those of \<open>QUERIES_TOTAL\<close>.
\<close>

record gc_task =
  gc_interval :: duration
  gc_own_connection :: bool

record 's storage =
  store :: 's
  gc_min_blocks :: "64 word"
  gc_target_duration :: duration
  gc_task :: "gc_task option"
  queries_total :: "string \<Rightarrow> nat"

subsection \<open>Opening the storage\<close>

text \<open>
  The file system and the constructors of the store. What \<open>is_file\<close> and \<open>create_dir_all\<close>
  return may depend on the directories created so far.
\<close>

record store_params =
  size_target_blocks :: "64 word"
  size_target_bytes :: "64 word"

record ('s, 't) open_api =
  is_file :: "path list \<Rightarrow> path \<Rightarrow> bool"
  create_dir_all :: "path list \<Rightarrow> path \<Rightarrow> string + unit"
  path_join :: "path \<Rightarrow> string \<Rightarrow> path"
  tracker_open :: "path \<Rightarrow> string + 't"
  tracker_memory :: 't
  store_open :: "path \<Rightarrow> store_params \<Rightarrow> 't \<Rightarrow> string + 's"
  store_memory :: "store_params \<Rightarrow> 't \<Rightarrow> string + 's"
  additional_connection :: "'s \<Rightarrow> string + unit"

text \<open>A path that is not a file is made a directory, which holds the file.\<close>

definition database_path :: "('s, 't) open_api \<Rightarrow> path list \<Rightarrow> path \<Rightarrow> string \<Rightarrow> (string + path) \<times> path list" where
  "database_path F dirs p name =
     (if is_file F dirs p then (Inr p, dirs)
      else case create_dir_all F dirs p of
             Inl e \<Rightarrow> (Inl e, dirs)
           | Inr _ \<Rightarrow> (Inr (path_join F p name), dirs @ [p]))"

definition open_tracker :: "('s, 't) open_api \<Rightarrow> storage_config \<Rightarrow> (string + 't) \<times> path list" where
  "open_tracker F config =
     (case cfg_access_db_path config of
        Some p \<Rightarrow>
          (case database_path F [] p ''access'' of
             (Inl e, dirs) \<Rightarrow> (Inl e, dirs)
           | (Inr p, dirs) \<Rightarrow> (tracker_open F p, dirs))
      | None \<Rightarrow> (Inr (tracker_memory F), []))"

definition open_store :: "('s, 't) open_api \<Rightarrow> storage_config \<Rightarrow> 't \<Rightarrow> path list \<Rightarrow> (string + 's) \<times> path list" where
  "open_store F config tracker dirs =
     (let params = \<lparr>size_target_blocks = cfg_cache_size_blocks config,
            size_target_bytes = cfg_cache_size_bytes config\<rparr>
      in case cfg_path config of
           Some p \<Rightarrow>
             (case database_path F dirs p ''db'' of
                (Inl e, dirs) \<Rightarrow> (Inl e, dirs)
              | (Inr p, dirs) \<Rightarrow> (store_open F p params tracker, dirs))
         | None \<Rightarrow> (store_memory F params tracker, dirs))"

text \<open>The result and the directories that were created.\<close>

definition storage_open :: "('s, 't) open_api \<Rightarrow> storage_config \<Rightarrow> (string + 's storage) \<times> path list" where
  "storage_open F config =
     (case open_tracker F config of
        (Inl e, dirs) \<Rightarrow> (Inl e, dirs)
      | (Inr tracker, dirs) \<Rightarrow>
          (case open_store F config tracker dirs of
             (Inl e, dirs) \<Rightarrow> (Inl e, dirs)
           | (Inr st, dirs) \<Rightarrow>
               let is_memory = (cfg_path config = None);
                   d = \<lparr>store = st, gc_min_blocks = cfg_gc_min_blocks config,
                        gc_target_duration = cfg_gc_target_duration config,
                        gc_task = Some \<lparr>gc_interval = cfg_gc_interval config, gc_own_connection = \<not> is_memory\<rparr>,
                        queries_total = (\<lambda>_. 0)\<rparr>
               in (if is_memory then Inr d
                   else (case additional_connection F st of Inl e \<Rightarrow> Inl e | Inr _ \<Rightarrow> Inr d), dirs)))"

text \<open>One round of the background collector: a failure is logged and ignored.\<close>

definition gc_round :: "'s store_api \<Rightarrow> 's storage \<Rightarrow> 's storage" where
  "gc_round A d =
     (case gc_task d of
        None \<Rightarrow> d
      | Some _ \<Rightarrow>
          d\<lparr>store := snd (db_incremental_gc A (gc_min_blocks d) (gc_target_duration d) (store d))\<rparr>)"

text \<open>Dropping the service stops the collector.\<close>

definition storage_drop :: "'s storage \<Rightarrow> 's storage" where
  "storage_drop d = d\<lparr>gc_task := None\<rparr>"

subsection \<open>Transactions\<close>

text \<open>
  \<open>rw\<close>: the operation runs on a transaction, which is committed when the operation succeeded
  and dropped otherwise.
\<close>

definition rw :: "'s store_api \<Rightarrow> string \<Rightarrow> ('s, 'r) tx \<Rightarrow> 's storage \<Rightarrow> (string + 'r) \<times> 's storage" where
  "rw A op f d =
     (let d = d\<lparr>queries_total := (queries_total d)(op := Suc (queries_total d op))\<rparr>
      in case f (store d) of
           (Inl e, txn) \<Rightarrow> (Inl e, d\<lparr>store := tx_drop A txn\<rparr>)
         | (Inr r, txn) \<Rightarrow>
             (case tx_commit A txn of
                (Inl e, st) \<Rightarrow> (Inl e, d\<lparr>store := st\<rparr>)
              | (Inr _, st) \<Rightarrow> (Inr r, d\<lparr>store := st\<rparr>)))"

subsection \<open>Batch operations\<close>

definition batch_create_temp_pin :: "'s store_api \<Rightarrow> ('s, temp_pin) tx" where
  "batch_create_temp_pin A s = (let (temp, s) = tx_temp_pin A s in (Inr temp, s))"

fun batch_temp_pin :: "'s store_api \<Rightarrow> temp_pin \<Rightarrow> cid list \<Rightarrow> ('s, temp_pin) tx" where
  "batch_temp_pin A temp [] s = (Inr temp, s)"
| "batch_temp_pin A temp (link # iter) s =
     (case tx_extend_temp_pin A temp link s of
        (Inl e, s) \<Rightarrow> (Inl e, s)
      | (Inr temp, s) \<Rightarrow> batch_temp_pin A temp iter s)"

definition batch_iter :: "'s store_api \<Rightarrow> ('s, cid list) tx" where
  "batch_iter A = tx_block_cids A"

definition batch_contains :: "'s store_api \<Rightarrow> cid \<Rightarrow> ('s, bool) tx" where
  "batch_contains A c = tx_has_block A c"

definition batch_get :: "'s store_api \<Rightarrow> cid \<Rightarrow> ('s, block_data option) tx" where
  "batch_get A c = tx_get_block A c"

definition batch_insert :: "'s store_api \<Rightarrow> cid \<Rightarrow> block_data \<Rightarrow> ('s, unit) tx" where
  "batch_insert A c data = tx_put_block A c data None"

definition batch_resolve :: "'s store_api \<Rightarrow> bytes \<Rightarrow> ('s, cid option) tx" where
  "batch_resolve A alias = tx_resolve A alias"

definition batch_alias :: "'s store_api \<Rightarrow> bytes \<Rightarrow> cid option \<Rightarrow> ('s, unit) tx" where
  "batch_alias A alias c = tx_alias A alias c"

definition batch_aliases :: "'s store_api \<Rightarrow> ('s, (bytes \<times> cid) list) tx" where
  "batch_aliases A = tx_aliases A"

definition batch_reverse_alias :: "'s store_api \<Rightarrow> cid \<Rightarrow> ('s, bytes list option) tx" where
  "batch_reverse_alias A c = tx_reverse_alias A c"

definition batch_missing_blocks :: "'s store_api \<Rightarrow> cid \<Rightarrow> ('s, cid list) tx" where
  "batch_missing_blocks A c = tx_missing_blocks A c"

subsection \<open>Operations of the storage service\<close>

definition create_temp_pin :: "'s store_api \<Rightarrow> 's storage \<Rightarrow> (string + temp_pin) \<times> 's storage" where
  "create_temp_pin A = rw A ''create_temp_pin'' (batch_create_temp_pin A)"

definition storage_temp_pin :: "'s store_api \<Rightarrow> temp_pin \<Rightarrow> cid list \<Rightarrow> 's storage \<Rightarrow> (string + temp_pin) \<times> 's storage" where
  "storage_temp_pin A temp iter = rw A ''temp_pin'' (batch_temp_pin A temp iter)"

definition storage_iter :: "'s store_api \<Rightarrow> 's storage \<Rightarrow> (string + cid list) \<times> 's storage" where
  "storage_iter A = rw A ''iter'' (batch_iter A)"

definition storage_contains :: "'s store_api \<Rightarrow> cid \<Rightarrow> 's storage \<Rightarrow> (string + bool) \<times> 's storage" where
  "storage_contains A c = rw A ''contains'' (batch_contains A c)"

definition storage_get :: "'s store_api \<Rightarrow> cid \<Rightarrow> 's storage \<Rightarrow> (string + block_data option) \<times> 's storage" where
  "storage_get A c = rw A ''get'' (batch_get A c)"

definition storage_insert :: "'s store_api \<Rightarrow> cid \<Rightarrow> block_data \<Rightarrow> 's storage \<Rightarrow> (string + unit) \<times> 's storage" where
  "storage_insert A c data = rw A ''insert'' (batch_insert A c data)"

definition storage_alias :: "'s store_api \<Rightarrow> bytes \<Rightarrow> cid option \<Rightarrow> 's storage \<Rightarrow> (string + unit) \<times> 's storage" where
  "storage_alias A alias c = rw A ''alias'' (batch_alias A alias c)"

definition storage_aliases :: "'s store_api \<Rightarrow> 's storage \<Rightarrow> (string + (bytes \<times> cid) list) \<times> 's storage" where
  "storage_aliases A = rw A ''aliases'' (batch_aliases A)"

definition storage_resolve :: "'s store_api \<Rightarrow> bytes \<Rightarrow> 's storage \<Rightarrow> (string + cid option) \<times> 's storage" where
  "storage_resolve A alias = rw A ''resolve'' (batch_resolve A alias)"

definition storage_reverse_alias :: "'s store_api \<Rightarrow> cid \<Rightarrow> 's storage \<Rightarrow> (string + bytes list option) \<times> 's storage" where
  "storage_reverse_alias A c = rw A ''reverse_alias'' (batch_reverse_alias A c)"

definition storage_missing_blocks :: "'s store_api \<Rightarrow> cid \<Rightarrow> 's storage \<Rightarrow> (string + cid list) \<times> 's storage" where
  "storage_missing_blocks A c = rw A ''missing_blocks'' (batch_missing_blocks A c)"

text \<open>\<open>evict\<close> collects until a collection reports that it is done.\<close>

partial_function (option) evict_loop :: "'s store_api \<Rightarrow> 64 word \<Rightarrow> duration \<Rightarrow> 's \<Rightarrow> ((string + unit) \<times> 's) option" where
  "evict_loop A min_blocks target s =
     (case db_incremental_gc A min_blocks target s of
        (Inl e, s) \<Rightarrow> Some (Inl e, s)
      | (Inr done, s) \<Rightarrow> if done then Some (Inr (), s) else evict_loop A min_blocks target s)"

definition evict :: "'s store_api \<Rightarrow> 's storage \<Rightarrow> ((string + unit) \<times> 's storage) option" where
  "evict A d = map_option (\<lambda>(r, s). (r, d\<lparr>store := s\<rparr>))
     (evict_loop A (gc_min_blocks d) (gc_target_duration d) (store d))"

definition flush :: "'s store_api \<Rightarrow> 's storage \<Rightarrow> (string + unit) \<times> 's storage" where
  "flush A d =
     (let d = d\<lparr>queries_total := (queries_total d)(''flush'' := Suc (queries_total d ''flush''))\<rparr>
      in case db_flush A (store d) of (r, s) \<Rightarrow> (r, d\<lparr>store := s\<rparr>))"

subsection \<open>Metrics\<close>

text \<open>
  What the collector of the store reports: the number of blocks and their size, each cast
  to the signed integer of a gauge, or nothing when the statistics cannot be read.
\<close>

definition storage_collect :: "'s store_api \<Rightarrow> 's storage \<Rightarrow> (string \<times> int) list" where
  "storage_collect A d =
     (case db_store_stats A (store d) of
        Inr (n, sz) \<Rightarrow> [(''block_store_block_count'', sint n), (''block_store_size'', sint sz)]
      | Inl _ \<Rightarrow> [])"

end
