(* ===== verification/Node.thy ===== *)
theory Node
  imports Service Storage
begin

text \<open>
  The node, \<open>Ipfs\<close> in \<open>src/src/lib.rs\<close>: a storage service and a handle of the network task.
  Most methods pass a call on to one of them; \<open>get\<close>, \<open>fetch\<close> and \<open>sync\<close> combine both. Methods
  that send a command take the outcome of the send; what is awaited is given by a function
  of the environment, which may change the storage in the meantime, as bitswap and the
  garbage collector do.
\<close>

record ('s, 'ma) ipfs =
  ipfs_storage :: "'s storage"
  ipfs_network :: "'ma service"

datatype node_error = BlockNotFoundErr cid | StorageErr string | NetworkErr net_error | SendErr string

type_synonym node_block = "cid \<times> block_data"

definition on_storage :: "('s storage \<Rightarrow> (string + 'r) \<times> 's storage) \<Rightarrow> ('s, 'ma) ipfs \<Rightarrow>
    (node_error + 'r) \<times> ('s, 'ma) ipfs" where
  "on_storage f n = (let (r, d) = f (ipfs_storage n) in (map_sum StorageErr id r, n\<lparr>ipfs_storage := d\<rparr>))"

definition on_network :: "('ma service \<Rightarrow> 'r \<times> 'ma service) \<Rightarrow> ('s, 'ma) ipfs \<Rightarrow> 'r \<times> ('s, 'ma) ipfs" where
  "on_network f n = (let (r, v) = f (ipfs_network n) in (r, n\<lparr>ipfs_network := v\<rparr>))"

definition tell_network :: "('ma service \<Rightarrow> 'ma service) \<Rightarrow> ('s, 'ma) ipfs \<Rightarrow> ('s, 'ma) ipfs" where
  "tell_network f n = n\<lparr>ipfs_network := f (ipfs_network n)\<rparr>"

text \<open>The storage as bitswap sees it.\<close>

definition bitswap_contains :: "'s store_api \<Rightarrow> cid \<Rightarrow> 's storage \<Rightarrow> (string + bool) \<times> 's storage" where
  "bitswap_contains A c = storage_contains A c"

definition bitswap_store_get :: "'s store_api \<Rightarrow> cid \<Rightarrow> 's storage \<Rightarrow> (string + block_data option) \<times> 's storage" where
  "bitswap_store_get A c = storage_get A c"

definition bitswap_insert :: "'s store_api \<Rightarrow> node_block \<Rightarrow> 's storage \<Rightarrow> (string + unit) \<times> 's storage" where
  "bitswap_insert A b = storage_insert A (fst b) (snd b)"

definition bitswap_missing_blocks :: "'s store_api \<Rightarrow> cid \<Rightarrow> 's storage \<Rightarrow> (string + cid list) \<times> 's storage" where
  "bitswap_missing_blocks A c = storage_missing_blocks A c"

subsection \<open>Network methods\<close>

definition local_public_key :: "('s, 'ma) ipfs \<Rightarrow> string" where
  "local_public_key n = svc_public_key (ipfs_network n)"

definition ipfs_local_peer_id :: "('s, 'ma) ipfs \<Rightarrow> peer_id" where
  "ipfs_local_peer_id n = svc_peer_id (ipfs_network n)"

definition local_node_name :: "('s, 'ma) ipfs \<Rightarrow> string" where
  "local_node_name n = svc_node_name (ipfs_network n)"

definition ipfs_listen_on :: "try_send \<Rightarrow> 'ma \<Rightarrow> ('s, 'ma) ipfs \<Rightarrow> sender \<times> ('s, 'ma) ipfs" where
  "ipfs_listen_on r addr = on_network (service_listen_on r addr)"

definition ipfs_add_external_address :: "'ma env \<Rightarrow> try_send \<Rightarrow> 'ma \<Rightarrow> ('s, 'ma) ipfs \<Rightarrow> ('s, 'ma) ipfs" where
  "ipfs_add_external_address E r addr = tell_network (service_add_external_address E r addr)"

definition ipfs_add_address :: "try_send \<Rightarrow> peer_id \<Rightarrow> 'ma \<Rightarrow> ('s, 'ma) ipfs \<Rightarrow> ('s, 'ma) ipfs" where
  "ipfs_add_address r peer addr = tell_network (service_add_address r peer addr)"

definition ipfs_remove_address :: "try_send \<Rightarrow> peer_id \<Rightarrow> 'ma \<Rightarrow> ('s, 'ma) ipfs \<Rightarrow> ('s, 'ma) ipfs" where
  "ipfs_remove_address r peer addr = tell_network (service_remove_address r peer addr)"

definition ipfs_prune_peers :: "try_send \<Rightarrow> duration \<Rightarrow> ('s, 'ma) ipfs \<Rightarrow> ('s, 'ma) ipfs" where
  "ipfs_prune_peers r min_age = tell_network (service_prune_peers r min_age)"

definition ipfs_dial :: "try_send \<Rightarrow> peer_id \<Rightarrow> ('s, 'ma) ipfs \<Rightarrow> ('s, 'ma) ipfs" where
  "ipfs_dial r peer = tell_network (service_dial r peer)"

definition ipfs_dial_address :: "try_send \<Rightarrow> peer_id \<Rightarrow> 'ma \<Rightarrow> ('s, 'ma) ipfs \<Rightarrow> ('s, 'ma) ipfs" where
  "ipfs_dial_address r peer addr = tell_network (service_dial_address r peer addr)"

definition ipfs_ban :: "try_send \<Rightarrow> peer_id \<Rightarrow> ('s, 'ma) ipfs \<Rightarrow> ('s, 'ma) ipfs" where
  "ipfs_ban r peer = tell_network (service_ban r peer)"

definition ipfs_unban :: "try_send \<Rightarrow> peer_id \<Rightarrow> ('s, 'ma) ipfs \<Rightarrow> ('s, 'ma) ipfs" where
  "ipfs_unban r peer = tell_network (service_unban r peer)"

definition ipfs_bootstrap :: "try_send \<Rightarrow> (peer_id \<times> 'ma) list \<Rightarrow> ('s, 'ma) ipfs \<Rightarrow> request \<times> ('s, 'ma) ipfs" where
  "ipfs_bootstrap r nodes = on_network (service_bootstrap r nodes)"

definition ipfs_providers :: "try_send \<Rightarrow> kad_key \<Rightarrow> ('s, 'ma) ipfs \<Rightarrow> request \<times> ('s, 'ma) ipfs" where
  "ipfs_providers r key = on_network (service_providers r key)"

definition ipfs_provide :: "try_send \<Rightarrow> kad_key \<Rightarrow> ('s, 'ma) ipfs \<Rightarrow> request \<times> ('s, 'ma) ipfs" where
  "ipfs_provide r key = on_network (service_provide r key)"

definition ipfs_unprovide :: "try_send \<Rightarrow> kad_key \<Rightarrow> ('s, 'ma) ipfs \<Rightarrow> (string + unit) \<times> ('s, 'ma) ipfs" where
  "ipfs_unprovide r key = on_network (service_unprovide r key)"

definition ipfs_get_record :: "try_send \<Rightarrow> kad_key \<Rightarrow> quorum \<Rightarrow> ('s, 'ma) ipfs \<Rightarrow> request \<times> ('s, 'ma) ipfs" where
  "ipfs_get_record r key quorum = on_network (service_get_record r key quorum)"

definition ipfs_put_record :: "try_send \<Rightarrow> kad_record \<Rightarrow> quorum \<Rightarrow> ('s, 'ma) ipfs \<Rightarrow> request \<times> ('s, 'ma) ipfs" where
  "ipfs_put_record r rec quorum = on_network (service_put_record r rec quorum)"

definition ipfs_remove_record :: "try_send \<Rightarrow> kad_key \<Rightarrow> ('s, 'ma) ipfs \<Rightarrow> (string + unit) \<times> ('s, 'ma) ipfs" where
  "ipfs_remove_record r key = on_network (service_remove_record r key)"

definition ipfs_subscribe :: "try_send \<Rightarrow> string \<Rightarrow> ('s, 'ma) ipfs \<Rightarrow> request \<times> ('s, 'ma) ipfs" where
  "ipfs_subscribe r topic = on_network (service_subscribe r topic)"

definition ipfs_publish :: "try_send \<Rightarrow> string \<Rightarrow> bytes \<Rightarrow> ('s, 'ma) ipfs \<Rightarrow> request \<times> ('s, 'ma) ipfs" where
  "ipfs_publish r topic msg = on_network (service_publish r topic msg)"

definition ipfs_broadcast :: "try_send \<Rightarrow> string \<Rightarrow> bytes \<Rightarrow> ('s, 'ma) ipfs \<Rightarrow> request \<times> ('s, 'ma) ipfs" where
  "ipfs_broadcast r topic msg = on_network (service_broadcast r topic msg)"

definition ipfs_swarm_events :: "try_send \<Rightarrow> ('s, 'ma) ipfs \<Rightarrow> request \<times> ('s, 'ma) ipfs" where
  "ipfs_swarm_events r = on_network (service_swarm_events r)"

text \<open>What is read from the variables the task shares.\<close>

definition ipfs_is_connected :: "'ma backend \<Rightarrow> peer_id \<Rightarrow> ('s, 'ma) ipfs \<Rightarrow> bool" where
  "ipfs_is_connected s peer n = is_connected (ipfs_network n) s peer"

definition ipfs_peers :: "'ma backend \<Rightarrow> peer_id list" where
  "ipfs_peers s = service_peers s"

definition ipfs_listeners :: "'ma env \<Rightarrow> 'ma backend \<Rightarrow> 'ma list" where
  "ipfs_listeners E s = service_listeners E s"

definition ipfs_external_addresses :: "'ma backend \<Rightarrow> 'ma address_record list" where
  "ipfs_external_addresses s = service_external_addresses s"

definition ipfs_connections :: "'ma backend \<Rightarrow> (peer_id \<times> 'ma \<times> datetime \<times> direction) list" where
  "ipfs_connections s = service_connections s"

definition ipfs_peer_info :: "'ma backend \<Rightarrow> peer_id \<Rightarrow> 'ma peer_info option" where
  "ipfs_peer_info s peer = service_peer_info s peer"

definition ipfs_is_bootstrapped :: "'ma backend \<Rightarrow> bool" where
  "ipfs_is_bootstrapped s = is_bootstrapped s"

subsection \<open>Storage methods\<close>

definition ipfs_create_temp_pin :: "'s store_api \<Rightarrow> ('s, 'ma) ipfs \<Rightarrow> (node_error + temp_pin) \<times> ('s, 'ma) ipfs" where
  "ipfs_create_temp_pin A = on_storage (create_temp_pin A)"

definition ipfs_temp_pin :: "'s store_api \<Rightarrow> temp_pin \<Rightarrow> cid \<Rightarrow> ('s, 'ma) ipfs \<Rightarrow> (node_error + temp_pin) \<times> ('s, 'ma) ipfs" where
  "ipfs_temp_pin A tmp c = on_storage (storage_temp_pin A tmp [c])"

definition ipfs_iter :: "'s store_api \<Rightarrow> ('s, 'ma) ipfs \<Rightarrow> (node_error + cid list) \<times> ('s, 'ma) ipfs" where
  "ipfs_iter A = on_storage (storage_iter A)"

definition ipfs_contains :: "'s store_api \<Rightarrow> cid \<Rightarrow> ('s, 'ma) ipfs \<Rightarrow> (node_error + bool) \<times> ('s, 'ma) ipfs" where
  "ipfs_contains A c = on_storage (storage_contains A c)"

definition ipfs_get :: "'s store_api \<Rightarrow> cid \<Rightarrow> ('s, 'ma) ipfs \<Rightarrow> (node_error + node_block) \<times> ('s, 'ma) ipfs" where
  "ipfs_get A c n =
     (case on_storage (storage_get A c) n of
        (Inl e, n) \<Rightarrow> (Inl e, n)
      | (Inr (Some data), n) \<Rightarrow> (Inr (c, data), n)
      | (Inr None, n) \<Rightarrow> (Inl (BlockNotFoundErr c), n))"

text \<open>
  \<open>fetch\<close>: a block that is not stored is asked of the providers; \<open>remote\<close> is what awaiting the
  query yields, and the storage afterwards.
\<close>

definition ipfs_fetch :: "'s store_api \<Rightarrow> try_send \<Rightarrow> (oneshot \<Rightarrow> 's storage \<Rightarrow> unit result \<times> 's storage) \<Rightarrow>
    cid \<Rightarrow> peer_id list \<Rightarrow> ('s, 'ma) ipfs \<Rightarrow> (node_error + node_block) \<times> ('s, 'ma) ipfs" where
  "ipfs_fetch A r remote c ps n =
     (case on_storage (storage_get A c) n of
        (Inl e, n) \<Rightarrow> (Inl e, n)
      | (Inr (Some data), n) \<Rightarrow> (Inr (c, data), n)
      | (Inr None, n) \<Rightarrow>
          if ps \<noteq> [] then
            (case on_network (service_get r c ps) n of
               (ReadyErr e, n) \<Rightarrow> (Inl (SendErr e), n)
             | (Await rx, n) \<Rightarrow>
                 (case remote rx (ipfs_storage n) of
                    (Inl e, d) \<Rightarrow> (Inl (NetworkErr e), n\<lparr>ipfs_storage := d\<rparr>)
                  | (Inr _, d) \<Rightarrow> ipfs_get A c (n\<lparr>ipfs_storage := d\<rparr>)))
          else (Inl (BlockNotFoundErr c), n))"

definition ipfs_insert :: "'s store_api \<Rightarrow> node_block \<Rightarrow> ('s, 'ma) ipfs \<Rightarrow> (node_error + unit) \<times> ('s, 'ma) ipfs" where
  "ipfs_insert A b = on_storage (storage_insert A (fst b) (snd b))"

definition ipfs_evict :: "'s store_api \<Rightarrow> ('s, 'ma) ipfs \<Rightarrow> ((string + unit) \<times> ('s, 'ma) ipfs) option" where
  "ipfs_evict A n = map_option (\<lambda>(r, d). (r, n\<lparr>ipfs_storage := d\<rparr>)) (evict A (ipfs_storage n))"

text \<open>\<open>sync\<close> treats a failure to list the missing blocks as nothing missing.\<close>

definition ipfs_sync :: "'s store_api \<Rightarrow> try_send \<Rightarrow> cid \<Rightarrow> peer_id list \<Rightarrow> ('s, 'ma) ipfs \<Rightarrow> sync_request \<times> ('s, 'ma) ipfs" where
  "ipfs_sync A r c ps n =
     (let (res, n) = on_storage (storage_missing_blocks A c) n;
          missing = (case res of Inr m \<Rightarrow> m | Inl _ \<Rightarrow> [])
      in on_network (service_sync r c ps missing) n)"

definition ipfs_alias :: "'s store_api \<Rightarrow> bytes \<Rightarrow> cid option \<Rightarrow> ('s, 'ma) ipfs \<Rightarrow> (node_error + unit) \<times> ('s, 'ma) ipfs" where
  "ipfs_alias A alias c = on_storage (storage_alias A alias c)"

definition ipfs_aliases :: "'s store_api \<Rightarrow> ('s, 'ma) ipfs \<Rightarrow> (node_error + (bytes \<times> cid) list) \<times> ('s, 'ma) ipfs" where
  "ipfs_aliases A = on_storage (storage_aliases A)"

definition ipfs_resolve :: "'s store_api \<Rightarrow> bytes \<Rightarrow> ('s, 'ma) ipfs \<Rightarrow> (node_error + cid option) \<times> ('s, 'ma) ipfs" where
  "ipfs_resolve A alias = on_storage (storage_resolve A alias)"

definition ipfs_reverse_alias :: "'s store_api \<Rightarrow> cid \<Rightarrow> ('s, 'ma) ipfs \<Rightarrow> (node_error + bytes list option) \<times> ('s, 'ma) ipfs" where
  "ipfs_reverse_alias A c = on_storage (storage_reverse_alias A c)"

definition ipfs_flush :: "'s store_api \<Rightarrow> ('s, 'ma) ipfs \<Rightarrow> (node_error + unit) \<times> ('s, 'ma) ipfs" where
  "ipfs_flush A = on_storage (flush A)"

definition batch_ops :: "'s store_api \<Rightarrow> ('s, 'r) tx \<Rightarrow> ('s, 'ma) ipfs \<Rightarrow> (node_error + 'r) \<times> ('s, 'ma) ipfs" where
  "batch_ops A f = on_storage (rw A ''batch_ops'' f)"

subsection \<open>The node as a store of libipld\<close>

definition store_create_temp_pin :: "'s store_api \<Rightarrow> ('s, 'ma) ipfs \<Rightarrow> (node_error + temp_pin) \<times> ('s, 'ma) ipfs" where
  "store_create_temp_pin A = ipfs_create_temp_pin A"

definition store_temp_pin :: "'s store_api \<Rightarrow> temp_pin \<Rightarrow> cid \<Rightarrow> ('s, 'ma) ipfs \<Rightarrow> (node_error + temp_pin) \<times> ('s, 'ma) ipfs" where
  "store_temp_pin A tmp c = ipfs_temp_pin A tmp c"

definition store_contains :: "'s store_api \<Rightarrow> cid \<Rightarrow> ('s, 'ma) ipfs \<Rightarrow> (node_error + bool) \<times> ('s, 'ma) ipfs" where
  "store_contains A c = ipfs_contains A c"

definition store_get :: "'s store_api \<Rightarrow> cid \<Rightarrow> ('s, 'ma) ipfs \<Rightarrow> (node_error + node_block) \<times> ('s, 'ma) ipfs" where
  "store_get A c = ipfs_get A c"

definition store_insert :: "'s store_api \<Rightarrow> node_block \<Rightarrow> ('s, 'ma) ipfs \<Rightarrow> (node_error + unit) \<times> ('s, 'ma) ipfs" where
  "store_insert A b = ipfs_insert A b"

definition store_alias :: "'s store_api \<Rightarrow> bytes \<Rightarrow> cid option \<Rightarrow> ('s, 'ma) ipfs \<Rightarrow> (node_error + unit) \<times> ('s, 'ma) ipfs" where
  "store_alias A alias c = ipfs_alias A alias c"

definition store_resolve :: "'s store_api \<Rightarrow> bytes \<Rightarrow> ('s, 'ma) ipfs \<Rightarrow> (node_error + cid option) \<times> ('s, 'ma) ipfs" where
  "store_resolve A alias = ipfs_resolve A alias"

definition store_reverse_alias :: "'s store_api \<Rightarrow> cid \<Rightarrow> ('s, 'ma) ipfs \<Rightarrow> (node_error + bytes list option) \<times> ('s, 'ma) ipfs" where
  "store_reverse_alias A c = ipfs_reverse_alias A c"

definition store_flush :: "'s store_api \<Rightarrow> ('s, 'ma) ipfs \<Rightarrow> (node_error + unit) \<times> ('s, 'ma) ipfs" where
  "store_flush A = ipfs_flush A"

text \<open>\<open>fetch\<close> and \<open>sync\<close> ask the known peers; \<open>sync\<close> awaits the query.\<close>

definition store_fetch :: "'s store_api \<Rightarrow> try_send \<Rightarrow> (oneshot \<Rightarrow> 's storage \<Rightarrow> unit result \<times> 's storage) \<Rightarrow>
    'ma backend \<Rightarrow> cid \<Rightarrow> ('s, 'ma) ipfs \<Rightarrow> (node_error + node_block) \<times> ('s, 'ma) ipfs" where
  "store_fetch A r remote s c = ipfs_fetch A r remote c (ipfs_peers s)"

definition await_sync :: "(oneshot \<Rightarrow> 's storage \<Rightarrow> unit result \<times> 's storage) \<Rightarrow>
    sync_request \<times> ('s, 'ma) ipfs \<Rightarrow> ((node_error + unit) \<times> ('s, 'ma) ipfs) option" where
  "await_sync remote q =
     (case q of
        (SyncReady sq, n) \<Rightarrow>
          sync_poll sq \<bind> (\<lambda>(p, _). case p of Ready r \<Rightarrow> Some (map_sum NetworkErr id r, n) | Pending \<Rightarrow> None)
      | (SyncRequest (ReadyErr e), n) \<Rightarrow> Some (Inl (SendErr e), n)
      | (SyncRequest (Await rx), n) \<Rightarrow>
          (case remote rx (ipfs_storage n) of
             (r, d) \<Rightarrow> Some (map_sum NetworkErr id r, n\<lparr>ipfs_storage := d\<rparr>)))"

definition store_sync :: "'s store_api \<Rightarrow> try_send \<Rightarrow> (oneshot \<Rightarrow> 's storage \<Rightarrow> unit result \<times> 's storage) \<Rightarrow>
    'ma backend \<Rightarrow> cid \<Rightarrow> ('s, 'ma) ipfs \<Rightarrow> ((node_error + unit) \<times> ('s, 'ma) ipfs) option" where
  "store_sync A r remote s c n = await_sync remote (ipfs_sync A r c (ipfs_peers s) n)"

end
