(* ===== verification/Simulation.thy ===== *)
theory Simulation
  imports Prelude
begin

text \<open>
  Refinement of a component whose operations may fail: an operation that succeeds does what
  the specification says, and one that fails does all of it or nothing. Then the whole run is
  a run of the specification in which each failed operation is performed or left out.
\<close>

fun run_fallible :: "('i \<Rightarrow> 's \<Rightarrow> ('e + 'r) \<times> 's) \<Rightarrow> 'i list \<Rightarrow> 's \<Rightarrow> ('e + 'r) list \<times> 's" where
  "run_fallible step [] s = ([], s)"
| "run_fallible step (i # is) s =
     (let (r, s) = step i s; (rs, s) = run_fallible step is s in (r # rs, s))"

text \<open>The results \<open>rs\<close> of the operations and the state \<open>a'\<close> at the end are explained by the specification.\<close>

fun explains :: "('i \<Rightarrow> 'a \<Rightarrow> 'r \<times> 'a) \<Rightarrow> 'i list \<Rightarrow> ('e + 'r) list \<Rightarrow> 'a \<Rightarrow> 'a \<Rightarrow> bool" where
  "explains spec [] [] a a' = (a' = a)"
| "explains spec (i # is) (Inr r # rs) a a' = (fst (spec i a) = r \<and> explains spec is rs (snd (spec i a)) a')"
| "explains spec (i # is) (Inl e # rs) a a' = (explains spec is rs a a' \<or> explains spec is rs (snd (spec i a)) a')"
| "explains spec _ _ a a' = False"

locale fallible_refinement =
  fixes law :: bool
    and step :: "'i \<Rightarrow> 's \<Rightarrow> ('e + 'r) \<times> 's"
    and spec :: "'i \<Rightarrow> 'a \<Rightarrow> 'r \<times> 'a"
    and view :: "'s \<Rightarrow> 'a"
  assumes success: "law \<Longrightarrow> step i s = (Inr r, s') \<Longrightarrow> spec i (view s) = (r, view s')"
    and failure: "law \<Longrightarrow> step i s = (Inl e, s') \<Longrightarrow> view s' = view s \<or> view s' = snd (spec i (view s))"
begin

lemma run_refines: "law \<Longrightarrow> run_fallible step is s = (rs, s') \<Longrightarrow> explains spec is rs (view s) (view s')"
proof (induction "is" arbitrary: s rs)
  case (Cons i "is")
  obtain r s1 where s1: "step i s = (r, s1)" by (cases "step i s")
  obtain rs1 where rs1: "run_fallible step is s1 = (rs1, s')" "rs = r # rs1"
    using Cons.prems(2) s1 by (auto split: prod.splits)
  show ?case
    using Cons.IH [OF Cons.prems(1) rs1(1)] Cons.prems(1) s1 rs1(2) success [of i s _ s1] failure [of i s _ s1]
    by (cases r) auto
qed simp

end

end
