(* ===== verification/StorageProperties.thy ===== *)
theory StorageProperties
  imports Storage Simulation
begin

text \<open>
  What the storage promises. Its abstract state is a map of blocks and a map of aliases.
  Given that the operations of the block store implement these maps, the service refines
  them: whatever succeeds does what the maps do, whatever fails does that or nothing. A batch
  is not atomic and keeps what it did before it failed. A collection that is run to
  completion ends, and opening the storage creates only the directories that are configured.
\<close>

subsection \<open>The abstract storage\<close>

record store_spec =
  blocks :: "cid \<Rightarrow> block_data option"
  alias_map :: "bytes \<Rightarrow> cid option"

datatype store_op =
    StoreInsert cid block_data
  | StoreGet cid
  | StoreContains cid
  | StoreAlias bytes "cid option"
  | StoreResolve bytes

datatype store_result = NoResult | Data "block_data option" | Found bool | Root "cid option"

fun store_spec_step :: "store_op \<Rightarrow> store_spec \<Rightarrow> store_result \<times> store_spec" where
  "store_spec_step (StoreInsert c x) m = (NoResult, m\<lparr>blocks := (blocks m)(c \<mapsto> x)\<rparr>)"
| "store_spec_step (StoreGet c) m = (Data (blocks m c), m)"
| "store_spec_step (StoreContains c) m = (Found (blocks m c \<noteq> None), m)"
| "store_spec_step (StoreAlias a c) m = (NoResult, m\<lparr>alias_map := (alias_map m)(a := c)\<rparr>)"
| "store_spec_step (StoreResolve a) m = (Root (alias_map m a), m)"

text \<open>The operation of the service.\<close>

abbreviation result :: "('a \<Rightarrow> 'b) \<Rightarrow> (string + 'a) \<times> 's storage \<Rightarrow> (string + 'b) \<times> 's storage" where
  "result f r \<equiv> map_prod (map_sum id f) id r"

fun store_step :: "'s store_api \<Rightarrow> store_op \<Rightarrow> 's storage \<Rightarrow> (string + store_result) \<times> 's storage" where
  "store_step A (StoreInsert c x) d = result (\<lambda>_. NoResult) (storage_insert A c x d)"
| "store_step A (StoreGet c) d = result Data (storage_get A c d)"
| "store_step A (StoreContains c) d = result Found (storage_contains A c d)"
| "store_step A (StoreAlias a c) d = result (\<lambda>_. NoResult) (storage_alias A a c d)"
| "store_step A (StoreResolve a) d = result Root (storage_resolve A a d)"

text \<open>
  The block store as these maps. Each operation is atomic, and committing or dropping a
  transaction concerns only the tracker of accesses. Nothing is assumed about when an
  operation fails.
\<close>

definition store_laws :: "'s store_api \<Rightarrow> ('s \<Rightarrow> store_spec) \<Rightarrow> bool" where
  "store_laws A view \<longleftrightarrow>
     (\<forall>c x pin s r s'. tx_put_block A c x pin s = (r, s') \<longrightarrow>
        view s' = (if isl r then view s else (view s)\<lparr>blocks := (blocks (view s))(c \<mapsto> x)\<rparr>)) \<and>
     (\<forall>c s r s'. tx_get_block A c s = (r, s') \<longrightarrow> view s' = view s \<and> (\<forall>x. r = Inr x \<longrightarrow> x = blocks (view s) c)) \<and>
     (\<forall>c s r s'. tx_has_block A c s = (r, s') \<longrightarrow>
        view s' = view s \<and> (\<forall>x. r = Inr x \<longrightarrow> x = (blocks (view s) c \<noteq> None))) \<and>
     (\<forall>a c s r s'. tx_alias A a c s = (r, s') \<longrightarrow>
        view s' = (if isl r then view s else (view s)\<lparr>alias_map := (alias_map (view s))(a := c)\<rparr>)) \<and>
     (\<forall>a s r s'. tx_resolve A a s = (r, s') \<longrightarrow> view s' = view s \<and> (\<forall>x. r = Inr x \<longrightarrow> x = alias_map (view s) a)) \<and>
     (\<forall>s. view (snd (tx_commit A s)) = view s) \<and> (\<forall>s. view (tx_drop A s) = view s)"

lemma store_lawsD:
  assumes "store_laws A view"
  shows "tx_put_block A c x pin s = (r, s') \<Longrightarrow> view s' = (if isl r then view s else (view s)\<lparr>blocks := (blocks (view s))(c \<mapsto> x)\<rparr>)"
    "tx_get_block A c s = (q, s') \<Longrightarrow> view s' = view s \<and> (\<forall>x. q = Inr x \<longrightarrow> x = blocks (view s) c)"
    "tx_has_block A c s = (b, s') \<Longrightarrow> view s' = view s \<and> (\<forall>x. b = Inr x \<longrightarrow> x = (blocks (view s) c \<noteq> None))"
    "tx_alias A a root s = (r, s') \<Longrightarrow> view s' = (if isl r then view s else (view s)\<lparr>alias_map := (alias_map (view s))(a := root)\<rparr>)"
    "tx_resolve A a s = (p, s') \<Longrightarrow> view s' = view s \<and> (\<forall>x. p = Inr x \<longrightarrow> x = alias_map (view s) a)"
    "view (snd (tx_commit A s)) = view s" "tx_commit A s = (r, s') \<Longrightarrow> view s' = view s" "view (tx_drop A s) = view s"
proof -
  show commit: "view (snd (tx_commit A s)) = view s" for s using assms by (simp add: store_laws_def)
  show "tx_commit A s = (r, s') \<Longrightarrow> view s' = view s" using commit [of s] by simp
qed (use assms in \<open>simp_all add: store_laws_def\<close>)

lemma rw_cases:
  assumes "rw A op f d = (r, d')"
  obtains (fail) e s where "r = Inl e" "f (store d) = (Inl e, s)" "store d' = tx_drop A s"
  | (uncommitted) e x s where "r = Inl e" "f (store d) = (Inr x, s)" "tx_commit A s = (Inl e, store d')"
  | (ok) x s where "r = Inr x" "f (store d) = (Inr x, s)" "tx_commit A s = (Inr (), store d')"
  using assms by (auto simp: rw_def Let_def split: sum.splits prod.splits)

lemmas storage_op_defs = storage_insert_def storage_get_def storage_contains_def storage_alias_def
  storage_resolve_def batch_insert_def batch_get_def batch_contains_def batch_alias_def batch_resolve_def

text \<open>An operation that does all or nothing does so under the lock, too.\<close>

lemma rw_atomic:
  assumes "store_laws A view" "rw A op f d = (r, d')"
    "\<And>s q s'. f s = (q, s') \<Longrightarrow> case q of Inr x \<Rightarrow> spec (view s) = (g x, view s') | Inl _ \<Rightarrow> view s' = view s"
  shows "case r of Inr x \<Rightarrow> spec (view (store d)) = (g x, view (store d'))
    | Inl _ \<Rightarrow> view (store d') = view (store d) \<or> view (store d') = snd (spec (view (store d)))"
  using assms(2)
proof (cases rule: rw_cases)
  case (fail e s)
  with assms(3) [OF fail(2)] store_lawsD(8) [OF assms(1)] show ?thesis by simp
next
  case (uncommitted e x s)
  with assms(3) [OF uncommitted(2)] store_lawsD(7) [OF assms(1) uncommitted(3)] show ?thesis by simp
next
  case (ok x s)
  with assms(3) [OF ok(2)] store_lawsD(7) [OF assms(1) ok(3)] show ?thesis by simp
qed

lemma result_atomic:
  assumes "store_laws A view" "result g (rw A op f d) = (r, d')"
    "\<And>s q s'. f s = (q, s') \<Longrightarrow> case q of Inr x \<Rightarrow> spec (view s) = (g x, view s') | Inl _ \<Rightarrow> view s' = view s"
  shows "case r of Inr x \<Rightarrow> spec (view (store d)) = (x, view (store d'))
    | Inl _ \<Rightarrow> view (store d') = view (store d) \<or> view (store d') = snd (spec (view (store d)))"
proof -
  obtain q where q: "rw A op f d = (q, d')" "r = map_sum id g q"
    using assms(2) by (cases "rw A op f d") auto
  from rw_atomic [OF assms(1) q(1) assms(3)] q(2) show ?thesis by (cases q) auto
qed

lemma store_step_rw:
  assumes "store_laws A view" "store_step A i d = (r, d')"
  shows "case r of Inr x \<Rightarrow> store_spec_step i (view (store d)) = (x, view (store d'))
    | Inl _ \<Rightarrow> view (store d') = view (store d) \<or> view (store d') = snd (store_spec_step i (view (store d)))"
proof -
  note laws = store_lawsD(1-5) [OF assms(1)]
  show ?thesis
  proof (cases i)
    case (StoreInsert c x)
    from assms(2) [unfolded StoreInsert store_step.simps storage_op_defs] show ?thesis
      unfolding StoreInsert by (rule result_atomic [OF assms(1)]) (drule laws(1), simp split: sum.splits)
  next
    case (StoreGet c)
    from assms(2) [unfolded StoreGet store_step.simps storage_op_defs] show ?thesis
      unfolding StoreGet by (rule result_atomic [OF assms(1)]) (drule laws(2), simp split: sum.splits)
  next
    case (StoreContains c)
    from assms(2) [unfolded StoreContains store_step.simps storage_op_defs] show ?thesis
      unfolding StoreContains by (rule result_atomic [OF assms(1)]) (drule laws(3), simp split: sum.splits)
  next
    case (StoreAlias a c)
    from assms(2) [unfolded StoreAlias store_step.simps storage_op_defs] show ?thesis
      unfolding StoreAlias by (rule result_atomic [OF assms(1)]) (drule laws(4), simp split: sum.splits)
  next
    case (StoreResolve a)
    from assms(2) [unfolded StoreResolve store_step.simps storage_op_defs] show ?thesis
      unfolding StoreResolve by (rule result_atomic [OF assms(1)]) (drule laws(5), simp split: sum.splits)
  qed
qed

interpretation st: fallible_refinement "store_laws A view" "store_step A" store_spec_step "\<lambda>d. view (store d)"
  for A :: "'s store_api" and view
  by unfold_locales (use store_step_rw in fastforce)+


text \<open>A store that is a pair of association lists; a block without data is refused.\<close>

type_synonym list_db = "(cid, block_data) hashmap \<times> (bytes, cid) hashmap"

definition list_store :: "list_db store_api" where
  "list_store = \<lparr>tx_temp_pin = (\<lambda>s. (0, s)), tx_extend_temp_pin = (\<lambda>t c s. (Inr t, s)),
     tx_block_cids = (\<lambda>s. (Inr (hm_keys (fst s)), s)), tx_has_block = (\<lambda>c s. (Inr (hm_get (fst s) c \<noteq> None), s)),
     tx_get_block = (\<lambda>c s. (Inr (hm_get (fst s) c), s)),
     tx_put_block = (\<lambda>c x pin s. if x = [] then (Inl ''empty block'', s) else (Inr (), (hm_insert c x (fst s), snd s))),
     tx_resolve = (\<lambda>a s. (Inr (hm_get (snd s) a), s)),
     tx_alias = (\<lambda>a c s. (Inr (), (fst s, case c of Some c \<Rightarrow> hm_insert a c (snd s) | None \<Rightarrow> hm_remove a (snd s)))),
     tx_aliases = (\<lambda>s. (Inr (snd s), s)), tx_reverse_alias = (\<lambda>c s. (Inr None, s)),
     tx_missing_blocks = (\<lambda>c s. (Inl ''database is locked'', s)),
     tx_commit = (\<lambda>s. (Inr (), s)), tx_drop = id,
     db_incremental_gc = (\<lambda>n t s. (Inr (fst s = []), (tl (fst s), snd s))), db_flush = (\<lambda>s. (Inr (), s)),
     db_store_stats = (\<lambda>s. Inr (of_nat (length (fst s)), of_nat (sum_list (map (length \<circ> snd) (fst s)))))\<rparr>"

definition list_view :: "list_db \<Rightarrow> store_spec" where
  "list_view s = \<lparr>blocks = hm_get (fst s), alias_map = hm_get (snd s)\<rparr>"

definition empty_storage :: "list_db storage" where
  "empty_storage = \<lparr>store = ([], []), gc_min_blocks = 1, gc_target_duration = 1, gc_task = None,
     queries_total = (\<lambda>_. 0)\<rparr>"

lemma list_store_laws [simp]: "store_laws list_store list_view"
  by (auto simp: store_laws_def list_store_def list_view_def fun_eq_iff split: if_splits option.splits)

lemmas list_store_eval = storage_op_defs rw_def list_store_def empty_storage_def


subsection \<open>Batches\<close>

text \<open>A batch that inserts a list of blocks, stopping at the first error.\<close>

fun insert_all :: "'s store_api \<Rightarrow> (cid \<times> block_data) list \<Rightarrow> ('s, unit) tx" where
  "insert_all A [] s = (Inr (), s)"
| "insert_all A ((c, x) # bs) s =
     (case batch_insert A c x s of (Inl e, s) \<Rightarrow> (Inl e, s) | (Inr _, s) \<Rightarrow> insert_all A bs s)"

definition with_blocks :: "(cid \<times> block_data) list \<Rightarrow> store_spec \<Rightarrow> store_spec" where
  "with_blocks bs m = m\<lparr>blocks := blocks m ++ map_of (rev bs)\<rparr>"

lemma with_blocks_simps [simp]:
  "with_blocks [] m = m" "with_blocks bs (m\<lparr>blocks := (blocks m)(c \<mapsto> x)\<rparr>) = with_blocks ((c, x) # bs) m"
  by (auto simp: with_blocks_def fun_eq_iff map_add_def split: option.splits)

lemma insert_all_spec:
  assumes "store_laws A view" "insert_all A bs s = (r, s')"
  shows "case r of
      Inr _ \<Rightarrow> view s' = with_blocks bs (view s)
    | Inl e \<Rightarrow> \<exists>done c x todo t. bs = done @ (c, x) # todo \<and> fst (batch_insert A c x t) = Inl e \<and>
        view t = with_blocks done (view s) \<and> view s' = view t"
  using assms(2)
proof (induction bs arbitrary: s)
  case (Cons b bs)
  obtain c x where b: "b = (c, x)" by (cases b)
  obtain q t where q: "batch_insert A c x s = (q, t)" by (cases "batch_insert A c x s")
  note put = store_lawsD(1) [OF assms(1) q [unfolded batch_insert_def]]
  show ?case
  proof (cases q)
    case (Inl e)
    with Cons.prems b q have "r = Inl e" "s' = t" by auto
    moreover have "b # bs = [] @ (c, x) # bs" "fst (batch_insert A c x s) = Inl e" using b q Inl by simp_all
    ultimately show ?thesis using put Inl by (auto intro!: exI [of _ "[]"])
  next
    case (Inr u)
    with Cons.prems b q have "insert_all A bs t = (r, s')" by simp
    note IH = Cons.IH [OF this]
    have t: "with_blocks ys (view t) = with_blocks (b # ys) (view s)" for ys using put Inr b by simp
    show ?thesis
    proof (cases r)
      case (Inl e)
      with IH obtain pre c' x' todo t' where "bs = pre @ (c', x') # todo" "fst (batch_insert A c' x' t') = Inl e"
        "view t' = with_blocks pre (view t)" "view s' = view t'" by auto
      then have "b # bs = (b # pre) @ (c', x') # todo \<and> fst (batch_insert A c' x' t') = Inl e \<and>
        view t' = with_blocks (b # pre) (view s) \<and> view s' = view t'" using t by simp
      then show ?thesis unfolding Inl sum.case by blast
    qed (use IH t in simp)
  qed
qed auto



subsection \<open>Garbage collection\<close>

text \<open>The loop of \<open>evict\<close> returns, and keeps what every collection keeps.\<close>

lemma evict_loop_returns:
  assumes "\<And>s s'. db_incremental_gc A m t s = (Inr False, s') \<Longrightarrow> (weight s' :: nat) < weight s"
    "P s" "\<And>s. P s \<Longrightarrow> P (snd (db_incremental_gc A m t s))"
  shows "\<exists>r s'. evict_loop A m t s = Some (r, s') \<and> P s' \<and>
    (r = Inr () \<longrightarrow> (\<exists>s0. P s0 \<and> db_incremental_gc A m t s0 = (Inr True, s')))"
  using assms(2)
proof (induction "weight s" arbitrary: s rule: less_induct)
  case less
  show ?case
  proof (cases "db_incremental_gc A m t s")
    case (Pair q s1)
    with assms(3) [OF less.prems] have "P s1" by simp
    with Pair less assms(1) [of s s1] show ?thesis
      by (cases q; cases "q = Inr True") (subst evict_loop.simps; auto)+
  qed
qed




subsection \<open>Opening\<close>

text \<open>
  Opening the storage: only directories of the configuration are created, and only
  where the path is not a file already; a configuration without paths touches no file; the
  storage that is opened keeps the limits of the configuration, collects in the background
  at the configured interval, and uses a connection of its own for it exactly when the
  store is a file.
\<close>

lemma storage_open_spec:
  assumes "storage_open F config = (r, dirs)"
  shows "set dirs \<subseteq> {p. (cfg_path config = Some p \<or> cfg_access_db_path config = Some p) \<and> (\<exists>ds. \<not> is_file F ds p)} \<and>
    (\<forall>d. r = Inr d \<longrightarrow> gc_min_blocks d = cfg_gc_min_blocks config \<and>
       gc_target_duration d = cfg_gc_target_duration config \<and>
       gc_task d = Some \<lparr>gc_interval = cfg_gc_interval config, gc_own_connection = (cfg_path config \<noteq> None)\<rparr>)"
proof -
  let ?new = "\<lambda>cfg. {p. cfg = Some p \<and> (\<exists>ds. \<not> is_file F ds p)}"
  have path: "set ds' \<subseteq> set ds \<union> ?new (Some p)"
    if "database_path F ds p name = (q, ds')" for ds p name q ds'
    using that by (auto simp: database_path_def split: if_splits sum.splits)
  have tracker: "set ds \<subseteq> ?new (cfg_access_db_path config)"
    if "open_tracker F config = (t, ds)" for t ds
    using that path by (fastforce simp: open_tracker_def split: option.splits prod.splits sum.splits)
  have store: "set ds' \<subseteq> set ds \<union> ?new (cfg_path config)"
    if "open_store F config t ds = (s, ds')" for t ds s ds'
    using that path by (fastforce simp: open_store_def Let_def split: option.splits prod.splits sum.splits)
  obtain t ds where t: "open_tracker F config = (t, ds)" by (cases "open_tracker F config")
  have "set dirs \<subseteq> ?new (cfg_access_db_path config) \<union> ?new (cfg_path config)"
    using assms tracker [OF t] store
    by (fastforce simp: storage_open_def t Let_def split: prod.splits sum.splits)
  with assms show ?thesis
    by (auto simp: storage_open_def Let_def split: prod.splits sum.splits if_splits)
qed

definition sample_fs :: "(list_db, unit) open_api" where
  "sample_fs = \<lparr>is_file = (\<lambda>_ p. p = ''f''), create_dir_all = (\<lambda>_ _. Inr ()),
     path_join = (\<lambda>p n. p @ ''/'' @ n), tracker_open = (\<lambda>_. Inr ()), tracker_memory = (),
     store_open = (\<lambda>_ _ _. Inr ([], [])), store_memory = (\<lambda>_ _. Inr ([], [])),
     additional_connection = (\<lambda>_. Inr ())\<rparr>"

lemma storage_open_spec_sample:
  "\<exists>d. storage_open sample_fs (storage_config_new (Some ''data'') None 10 5) = (Inr d, [''data'']) \<and>
     gc_task d = Some \<lparr>gc_interval = 5, gc_own_connection = True\<rparr>"
proof -
  obtain d where d: "storage_open sample_fs (storage_config_new (Some ''data'') None 10 5) = (Inr d, [''data''])"
    by (simp add: storage_open_def open_tracker_def open_store_def database_path_def sample_fs_def
        storage_config_new_def Let_def)
  with storage_open_spec [OF d] show ?thesis by (simp add: storage_config_new_def)
qed

end
