(* ===== verification/NodeProperties.thy ===== *)
theory NodeProperties
  imports Node StorageProperties Clients
begin

text \<open>
  What the node promises about blocks: a fetch prefers the store and returns what the store
  holds, and a sync whose inventory fails reports success.
\<close>

abbreviation node_view :: "('s \<Rightarrow> store_spec) \<Rightarrow> ('s, 'ma) ipfs \<Rightarrow> store_spec" where
  "node_view view n \<equiv> view (store (ipfs_storage n))"

lemma on_storage_get:
  assumes "store_laws A view" "on_storage (storage_get A c) n = (r, n')"
  shows "node_view view n' = node_view view n" "r = Inr x \<Longrightarrow> x = blocks (node_view view n) c"
    "r = Inl e \<Longrightarrow> \<exists>s. e = StorageErr s" "ipfs_network n' = ipfs_network n"
proof -
  obtain q d where q: "storage_get A c (ipfs_storage n) = (q, d)" by (cases "storage_get A c (ipfs_storage n)")
  have n': "r = map_sum StorageErr id q" "n' = n\<lparr>ipfs_storage := d\<rparr>"
    using assms(2) q by (auto simp: on_storage_def)
  have step: "store_step A (StoreGet c) (ipfs_storage n) = (map_sum id Data q, d)"
    by (simp add: q)
  have "view (store d) = node_view view n \<and> (\<forall>x. q = Inr x \<longrightarrow> x = blocks (node_view view n) c)"
  proof (cases q)
    case (Inl e)
    with step st.failure [OF assms(1), of "StoreGet c" "ipfs_storage n" e d] show ?thesis by simp
  next
    case (Inr y)
    with step st.success [OF assms(1), of "StoreGet c" "ipfs_storage n" "Data y" d] show ?thesis by auto
  qed
  then show "node_view view n' = node_view view n" "r = Inr x \<Longrightarrow> x = blocks (node_view view n) c"
    "r = Inl e \<Longrightarrow> \<exists>s. e = StorageErr s" "ipfs_network n' = ipfs_network n"
    unfolding n' by (cases q; auto)+
qed

lemma ipfs_get_spec:
  assumes "store_laws A view" "ipfs_get A c n = (r, n')"
  shows "(\<exists>e. r = Inl (StorageErr e)) \<or>
    r = (case blocks (node_view view n) c of Some x \<Rightarrow> Inr (c, x) | None \<Rightarrow> Inl (BlockNotFoundErr c))"
    "node_view view n' = node_view view n" "ipfs_network n' = ipfs_network n"
proof -
  obtain q n1 where q: "on_storage (storage_get A c) n = (q, n1)" by (cases "on_storage (storage_get A c) n")
  note g = on_storage_get [OF assms(1) q]
  show "(\<exists>e. r = Inl (StorageErr e)) \<or>
    r = (case blocks (node_view view n) c of Some x \<Rightarrow> Inr (c, x) | None \<Rightarrow> Inl (BlockNotFoundErr c))"
    using assms(2) g(2,3) by (fastforce simp: ipfs_get_def q split: sum.splits option.splits)
  show "node_view view n' = node_view view n" "ipfs_network n' = ipfs_network n"
    using assms(2) g(1,4) by (auto simp: ipfs_get_def q split: sum.splits option.splits)
qed

text \<open>
  C25. Fetching a block prefers the store: a stored block is returned without a command to
  the network, a missing block without providers is reported as not found, and whenever a
  block is returned it is the one the store holds at the end.
\<close>

theorem fetch_returns_stored:
  assumes "store_laws A view" "ipfs_fetch A send remote c ps n = (r, n')"
  shows "(\<forall>x. blocks (node_view view n) c = Some x \<longrightarrow>
       (r = Inr (c, x) \<or> (\<exists>e. r = Inl (StorageErr e))) \<and>
       node_view view n' = node_view view n \<and> ipfs_network n' = ipfs_network n) \<and>
    (blocks (node_view view n) c = None \<and> ps = [] \<longrightarrow> r = Inl (BlockNotFoundErr c) \<or> (\<exists>e. r = Inl (StorageErr e))) \<and>
    (\<forall>c' x. r = Inr (c', x) \<longrightarrow> c' = c \<and> blocks (node_view view n') c = Some x)"
proof -
  obtain q n1 where q: "on_storage (storage_get A c) n = (q, n1)" by (cases "on_storage (storage_get A c) n")
  note g = on_storage_get [OF assms(1) q]
  have late: "c' = c \<and> blocks (node_view view n3) c = Some x" if "ipfs_get A c n2 = (Inr (c', x), n3)" for n2 n3 c' x
    using ipfs_get_spec [OF assms(1) that] by (auto split: option.splits)
  show ?thesis
  proof (cases q)
    case (Inl e)
    with assms(2) g show ?thesis by (auto simp: ipfs_fetch_def q)
  next
    case (Inr y)
    show ?thesis
    proof (cases y)
      case (Some data)
      with assms(2) g Inr show ?thesis by (auto simp: ipfs_fetch_def q)
    next
      case None
      with g(2) Inr have "blocks (node_view view n) c = None" by simp
      moreover have "c' = c \<and> blocks (node_view view n') c = Some x" if "r = Inr (c', x)" for c' x
        using assms(2) that late
        by (auto simp: ipfs_fetch_def q Inr None split: if_splits prod.splits request.splits sum.splits)
      moreover have "ps = [] \<longrightarrow> r = Inl (BlockNotFoundErr c)"
        using assms(2) by (auto simp: ipfs_fetch_def q Inr None)
      ultimately show ?thesis by (intro conjI) auto
    qed
  qed
qed

definition sample_node :: "(list_db, nat) ipfs" where
  "sample_node = \<lparr>ipfs_storage = empty_storage, ipfs_network = service_new ''key'' 1 ''node''\<rparr>"

theorem fetch_returns_stored_witness:
  "\<exists>n'. ipfs_fetch list_store SendOk (\<lambda>_ d. (Inr (), d\<lparr>store := ([(7, [1])], [])\<rparr>)) 7 [5] sample_node =
      (Inr (7, [1]), n') \<and> blocks (node_view list_view n') 7 = Some [1]"
proof -
  obtain n' where n: "ipfs_fetch list_store SendOk (\<lambda>_ d. (Inr (), d\<lparr>store := ([(7, [1])], [])\<rparr>)) 7 [5] sample_node =
      (Inr (7, [1]), n')"
    by (simp add: ipfs_fetch_def ipfs_get_def on_storage_def on_network_def list_store_eval sample_node_def
        service_get_def service_request_def service_cmd_def handle_send_result_def Let_def)
  from fetch_returns_stored [OF list_store_laws n] n show ?thesis by blast
qed

text \<open>
  A sync that cannot find out which blocks are missing reports success: when the
  inventory of missing blocks fails, the query completes at once as if everything were
  stored, and no command is sent to the network.
\<close>

lemma failed_inventory_syncs:
  assumes "fst (tx_missing_blocks A c (store (ipfs_storage n))) = Inl e"
  shows "\<exists>q q' n'. ipfs_sync A r c ps n = (SyncReady q, n') \<and> sync_poll q = Some (Ready (Inr ()), q') \<and>
    cmd_queue (ipfs_network n') = cmd_queue (ipfs_network n)"
  using assms sync_poll_steps(1) [of None "[]" "Inr ()" "[]" True]
  by (cases "tx_missing_blocks A c (store (ipfs_storage n))")
    (simp add: ipfs_sync_def on_storage_def on_network_def storage_missing_blocks_def batch_missing_blocks_def
      rw_def Let_def service_sync_def sync_query_ready_def)

end
