(* ===== verification/CliProtocol.thy ===== *)
theory CliProtocol
  imports AddressBook
begin

text \<open>
  The line protocol of the command line tool, \<open>src/cli/src/lib.rs\<close>: commands and events are
  printed as words separated by blanks and parsed back. A parser that meets a missing word
  panics (\<open>None\<close>); a word that does not parse is an error (\<open>Inl\<close>).

  How peer ids, addresses, content ids and JSON print and parse, and whether a block's data
  match its content id, is up to other crates: the record \<open>wire_api\<close>.
\<close>

subsection \<open>Splitting a line into words\<close>

text \<open>
  \<open>ws_len s\<close> is the number of bytes of the white space character \<open>s\<close> starts with, 0 if it
  starts with another character: the characters with the Unicode property \<open>White_Space\<close>.
\<close>

fun ws_len :: "bytes \<Rightarrow> nat" where
  "ws_len [] = 0"
| "ws_len (c # s) =
     (let a = of_char c :: nat
      in if a = 32 \<or> 9 \<le> a \<and> a \<le> 13 then 1
         else case s of
           [] \<Rightarrow> 0
         | d # s' \<Rightarrow>
             let b = of_char d :: nat
             in if a = 194 \<and> (b = 133 \<or> b = 160) then 2
                else case s' of
                  [] \<Rightarrow> 0
                | e # _ \<Rightarrow>
                    let x = of_char e :: nat
                    in if a = 225 \<and> b = 154 \<and> x = 128 \<or>
                          a = 226 \<and> b = 128 \<and> (128 \<le> x \<and> x \<le> 138 \<or> x = 168 \<or> x = 169 \<or> x = 175) \<or>
                          a = 226 \<and> b = 129 \<and> x = 159 \<or>
                          a = 227 \<and> b = 128 \<and> x = 128
                       then 3 else 0)"

function split_ws :: "bytes \<Rightarrow> bytes \<Rightarrow> bytes list" where
  "split_ws cur [] = (if cur = [] then [] else [cur])"
| "split_ws cur (c # s) =
     (if ws_len (c # s) = 0 then split_ws (cur @ [c]) s
      else (if cur = [] then [] else [cur]) @ split_ws [] (drop (ws_len (c # s) - 1) s))"
  by pat_completeness auto
termination
  by (relation "measure (length \<circ> snd)") auto

definition split_whitespace :: "bytes \<Rightarrow> bytes list" where
  "split_whitespace = split_ws []"

text \<open>\<open>join(" ")\<close>\<close>

fun join_blank :: "bytes list \<Rightarrow> bytes" where
  "join_blank [] = ''''"
| "join_blank [w] = w"
| "join_blank (w # ws) = w @ '' '' @ join_blank ws"

fun no_ws :: "bytes \<Rightarrow> bool" where
  "no_ws [] = True"
| "no_ws (c # s) = (ws_len (c # s) = 0 \<and> no_ws s)"

definition is_word :: "bytes \<Rightarrow> bool" where
  "is_word w \<longleftrightarrow> w \<noteq> [] \<and> no_ws w"

subsection \<open>Block data in hexadecimal\<close>

definition hex_char :: "nat \<Rightarrow> char" where
  "hex_char n = char_of (if n < 10 then 48 + n else 87 + n)"

text \<open>\<open>{:02x}\<close>\<close>

definition print_byte :: "u8 \<Rightarrow> bytes" where
  "print_byte b = [hex_char (unat b div 16), hex_char (unat b mod 16)]"

definition print_data :: "u8 list \<Rightarrow> bytes" where
  "print_data data = concat (map print_byte data)"

definition hex_value :: "char \<Rightarrow> nat option" where
  "hex_value c =
     (let n = of_char c :: nat
      in if 48 \<le> n \<and> n \<le> 57 then Some (n - 48)
         else if 97 \<le> n \<and> n \<le> 102 then Some (n - 87)
         else if 65 \<le> n \<and> n \<le> 70 then Some (n - 55)
         else None)"

text \<open>
  \<open>u8::from_str_radix(s, 16)\<close> on at most two characters, which cannot overflow: an optional
  plus sign, then at least one digit.
\<close>

fun hex_digits :: "nat \<Rightarrow> bytes \<Rightarrow> nat option" where
  "hex_digits acc [] = Some acc"
| "hex_digits acc (c # s) = (case hex_value c of Some v \<Rightarrow> hex_digits (16 * acc + v) s | None \<Rightarrow> None)"

definition u8_from_hex :: "bytes \<Rightarrow> u8 option" where
  "u8_from_hex s =
     (let digits = (case s of c # d # rest \<Rightarrow> if c = CHR ''+'' then d # rest else s | _ \<Rightarrow> s)
      in if digits = [] then None else map_option of_nat (hex_digits 0 digits))"

text \<open>\<open>as_bytes().chunks(2)\<close>, each checked to be a string and then parsed.\<close>

fun parse_data :: "bytes \<Rightarrow> string + u8 list" where
  "parse_data [] = Inr []"
| "parse_data [c] =
     (case from_utf8 [c] of
        None \<Rightarrow> Inl ''invalid utf-8''
      | Some s \<Rightarrow> (case u8_from_hex s of None \<Rightarrow> Inl ''invalid digit'' | Some b \<Rightarrow> Inr [b]))"
| "parse_data (c # d # rest) =
     (case from_utf8 [c, d] of
        None \<Rightarrow> Inl ''invalid utf-8''
      | Some s \<Rightarrow>
          (case u8_from_hex s of
             None \<Rightarrow> Inl ''invalid digit''
           | Some b \<Rightarrow> (case parse_data rest of Inl e \<Rightarrow> Inl e | Inr bs \<Rightarrow> Inr (b # bs))))"

subsection \<open>Commands\<close>

datatype block = Block (block_cid: cid) (block_data: "u8 list")

datatype 'ma cli_command =
    AddAddressC peer_id 'ma
  | DialC peer_id
  | PrunePeersC
  | GetC cid
  | InsertC block
  | AliasC string "cid option"
  | FlushC
  | SyncC cid

record 'ma peer_info_io =
  io_protocol_version :: "string option"
  io_agent_version :: "string option"
  io_protocols :: "string list"
  io_listeners :: "'ma list"
  io_addresses :: "('ma \<times> string) list"
  io_connections :: "'ma list"
  io_failures :: "string list"

record 'ma wire_api =
  show_peer :: "peer_id \<Rightarrow> bytes"
  parse_peer :: "bytes \<Rightarrow> string + peer_id"
  show_addr :: "'ma \<Rightarrow> bytes"
  parse_addr :: "bytes \<Rightarrow> string + 'ma"
  show_cid :: "cid \<Rightarrow> bytes"
  parse_cid :: "bytes \<Rightarrow> string + cid"
  show_json :: "'ma peer_info_io \<Rightarrow> bytes"
  parse_json :: "bytes \<Rightarrow> string + 'ma peer_info_io"
  block_check :: "cid \<Rightarrow> u8 list \<Rightarrow> string option"
  dbg_failure :: "'ma connection_failure \<Rightarrow> string"

text \<open>
  The documented behaviour of the crates: what is printed parses back, and the printed form
  of peer ids, addresses and content ids is a word.
\<close>

definition wire_laws :: "'ma wire_api \<Rightarrow> bool" where
  "wire_laws W \<longleftrightarrow>
     (\<forall>p. parse_peer W (show_peer W p) = Inr p \<and> is_word (show_peer W p)) \<and>
     (\<forall>a. parse_addr W (show_addr W a) = Inr a \<and> is_word (show_addr W a)) \<and>
     (\<forall>c. parse_cid W (show_cid W c) = Inr c \<and> is_word (show_cid W c))"

fun print_command :: "'ma wire_api \<Rightarrow> 'ma cli_command \<Rightarrow> bytes" where
  "print_command W (AddAddressC peer addr) = ''>add-address '' @ show_peer W peer @ '' '' @ show_addr W addr"
| "print_command W (DialC peer) = ''>dial '' @ show_peer W peer"
| "print_command W PrunePeersC = ''>prune-peers''"
| "print_command W (GetC cid) = ''>get '' @ show_cid W cid"
| "print_command W (InsertC block) = ''>insert '' @ show_cid W (block_cid block) @ '' '' @ print_data (block_data block)"
| "print_command W (AliasC alias cid) =
     ''>alias '' @ alias @ (case cid of Some c \<Rightarrow> '' '' @ show_cid W c | None \<Rightarrow> [])"
| "print_command W FlushC = ''>flush''"
| "print_command W (SyncC cid) = ''>sync '' @ show_cid W cid"

text \<open>\<open>parts.next().unwrap()\<close> and \<open>parts.next().unwrap().parse()?\<close>, then the rest.\<close>

definition next_part :: "bytes list \<Rightarrow> (bytes \<Rightarrow> bytes list \<Rightarrow> (string + 'b) option) \<Rightarrow> (string + 'b) option" where
  "next_part parts k = (case parts of [] \<Rightarrow> None | x # rest \<Rightarrow> k x rest)"

definition parse_part :: "(bytes \<Rightarrow> string + 'a) \<Rightarrow> bytes list \<Rightarrow> ('a \<Rightarrow> bytes list \<Rightarrow> (string + 'b) option) \<Rightarrow>
    (string + 'b) option" where
  "parse_part f parts k = next_part parts (\<lambda>x rest. case f x of Inl e \<Rightarrow> Some (Inl e) | Inr v \<Rightarrow> k v rest)"

definition parse_block :: "'ma wire_api \<Rightarrow> bytes list \<Rightarrow> (string + block) option" where
  "parse_block W parts =
     parse_part (parse_cid W) parts (\<lambda>cid rest.
       parse_part parse_data rest (\<lambda>data _.
         Some (case block_check W cid data of Some e \<Rightarrow> Inl e | None \<Rightarrow> Inr (Block cid data))))"

definition parse_command :: "'ma wire_api \<Rightarrow> bytes \<Rightarrow> (string + 'ma cli_command) option" where
  "parse_command W s =
     (case split_whitespace s of
        [] \<Rightarrow> Some (Inl ''invalid command'')
      | kw # parts \<Rightarrow>
          if kw = ''>add-address'' then
            parse_part (parse_peer W) parts (\<lambda>peer rest.
              parse_part (parse_addr W) rest (\<lambda>addr _. Some (Inr (AddAddressC peer addr))))
          else if kw = ''>dial'' then
            parse_part (parse_peer W) parts (\<lambda>peer _. Some (Inr (DialC peer)))
          else if kw = ''>prune-peers'' then Some (Inr PrunePeersC)
          else if kw = ''>get'' then
            parse_part (parse_cid W) parts (\<lambda>cid _. Some (Inr (GetC cid)))
          else if kw = ''>insert'' then
            map_option (map_sum id InsertC) (parse_block W parts)
          else if kw = ''>alias'' then
            next_part parts (\<lambda>alias rest.
              case rest of
                [] \<Rightarrow> Some (Inr (AliasC alias None))
              | x # _ \<Rightarrow> (case parse_cid W x of Inl e \<Rightarrow> Some (Inl e) | Inr cid \<Rightarrow> Some (Inr (AliasC alias (Some cid)))))
          else if kw = ''>flush'' then Some (Inr FlushC)
          else if kw = ''>sync'' then
            parse_part (parse_cid W) parts (\<lambda>cid _. Some (Inr (SyncC cid)))
          else Some (Inl ''invalid command''))"

subsection \<open>Events\<close>

datatype 'ma cli_event =
    NewListenerE
  | NewListenAddrE 'ma
  | ExpiredListenAddrE 'ma
  | ListenerClosedE
  | NewExternalAddrE 'ma
  | ExpiredExternalAddrE 'ma
  | DiscoveredE peer_id
  | UnreachableE peer_id
  | ConnectedE peer_id
  | DisconnectedE peer_id
  | SubscribedE peer_id string
  | UnsubscribedE peer_id string
  | BlockE block
  | FlushedE
  | SyncedE
  | BootstrappedE
  | PeerInfoE peer_id "'ma peer_info_io"
  | PeerRemovedE peer_id
  | DialFailureE peer_id 'ma string
  | ConnectionEstablishedE peer_id 'ma
  | ConnectionClosedE peer_id 'ma

fun print_event :: "'ma wire_api \<Rightarrow> 'ma cli_event \<Rightarrow> bytes" where
  "print_event W NewListenerE = ''<new-listener''"
| "print_event W (NewListenAddrE a) = ''<new-listen-addr '' @ show_addr W a"
| "print_event W (ExpiredListenAddrE a) = ''<expired-listen-addr '' @ show_addr W a"
| "print_event W ListenerClosedE = ''<listener-closed''"
| "print_event W (NewExternalAddrE a) = ''<new-external-addr '' @ show_addr W a"
| "print_event W (ExpiredExternalAddrE a) = ''<expired-external-addr '' @ show_addr W a"
| "print_event W (DiscoveredE p) = ''<discovered '' @ show_peer W p"
| "print_event W (UnreachableE p) = ''<unreachable '' @ show_peer W p"
| "print_event W (ConnectedE p) = ''<connected '' @ show_peer W p"
| "print_event W (DisconnectedE p) = ''<disconnected '' @ show_peer W p"
| "print_event W (SubscribedE p topic) = ''<subscribed '' @ show_peer W p @ '' '' @ topic"
| "print_event W (UnsubscribedE p topic) = ''<unsubscribed '' @ show_peer W p @ '' '' @ topic"
| "print_event W (BlockE b) = ''<block '' @ show_cid W (block_cid b) @ '' '' @ print_data (block_data b)"
| "print_event W FlushedE = ''<flushed''"
| "print_event W SyncedE = ''<synced''"
| "print_event W BootstrappedE = ''<bootstrapped''"
| "print_event W (PeerInfoE p i) = ''<peer-info '' @ show_peer W p @ '' '' @ show_json W i"
| "print_event W (PeerRemovedE p) = ''<peer-removed '' @ show_peer W p"
| "print_event W (DialFailureE p a e) = ''<dial-failure '' @ show_peer W p @ '' '' @ show_addr W a @ '' '' @ e"
| "print_event W (ConnectionEstablishedE p a) = ''<connection-established '' @ show_peer W p @ '' '' @ show_addr W a"
| "print_event W (ConnectionClosedE p a) = ''<connection-closed '' @ show_peer W p @ '' '' @ show_addr W a"

definition parse_event :: "'ma wire_api \<Rightarrow> bytes \<Rightarrow> (string + 'ma cli_event) option" where
  "parse_event W s =
     (case split_whitespace s of
        [] \<Rightarrow> Some (Inl ''invalid event'')
      | kw # parts \<Rightarrow>
          let addr = (\<lambda>f. parse_part (parse_addr W) parts (\<lambda>a _. Some (Inr (f a))));
              peer = (\<lambda>f. parse_part (parse_peer W) parts (\<lambda>p _. Some (Inr (f p))));
              peer_topic = (\<lambda>f. parse_part (parse_peer W) parts (\<lambda>p rest.
                next_part rest (\<lambda>topic _. Some (Inr (f p topic)))));
              peer_addr = (\<lambda>f. parse_part (parse_peer W) parts (\<lambda>p rest.
                parse_part (parse_addr W) rest (\<lambda>a rest. Some (Inr (f p a rest)))))
          in if kw = ''<new-listener'' then Some (Inr NewListenerE)
          else if kw = ''<new-listen-addr'' then addr NewListenAddrE
          else if kw = ''<expired-listen-addr'' then addr ExpiredListenAddrE
          else if kw = ''<listener-closed'' then Some (Inr ListenerClosedE)
          else if kw = ''<new-external-addr'' then addr NewExternalAddrE
          else if kw = ''<expired-external-addr'' then addr ExpiredExternalAddrE
          else if kw = ''<discovered'' then peer DiscoveredE
          else if kw = ''<unreachable'' then peer UnreachableE
          else if kw = ''<connected'' then peer ConnectedE
          else if kw = ''<disconnected'' then peer DisconnectedE
          else if kw = ''<subscribed'' then peer_topic SubscribedE
          else if kw = ''<unsubscribed'' then peer_topic UnsubscribedE
          else if kw = ''<block'' then map_option (map_sum id BlockE) (parse_block W parts)
          else if kw = ''<flushed'' then Some (Inr FlushedE)
          else if kw = ''<synced'' then Some (Inr SyncedE)
          else if kw = ''<bootstrapped'' then Some (Inr BootstrappedE)
          else if kw = ''<peer-info'' then
            parse_part (parse_peer W) parts (\<lambda>p rest.
              Some (map_sum id (PeerInfoE p) (parse_json W (join_blank rest))))
          else if kw = ''<peer-removed'' then peer PeerRemovedE
          else if kw = ''<dial-failure'' then peer_addr (\<lambda>p a rest. DialFailureE p a (join_blank rest))
          else if kw = ''<connection-established'' then peer_addr (\<lambda>p a _. ConnectionEstablishedE p a)
          else if kw = ''<connection-closed'' then peer_addr (\<lambda>p a _. ConnectionClosedE p a)
          else Some (Inl ''invalid event''))"

text \<open>\<open>PeerInfoIo::from\<close>: the part of a peer record that is printed.\<close>

fun dbg_source :: "address_source \<Rightarrow> string" where
  "dbg_source Incoming = ''Incoming''"
| "dbg_source Listen = ''Listen''"
| "dbg_source Kad = ''Kad''"
| "dbg_source Mdns = ''Mdns''"
| "dbg_source Candidate = ''Candidate''"
| "dbg_source User = ''User''"
| "dbg_source Dial = ''Dial''"

definition to_peer_info_io :: "'ma wire_api \<Rightarrow> 'ma peer_info \<Rightarrow> 'ma peer_info_io" where
  "to_peer_info_io W info =
     \<lparr>io_protocol_version = protocol_version info, io_agent_version = agent_version info,
      io_protocols = protocols info, io_listeners = info_listeners info,
      io_addresses = map (\<lambda>(a, s, _). (a, dbg_source s)) (addresses info),
      io_connections = map fst (connections info), io_failures = map (dbg_failure W) (failures info)\<rparr>"

text \<open>
  The event task of \<open>src/cli/src/main.rs\<close>: which line is printed for an event of the swarm,
  if any; \<open>info\<close> is what the node knows of a peer at that moment.
\<close>

fun event_line :: "'ma wire_api \<Rightarrow> (peer_id \<Rightarrow> 'ma peer_info option) \<Rightarrow> 'ma event \<Rightarrow> 'ma cli_event option" where
  "event_line W info (NewListener _) = Some NewListenerE"
| "event_line W info (NewListenAddr _ addr) = Some (NewListenAddrE addr)"
| "event_line W info (ExpiredListenAddr _ addr) = Some (ExpiredListenAddrE addr)"
| "event_line W info (ListenerClosed _) = Some ListenerClosedE"
| "event_line W info (NewExternalAddr addr) = Some (NewExternalAddrE addr)"
| "event_line W info (ExpiredExternalAddr addr) = Some (ExpiredExternalAddrE addr)"
| "event_line W info (Discovered p) = Some (DiscoveredE p)"
| "event_line W info (Unreachable p) = Some (UnreachableE p)"
| "event_line W info (Connected p) = Some (ConnectedE p)"
| "event_line W info (Disconnected p) = Some (DisconnectedE p)"
| "event_line W info (Subscribed p topic) = Some (SubscribedE p topic)"
| "event_line W info (Unsubscribed p topic) = Some (UnsubscribedE p topic)"
| "event_line W info Bootstrapped = Some BootstrappedE"
| "event_line W info (NewInfo p) =
     (case info p of Some i \<Rightarrow> Some (PeerInfoE p (to_peer_info_io W i)) | None \<Rightarrow> Some (PeerRemovedE p))"
| "event_line W info (ListenerError _ _) = None"
| "event_line W info (DialFailure p a e) = Some (DialFailureE p a e)"
| "event_line W info (ConnectionEstablished p cp) = Some (ConnectionEstablishedE p (get_remote_address cp))"
| "event_line W info (ConnectionClosed p cp) = Some (ConnectionClosedE p (get_remote_address cp))"
| "event_line W info (AddressChanged _ _ _) = None"

end
