(* ===== verification/CliRoundtrip.thy ===== *)
theory CliRoundtrip
  imports CliProtocol
begin

text \<open>
  What is printed on the command line is read back: round trips of commands and events, and
  the inputs for which they fail.
\<close>

subsection \<open>Words\<close>

lemma of_char_blank [simp]: "(of_char (CHR '' '') :: nat) = 32"
  by simp

lemma ws_len_blank [simp]: "ws_len (CHR '' '' # s) = 1"
  by simp

text \<open>A blank after a character does not turn it into white space.\<close>

lemma ws_len_append:
  assumes "ws_len (c # s) = 0"
  shows "ws_len (c # s @ CHR '' '' # t) = 0"
proof (cases s)
  case Nil
  with assms show ?thesis by (auto simp: Let_def split: list.splits if_splits)
next
  case (Cons d s')
  with assms show ?thesis by (cases s') (auto simp: Let_def split: if_splits)
qed

lemma split_ws_word:
  "no_ws w \<Longrightarrow> split_ws cur (w @ CHR '' '' # t) = (if cur @ w = [] then [] else [cur @ w]) @ split_ws [] t"
proof (induction w arbitrary: cur)
  case (Cons c w)
  then show ?case using ws_len_append [of c w t] by (simp del: ws_len.simps)
qed simp

lemma split_ws_last: "no_ws w \<Longrightarrow> split_ws cur w = (if cur @ w = [] then [] else [cur @ w])"
  by (induction w arbitrary: cur) (simp_all del: ws_len.simps)

lemma split_whitespace_Cons [simp]:
  "is_word w \<Longrightarrow> split_whitespace (w @ CHR '' '' # t) = w # split_whitespace t"
  "is_word w \<Longrightarrow> split_whitespace w = [w]"
  "split_whitespace [] = []"
  by (simp_all add: is_word_def split_whitespace_def split_ws_word split_ws_last)

text \<open>Splitting and joining normalises the white space; words are not changed.\<close>

lemma ws_len_suffix: "ws_len (c # s) \<noteq> 0 \<Longrightarrow> ws_len (c # s) \<le> length (c # s)"
  by (auto simp: Let_def split: list.splits if_splits)

lemma split_join: "list_all is_word ws \<Longrightarrow> split_whitespace (join_blank ws) = ws"
  by (induction ws rule: join_blank.induct) simp_all

subsection \<open>Hexadecimal data\<close>

lemma hex_code: "n < 16 \<Longrightarrow> (of_char (hex_char n) :: nat) = (if n < 10 then 48 + n else 87 + n)"
  by (auto simp: hex_char_def)

lemma hex_value_char [simp]: "n < 16 \<Longrightarrow> hex_value (hex_char n) = Some n"
  by (simp add: hex_value_def hex_code Let_def)

lemma hex_not_plus [simp]: "n < 16 \<Longrightarrow> hex_char n \<noteq> CHR ''+''"
proof
  assume "n < 16" "hex_char n = CHR ''+''"
  then have "(of_char (hex_char n) :: nat) = 43" by simp
  with \<open>n < 16\<close> show False by (simp add: hex_code split: if_splits)
qed

lemma hex_no_ws: "n < 16 \<Longrightarrow> ws_len (hex_char n # s) = 0"
  by (auto simp: hex_code Let_def split: list.splits)

lemma u8_digits [simp]: "unat (b :: u8) div 16 < 16" "unat b mod 16 < 16"
  using unsigned_less [of b, where 'a = nat] by auto

lemma print_data_Cons: "print_data (b # bs) = hex_char (unat b div 16) # hex_char (unat b mod 16) # print_data bs"
  by (simp add: print_data_def print_byte_def)

lemma from_utf8_hex: "n < 16 \<Longrightarrow> m < 16 \<Longrightarrow> from_utf8 [hex_char n, hex_char m] = Some [hex_char n, hex_char m]"
  by (simp add: from_utf8_def hex_code)

lemma parse_print_data [simp]: "parse_data (print_data bs) = Inr bs"
proof (induction bs)
  case (Cons b bs)
  have "of_nat (16 * (unat b div 16) + unat b mod 16) = b"
    by simp
  then have "u8_from_hex [hex_char (unat b div 16), hex_char (unat b mod 16)] = Some b"
    by (simp add: u8_from_hex_def)
  with Cons show ?case
    by (simp add: print_data_Cons from_utf8_hex)
qed (simp add: print_data_def)

lemma print_data_no_ws: "no_ws (print_data bs)"
  by (induction bs) (simp_all add: print_data_Cons hex_no_ws del: ws_len.simps, simp add: print_data_def)

lemma print_data_word [simp]: "bs \<noteq> [] \<Longrightarrow> is_word (print_data bs)"
  using print_data_no_ws [of bs] by (cases bs) (simp_all add: is_word_def print_data_Cons)

subsection \<open>Commands\<close>

lemma wire_parse [simp]:
  assumes "wire_laws W"
  shows "parse_peer W (show_peer W p) = Inr p" "parse_addr W (show_addr W a) = Inr a"
    "parse_cid W (show_cid W c) = Inr c"
    "is_word (show_peer W p)" "is_word (show_addr W a)" "is_word (show_cid W c)"
  using assms by (simp_all add: wire_laws_def)

lemma part_simps [simp]:
  "next_part (x # rest) k = k x rest" "next_part [] k = None" "parse_part f [] h = None"
  "parse_part f (x # rest) h = (case f x of Inl e \<Rightarrow> Some (Inl e) | Inr v \<Rightarrow> h v rest)"
  by (simp_all add: next_part_def parse_part_def)

lemma split_blank: "is_word w \<Longrightarrow> split_whitespace (w @ '' '' @ t) = w # split_whitespace t"
  by simp

text \<open>The first words of commands and events, with the blank that follows them.\<close>

definition printable :: "bytes \<Rightarrow> bool" where
  "printable w \<longleftrightarrow> w \<noteq> [] \<and> list_all (\<lambda>c. 33 \<le> (of_char c :: nat) \<and> (of_char c :: nat) \<le> 126) w"

lemma printable_word: "printable w \<Longrightarrow> is_word w"
proof -
  have "no_ws w" if "list_all (\<lambda>c. 33 \<le> (of_char c :: nat) \<and> (of_char c :: nat) \<le> 126) w"
    using that by (induction w) (auto simp: Let_def split: list.splits)
  then show "printable w \<Longrightarrow> is_word w" by (simp add: printable_def is_word_def)
qed

lemma split_keyword:
  "last k = CHR '' '' \<Longrightarrow> printable (butlast k) \<Longrightarrow> split_whitespace (k @ t) = butlast k # split_whitespace t"
proof -
  assume k: "last k = CHR '' ''" "printable (butlast k)"
  then have "k = butlast k @ '' ''"
    by (metis append_butlast_last_id butlast.simps(1) printable_def)
  then have "k @ t = butlast k @ CHR '' '' # t"
    by (metis append.assoc append_Cons append_Nil)
  with k(2) show ?thesis
    using split_whitespace_Cons(1) [OF printable_word] by metis
qed

lemmas keyword_simps = split_keyword split_whitespace_Cons(2) [OF printable_word] printable_def

text \<open>Commands that can be printed: an alias is a word, a block has data and matches its id.\<close>

fun command_wf :: "'ma wire_api \<Rightarrow> 'ma cli_command \<Rightarrow> bool" where
  "command_wf W (InsertC b) = (block_data b \<noteq> [] \<and> block_check W (block_cid b) (block_data b) = None)"
| "command_wf W (AliasC alias _) = is_word alias"
| "command_wf W _ = True"

lemma command_parses:
  assumes "wire_laws W" "command_wf W c"
  shows "parse_command W (print_command W c) = Some (Inr c)"
  using assms
  by (cases c) (auto simp: parse_command_def parse_block_def keyword_simps split_blank
      simp del: append.simps(2) split: option.splits)

text \<open>
  C15. A command that is printed parses back to itself: every command whose alias is a word
  and whose block is valid and not empty.
\<close>

theorem command_roundtrip:
  assumes "wire_laws W" "command_wf W c"
  shows "parse_command W (print_command W c) = Some (Inr c)"
  using assms by (rule command_parses)

text \<open>
  A concrete wire format: a number is printed in unary, an address as its number of
  protocols.
\<close>

definition unary :: "nat \<Rightarrow> bytes" where
  "unary n = CHR ''n'' # replicate n CHR ''i''"

definition sample_wire :: "nat wire_api" where
  "sample_wire = \<lparr>show_peer = unary, parse_peer = (\<lambda>s. Inr (length s - 1)), show_addr = unary,
     parse_addr = (\<lambda>s. Inr (length s - 1)), show_cid = unary, parse_cid = (\<lambda>s. Inr (length s - 1)),
     show_json = (\<lambda>_. []), parse_json = (\<lambda>_. Inl ''json''), block_check = (\<lambda>_ _. None),
     dbg_failure = (\<lambda>_. [])\<rparr>"

lemma unary_word [simp]: "is_word (unary n)"
proof -
  have "no_ws (replicate m CHR ''i'')" for m
  proof (induction m)
    case (Suc m)
    then show ?case by (cases m; cases "m - 1") (simp_all add: Let_def split: list.splits)
  qed simp
  then have "no_ws (CHR ''n'' # replicate n CHR ''i'')"
    by (cases n; cases "n - 1") (simp_all add: Let_def split: list.splits)
  then show ?thesis by (simp add: is_word_def unary_def)
qed

lemma sample_wire_laws [simp]: "wire_laws sample_wire"
  by (simp add: wire_laws_def sample_wire_def) (simp add: unary_def)

theorem command_roundtrip_witness:
  "parse_command sample_wire (print_command sample_wire (InsertC (Block 3 [1, 255]))) =
    Some (Inr (InsertC (Block 3 [1, 255])))"
  by (rule command_roundtrip [OF sample_wire_laws]) (simp add: sample_wire_def)

text \<open>
  C40. Printing a block without data and parsing it back panics, both as a command and as an
  event: the data are an empty word, which the parser does not find.
\<close>

theorem empty_block_panics:
  assumes "wire_laws W"
  shows "parse_command W (print_command W (InsertC (Block cid []))) = None \<and>
    parse_event W (print_event W (BlockE (Block cid []))) = None"
proof -
  have "split_whitespace (show_cid W cid @ '' '') = [show_cid W cid]"
    using split_blank [of "show_cid W cid" "[]"] assms by simp
  then show ?thesis
    using assms by (simp add: parse_command_def parse_event_def parse_block_def keyword_simps
        print_data_def del: append.simps(2))
qed

theorem empty_block_panics_witness:
  "parse_command sample_wire (print_command sample_wire (InsertC (Block 3 []))) = None \<and>
    parse_event sample_wire (print_event sample_wire (BlockE (Block 3 []))) = None"
  by (rule empty_block_panics) simp

subsection \<open>Events\<close>

text \<open>
  Events that can be printed: a topic is a word, a block has data and matches its id, an
  error text and the JSON of a peer record contain no white space but single blanks between
  words, and the JSON parses back.
\<close>

definition blank_separated :: "bytes \<Rightarrow> bool" where
  "blank_separated s \<longleftrightarrow> join_blank (split_whitespace s) = s"

fun event_wf :: "'ma wire_api \<Rightarrow> 'ma cli_event \<Rightarrow> bool" where
  "event_wf W (SubscribedE _ topic) = is_word topic"
| "event_wf W (UnsubscribedE _ topic) = is_word topic"
| "event_wf W (BlockE b) = (block_data b \<noteq> [] \<and> block_check W (block_cid b) (block_data b) = None)"
| "event_wf W (PeerInfoE _ i) = (blank_separated (show_json W i) \<and> parse_json W (show_json W i) = Inr i)"
| "event_wf W (DialFailureE _ _ e) = blank_separated e"
| "event_wf W _ = True"

text \<open>
  C16. An event that is printed parses back to itself, provided its topic is a word, its
  block is valid and not empty, and its free text is separated by single blanks.
\<close>

theorem event_roundtrip:
  assumes "wire_laws W" "event_wf W ev"
  shows "parse_event W (print_event W ev) = Some (Inr ev)"
  using assms
  by (cases ev) (auto simp: parse_event_def parse_block_def keyword_simps split_blank blank_separated_def
      simp del: append.simps(2) split: option.splits)

theorem event_roundtrip_witness:
  "parse_event sample_wire (print_event sample_wire (DialFailureE 1 2 ''no route'')) =
    Some (Inr (DialFailureE 1 2 ''no route''))"
  by (rule event_roundtrip [OF sample_wire_laws]) (simp add: blank_separated_def split_whitespace_def)

text \<open>
  The text of a dial failure does not survive printing and parsing unless it is
  separated by single blanks: what is read back has every run of white space, line breaks
  included, replaced by one blank.
\<close>

lemma dial_failure_text_normalised:
  assumes "wire_laws W"
  shows "parse_event W (print_event W (DialFailureE p a e)) =
    Some (Inr (DialFailureE p a (join_blank (split_whitespace e))))"
  using assms
  by (simp add: parse_event_def keyword_simps split_blank del: append.simps(2))

end
