(* ===== verification/CliMain.thy ===== *)
theory CliMain
  imports NodeProperties CliRoundtrip
begin

text \<open>
  The loop of the command line tool, \<open>run\<close> in \<open>src/cli/src/main.rs\<close>: it reads a line, parses
  it as a command, runs the command on the node, and prints the resulting event or, on the
  standard error, an error. A parser that panics ends the program (\<open>None\<close>), and so does a
  wait that never ends.
\<close>

record ('s, 'ma) cli =
  cli_node :: "('s, 'ma) ipfs"
  cli_out :: "bytes list"
  cli_err :: "(bytes \<times> node_error + bytes \<times> string) list"

text \<open>
  What the environment contributes to one round: whether the command channel accepts a
  command, the state of the network task, and what an awaited query yields.
\<close>

record ('s, 'ma) round_env =
  re_send :: try_send
  re_backend :: "'ma backend"
  re_remote :: "oneshot \<Rightarrow> 's storage \<Rightarrow> unit result \<times> 's storage"

text \<open>Running a command: its result, with the event to print.\<close>

fun cli_exec :: "'s store_api \<Rightarrow> ('s, 'ma) round_env \<Rightarrow> 'ma cli_command \<Rightarrow> ('s, 'ma) ipfs \<Rightarrow>
    ((node_error + 'ma cli_event option) \<times> ('s, 'ma) ipfs) option" where
  "cli_exec A R (AddAddressC p a) n = Some (Inr None, ipfs_add_address (re_send R) p a n)"
| "cli_exec A R (DialC p) n = Some (Inr None, ipfs_dial (re_send R) p n)"
| "cli_exec A R PrunePeersC n = Some (Inr None, ipfs_prune_peers (re_send R) 0 n)"
| "cli_exec A R (GetC c) n =
     (case ipfs_get A c n of
        (r, n) \<Rightarrow> Some (map_sum id (\<lambda>(c, x). Some (BlockE (Block c x))) r, n))"
| "cli_exec A R (InsertC b) n =
     (case ipfs_insert A (block_cid b, block_data b) n of (r, n) \<Rightarrow> Some (map_sum id (\<lambda>_. None) r, n))"
| "cli_exec A R (AliasC a c) n =
     (case ipfs_alias A a c n of (r, n) \<Rightarrow> Some (map_sum id (\<lambda>_. None) r, n))"
| "cli_exec A R FlushC n =
     (case ipfs_flush A n of (r, n) \<Rightarrow> Some (map_sum id (\<lambda>_. Some FlushedE) r, n))"
| "cli_exec A R (SyncC c) n =
     map_option (\<lambda>(r, n). (map_sum id (\<lambda>_. Some SyncedE) r, n))
       (await_sync (re_remote R) (ipfs_sync A (re_send R) c (ipfs_peers (re_backend R)) n))"

definition cli_line :: "'ma wire_api \<Rightarrow> 's store_api \<Rightarrow> ('s, 'ma) round_env \<Rightarrow> bytes \<Rightarrow> ('s, 'ma) cli \<Rightarrow> ('s, 'ma) cli option" where
  "cli_line W A R line st = do {
     cmd \<leftarrow> parse_command W line;
     case cmd of
       Inl e \<Rightarrow> Some (st\<lparr>cli_err := cli_err st @ [Inr (line, e)]\<rparr>)
     | Inr cmd \<Rightarrow> do {
         (r, n) \<leftarrow> cli_exec A R cmd (cli_node st);
         let st = st\<lparr>cli_node := n\<rparr>;
         Some (case r of
             Inl e \<Rightarrow> st\<lparr>cli_err := cli_err st @ [Inl (line, e)]\<rparr>
           | Inr None \<Rightarrow> st
           | Inr (Some ev) \<Rightarrow> st\<lparr>cli_out := cli_out st @ [print_event W ev]\<rparr>)
       }
   }"

fun cli_run :: "'ma wire_api \<Rightarrow> 's store_api \<Rightarrow> (('s, 'ma) round_env \<times> bytes) list \<Rightarrow> ('s, 'ma) cli \<Rightarrow> ('s, 'ma) cli option" where
  "cli_run W A [] st = Some st"
| "cli_run W A ((R, line) # rest) st = cli_line W A R line st \<bind> cli_run W A rest"

subsection \<open>Lines\<close>

text \<open>The line break at the end of a line does not matter.\<close>

lemma ws_len_newline:
  assumes "s \<noteq> []"
  shows "ws_len (s @ ''\<newline>'') = ws_len s"
proof -
  obtain c s1 where s: "s = c # s1" using assms by (cases s) auto
  show ?thesis
  proof (cases s1)
    case Nil
    then show ?thesis by (simp add: s Let_def)
  next
    case (Cons d s2)
    then show ?thesis by (cases s2) (auto simp: s Let_def)
  qed
qed

lemma split_ws_newline: "split_ws cur (s @ ''\<newline>'') = split_ws cur s"
proof (induction cur s rule: split_ws.induct)
  case (2 cur c s)
  have len: "ws_len (c # s @ ''\<newline>'') = ws_len (c # s)"
    using ws_len_newline [of "c # s"] by (simp del: ws_len.simps)
  show ?case
  proof (cases "ws_len (c # s) = 0")
    case True
    with 2(1) len show ?thesis by (simp del: ws_len.simps)
  next
    case False
    with ws_len_suffix [of c s] have "ws_len (c # s) - 1 \<le> length s" by simp
    with False 2(2) len show ?thesis by (simp del: ws_len.simps)
  qed
qed simp

lemma parse_command_newline [simp]: "parse_command W (s @ ''\<newline>'') = parse_command W s"
  by (simp add: parse_command_def split_whitespace_def split_ws_newline)

text \<open>
  The end of the input is read as an empty line, again and again: every such round reports
  an error and the loop goes on.
\<close>

lemma end_of_input_spins:
  "\<exists>st'. cli_run W A (replicate k (R, '''')) st = Some st' \<and>
     cli_err st' = cli_err st @ replicate k (Inr ('''', ''invalid command'')) \<and> cli_node st' = cli_node st"
proof (induction k arbitrary: st)
  case (Suc k)
  have "cli_line W A R '''' st = Some (st\<lparr>cli_err := cli_err st @ [Inr ('''', ''invalid command'')]\<rparr>)"
    by (simp add: cli_line_def parse_command_def)
  with Suc [of "st\<lparr>cli_err := cli_err st @ [Inr ('''', ''invalid command'')]\<rparr>"] show ?case by auto
qed simp

subsection \<open>A session\<close>

text \<open>The specification: commands act on a map of blocks and produce the events to print.\<close>

fun session_step :: "'ma cli_command \<Rightarrow> (cid \<Rightarrow> block_data option) \<Rightarrow>
    'ma cli_event list \<times> (cid \<Rightarrow> block_data option)" where
  "session_step (InsertC b) m = ([], m(block_cid b \<mapsto> block_data b))"
| "session_step (GetC c) m = (case m c of Some x \<Rightarrow> [BlockE (Block c x)] | None \<Rightarrow> [], m)"
| "session_step FlushC m = ([FlushedE], m)"
| "session_step _ m = ([], m)"

fun session_spec :: "'ma cli_command list \<Rightarrow> (cid \<Rightarrow> block_data option) \<Rightarrow> 'ma cli_event list" where
  "session_spec [] m = []"
| "session_spec (c # cs) m = (let (evs, m) = session_step c m in evs @ session_spec cs m)"

definition flush_law :: "'s store_api \<Rightarrow> ('s \<Rightarrow> store_spec) \<Rightarrow> bool" where
  "flush_law A view \<longleftrightarrow> (\<forall>s. view (snd (db_flush A s)) = view s)"

lemma flush_lawD: "flush_law A view \<Longrightarrow> db_flush A s = (r, s') \<Longrightarrow> view s' = view s"
  unfolding flush_law_def by (metis snd_conv)

fun local_command :: "'ma cli_command \<Rightarrow> bool" where
  "local_command (SyncC _) = False"
| "local_command _ = True"

fun printed :: "node_error + 'ma cli_event option \<Rightarrow> 'ma cli_event list" where
  "printed (Inr (Some ev)) = [ev]"
| "printed _ = []"

lemma on_storage_op:
  assumes "store_laws A view" "store_step A op (ipfs_storage n) = result f (g (ipfs_storage n))" "on_storage g n = (r, n')"
  shows "case r of Inl e \<Rightarrow> \<exists>s. e = StorageErr s
    | Inr x \<Rightarrow> node_view view n' = snd (store_spec_step op (node_view view n))"
proof -
  obtain q d where q: "g (ipfs_storage n) = (q, d)" by (cases "g (ipfs_storage n)")
  with assms(3) have n': "r = map_sum StorageErr id q" "n' = n\<lparr>ipfs_storage := d\<rparr>" by (auto simp: on_storage_def)
  show ?thesis
  proof (cases q)
    case (Inr y)
    with st.success [OF assms(1), of op "ipfs_storage n" "f y" d] assms(2) q show ?thesis by (simp add: n')
  qed (simp add: n')
qed

lemma exec_refines:
  assumes "store_laws A view" "flush_law A view" "local_command c"
  shows "\<exists>r n'. cli_exec A R c n = Some (r, n') \<and>
    ((\<exists>e. r = Inl (StorageErr e)) \<or>
     session_step c (blocks (node_view view n)) = (printed r, blocks (node_view view n')))"
proof (cases c)
  case (GetC k)
  obtain r n' where g: "ipfs_get A k n = (r, n')" by (cases "ipfs_get A k n")
  from ipfs_get_spec [OF assms(1) this] GetC g show ?thesis
    by (auto split: option.splits)
next
  case (InsertC b)
  obtain r n' where g: "ipfs_insert A (block_cid b, block_data b) n = (r, n')"
    by (cases "ipfs_insert A (block_cid b, block_data b) n")
  from on_storage_op [OF assms(1), of "StoreInsert (block_cid b) (block_data b)" n "\<lambda>_. NoResult"
      "storage_insert A (block_cid b) (block_data b)" r n'] g InsertC
  show ?thesis by (cases r) (auto simp: ipfs_insert_def)
next
  case (AliasC a k)
  obtain r n' where g: "ipfs_alias A a k n = (r, n')" by (cases "ipfs_alias A a k n")
  from on_storage_op [OF assms(1), of "StoreAlias a k" n "\<lambda>_. NoResult" "storage_alias A a k" r n'] g AliasC
  show ?thesis by (cases r) (auto simp: ipfs_alias_def)
next
  case FlushC
  obtain r s where f: "db_flush A (store (ipfs_storage n)) = (r, s)" by (cases "db_flush A (store (ipfs_storage n))")
  with flush_lawD [OF assms(2) f] FlushC show ?thesis
    by (cases r) (auto simp: ipfs_flush_def on_storage_def flush_def Let_def)
qed (use assms(3) in \<open>auto simp: ipfs_add_address_def ipfs_dial_def ipfs_prune_peers_def tell_network_def\<close>)

abbreviation storage_error :: "bytes \<times> node_error + bytes \<times> string \<Rightarrow> bool" where
  "storage_error x \<equiv> (\<exists>l e. x = Inl (l, StorageErr e))"

lemma cli_line_spec:
  assumes "wire_laws W" "store_laws A view" "flush_law A view" "command_wf W c" "local_command c"
  shows "\<exists>st'. cli_line W A R (print_command W c @ ''\<newline>'') st = Some st' \<and>
    set (cli_err st) \<subseteq> set (cli_err st') \<and>
    ((\<exists>x \<in> set (cli_err st'). storage_error x) \<or>
     (\<exists>evs. session_step c (blocks (node_view view (cli_node st))) = (evs, blocks (node_view view (cli_node st'))) \<and>
        cli_out st' = cli_out st @ map (print_event W) evs))"
proof -
  have parse: "parse_command W (print_command W c) = Some (Inr c)"
    by (rule command_parses [OF assms(1,4)])
  obtain r n' where e: "cli_exec A R c (cli_node st) = Some (r, n')"
    "(\<exists>e. r = Inl (StorageErr e)) \<or>
     session_step c (blocks (node_view view (cli_node st))) = (printed r, blocks (node_view view n'))"
    using exec_refines [OF assms(2,3,5)] by blast
  show ?thesis
    using e by (auto simp: cli_line_def parse Let_def split: sum.splits option.splits)
qed


definition sample_round :: "(list_db, nat) round_env" where
  "sample_round = \<lparr>re_send = SendOk,
     re_backend = backend (task_new (book_new 1 True True False) False True False False),
     re_remote = (\<lambda>_ d. (Inr (), d))\<rparr>"


end
