(* ===== verification/Executor.thy ===== *)
theory Executor
  imports Prelude
begin

text \<open>
  The executor, \<open>src/src/executor.rs\<close>: a choice between two runtimes that the features of the
  crate select, and the handle of a spawned task. The runtimes are parameters; what the code
  relies on is when a task goes on and when it is stopped.
\<close>

subsection \<open>The two runtimes\<close>

record features =
  feature_tokio :: bool
  feature_async_global :: bool

text \<open>
  A runtime state of type \<open>'s\<close> with tasks that yield values of type \<open>'a\<close>. Polling a task of
  tokio may yield the error of a task that was aborted or has panicked. The field
  \<open>ag_spawn_blocking\<close> is the composition of the two calls the code makes, a task that waits for
  the blocking call; \<open>tokio_blocking\<close> tells the tasks of tokio's blocking pool.
\<close>

record ('s, 'a) runtimes =
  ag_spawn :: "'s \<Rightarrow> nat \<times> 's"
  ag_detach :: "nat \<Rightarrow> 's \<Rightarrow> 's"
  ag_drop :: "nat \<Rightarrow> 's \<Rightarrow> 's"
  ag_poll :: "nat \<Rightarrow> 's \<Rightarrow> 'a poll \<times> 's"
  ag_spawn_blocking :: "'s \<Rightarrow> nat \<times> 's"
  tokio_spawn :: "'s \<Rightarrow> nat \<times> 's"
  tokio_spawn_blocking :: "'s \<Rightarrow> nat \<times> 's"
  tokio_blocking :: "nat \<Rightarrow> bool"
  tokio_abort :: "nat \<Rightarrow> 's \<Rightarrow> 's"
  tokio_drop :: "nat \<Rightarrow> 's \<Rightarrow> 's"
  tokio_poll :: "nat \<Rightarrow> 's \<Rightarrow> (string + 'a) poll \<times> 's"

text \<open>
  The documented behaviour, in terms of the tasks that are live, that is, still driven by
  their runtime: a task is live when spawned and has a number of its own; a task of
  async-global-executor is cancelled when its handle is dropped unless it was detached, a
  task of tokio when it is aborted, unless it is a blocking call, and not when its handle is
  dropped. Other tasks are not concerned.
\<close>

definition runtime_laws :: "('s, 'a) runtimes \<Rightarrow> ('s \<Rightarrow> nat set) \<Rightarrow> bool" where
  "runtime_laws R live \<longleftrightarrow>
     (\<forall>s. fst (ag_spawn R s) \<notin> live s \<and> live (snd (ag_spawn R s)) = insert (fst (ag_spawn R s)) (live s)) \<and>
     (\<forall>s. fst (ag_spawn_blocking R s) \<notin> live s \<and>
        live (snd (ag_spawn_blocking R s)) = insert (fst (ag_spawn_blocking R s)) (live s)) \<and>
     (\<forall>s. fst (tokio_spawn R s) \<notin> live s \<and> \<not> tokio_blocking R (fst (tokio_spawn R s)) \<and>
        live (snd (tokio_spawn R s)) = insert (fst (tokio_spawn R s)) (live s)) \<and>
     (\<forall>s. fst (tokio_spawn_blocking R s) \<notin> live s \<and> tokio_blocking R (fst (tokio_spawn_blocking R s)) \<and>
        live (snd (tokio_spawn_blocking R s)) = insert (fst (tokio_spawn_blocking R s)) (live s)) \<and>
     (\<forall>k s. live (ag_detach R k s) = live s) \<and>
     (\<forall>k s. live (ag_drop R k s) = live s - {k}) \<and>
     (\<forall>k s. \<not> tokio_blocking R k \<longrightarrow> live (tokio_abort R k s) = live s - {k}) \<and>
     (\<forall>k s. live (tokio_drop R k s) = live s)"

subsection \<open>Executors and handles\<close>

datatype executor = Tokio | AsyncGlobal

definition executor_new :: "features \<Rightarrow> executor option" where
  "executor_new F =
     (if feature_async_global F then Some AsyncGlobal
      else if feature_tokio F then Some Tokio
      else None)"

text \<open>The variants exist only with their feature.\<close>

fun available :: "features \<Rightarrow> executor \<Rightarrow> bool" where
  "available F Tokio = feature_tokio F"
| "available F AsyncGlobal = feature_async_global F"

datatype join_handle = TokioHandle nat | AsyncGlobalHandle "nat option"

fun executor_spawn :: "('s, 'a) runtimes \<Rightarrow> executor \<Rightarrow> 's \<Rightarrow> join_handle \<times> 's" where
  "executor_spawn R AsyncGlobal s = (let (task, s) = ag_spawn R s in (AsyncGlobalHandle (Some task), s))"
| "executor_spawn R Tokio s = (let (task, s) = tokio_spawn R s in (TokioHandle task, s))"

fun executor_spawn_blocking :: "('s, 'a) runtimes \<Rightarrow> executor \<Rightarrow> 's \<Rightarrow> join_handle \<times> 's" where
  "executor_spawn_blocking R AsyncGlobal s =
     (let (task, s) = ag_spawn_blocking R s in (AsyncGlobalHandle (Some task), s))"
| "executor_spawn_blocking R Tokio s = (let (task, s) = tokio_spawn_blocking R s in (TokioHandle task, s))"

text \<open>The end of the life of a handle: the fields are dropped.\<close>

fun join_drop :: "('s, 'a) runtimes \<Rightarrow> join_handle \<Rightarrow> 's \<Rightarrow> 's" where
  "join_drop R (TokioHandle task) s = tokio_drop R task s"
| "join_drop R (AsyncGlobalHandle (Some task)) s = ag_drop R task s"
| "join_drop R (AsyncGlobalHandle None) s = s"

text \<open>
  \<open>detach\<close> and \<open>abort\<close> consume the handle, which is dropped unless a branch moved it. The
  branch of \<open>abort\<close> is compiled only with tokio as the single runtime.
\<close>

definition join_detach :: "features \<Rightarrow> ('s, 'a) runtimes \<Rightarrow> join_handle \<Rightarrow> 's \<Rightarrow> 's" where
  "join_detach F R h s =
     (case (feature_async_global F, h) of
        (True, AsyncGlobalHandle (Some task)) \<Rightarrow> ag_detach R task s
      | _ \<Rightarrow> join_drop R h s)"

definition join_abort :: "features \<Rightarrow> ('s, 'a) runtimes \<Rightarrow> join_handle \<Rightarrow> 's \<Rightarrow> 's" where
  "join_abort F R h s =
     (case (feature_tokio F \<and> \<not> feature_async_global F, h) of
        (True, TokioHandle task) \<Rightarrow> tokio_drop R task (tokio_abort R task s)
      | _ \<Rightarrow> join_drop R h s)"

fun join_poll :: "('s, 'a) runtimes \<Rightarrow> join_handle \<Rightarrow> 's \<Rightarrow> (string + 'a) poll \<times> 's" where
  "join_poll R (TokioHandle task) s =
     (case tokio_poll R task s of
        (Ready (Inr a), s) \<Rightarrow> (Ready (Inr a), s)
      | (Ready (Inl e), s) \<Rightarrow> (Ready (Inl (''tokio::task::JoinHandle Error: '' @ e)), s)
      | (Pending, s) \<Rightarrow> (Pending, s))"
| "join_poll R (AsyncGlobalHandle (Some task)) s =
     (case ag_poll R task s of
        (Ready a, s) \<Rightarrow> (Ready (Inr a), s)
      | (Pending, s) \<Rightarrow> (Pending, s))"
| "join_poll R (AsyncGlobalHandle None) s = (Ready (Inl ''Future detached''), s)"

subsection \<open>What becomes of a task\<close>

lemma runtime_lawsD:
  assumes "runtime_laws R live"
  shows "fst (ag_spawn R s) \<notin> live s" "live (snd (ag_spawn R s)) = insert (fst (ag_spawn R s)) (live s)"
    "fst (tokio_spawn R s) \<notin> live s" "live (snd (tokio_spawn R s)) = insert (fst (tokio_spawn R s)) (live s)"
    "live (ag_detach R k s) = live s" "live (ag_drop R k s) = live s - {k}"
    "\<not> tokio_blocking R k \<Longrightarrow> live (tokio_abort R k s) = live s - {k}" "live (tokio_drop R k s) = live s"
    "\<not> tokio_blocking R (fst (tokio_spawn R s))"
    "fst (ag_spawn_blocking R s) \<notin> live s"
    "live (snd (ag_spawn_blocking R s)) = insert (fst (ag_spawn_blocking R s)) (live s)"
    "fst (tokio_spawn_blocking R s) \<notin> live s"
    "live (snd (tokio_spawn_blocking R s)) = insert (fst (tokio_spawn_blocking R s)) (live s)"
  using assms by (simp_all add: runtime_laws_def)

fun task_of :: "join_handle \<Rightarrow> nat" where
  "task_of (TokioHandle task) = task"
| "task_of (AsyncGlobalHandle task) = the task"

fun handle_on :: "executor \<Rightarrow> nat \<Rightarrow> join_handle" where
  "handle_on Tokio k = TokioHandle k"
| "handle_on AsyncGlobal k = AsyncGlobalHandle (Some k)"

lemma task_of_handle_on [simp]: "task_of (handle_on e k) = k"
  by (cases e) simp_all

lemma spawned:
  assumes "runtime_laws R live" "executor_spawn R e s = (h, s')"
  obtains k where "h = handle_on e k" "k \<notin> live s" "live s' = insert k (live s)" "e = Tokio \<longrightarrow> \<not> tokio_blocking R k"
proof (cases e)
  case Tokio
  with assms(2) runtime_lawsD(3,4,9) [OF assms(1), of s] that [of "fst (tokio_spawn R s)"] show thesis
    by (cases "tokio_spawn R s") auto
next
  case AsyncGlobal
  with assms(2) runtime_lawsD(1,2) [OF assms(1), of s] that [of "fst (ag_spawn R s)"] show thesis
    by (cases "ag_spawn R s") auto
qed

lemma handle_ends:
  assumes "runtime_laws R live" "available F e"
  shows "live (join_detach F R (handle_on e k) s) = live s"
    "e = Tokio \<longrightarrow> \<not> tokio_blocking R k \<Longrightarrow>
       live (join_abort F R (handle_on e k) s) = (if e = Tokio \<and> feature_async_global F then live s else live s - {k})"
    "live (join_drop R (handle_on e k) s) = (if e = Tokio then live s else live s - {k})"
proof -
  note laws = runtime_lawsD [OF assms(1)]
  show "live (join_detach F R (handle_on e k) s) = live s"
    using assms(2) laws(5,8) by (cases e; cases "feature_async_global F") (auto simp: join_detach_def)
  show "live (join_abort F R (handle_on e k) s) = (if e = Tokio \<and> feature_async_global F then live s else live s - {k})"
    if "e = Tokio \<longrightarrow> \<not> tokio_blocking R k"
    using assms(2) that laws(6,7,8) by (cases e; cases "feature_async_global F") (auto simp: join_abort_def)
  show "live (join_drop R (handle_on e k) s) = (if e = Tokio then live s else live s - {k})"
    using laws(6,8) by (cases e) auto
qed

text \<open>
  The life of a spawned task: a new task is live, detaching it leaves it so, and no
  other task is ever concerned. Aborting stops it, except on tokio when both runtimes are
  compiled in: there \<open>abort\<close> only drops the handle. Dropping the handle stops a task of
  async-global-executor and leaves one of tokio running.
\<close>

lemma task_lifecycle:
  assumes "runtime_laws R live" "available F e" "executor_spawn R e s = (h, s')"
  shows "task_of h \<notin> live s \<and> live s' = insert (task_of h) (live s) \<and>
    live (join_detach F R h s') = live s' \<and>
    live (join_abort F R h s') = (if e = Tokio \<and> feature_async_global F then live s' else live s) \<and>
    live (join_drop R h s') = (if e = Tokio then live s' else live s)"
proof -
  obtain k where "h = handle_on e k" "k \<notin> live s" "live s' = insert k (live s)" "e = Tokio \<longrightarrow> \<not> tokio_blocking R k"
    using spawned [OF assms(1,3)] .
  then show ?thesis by (simp add: handle_ends [OF assms(1,2)])
qed

text \<open>
  A blocking call: the handle of \<open>executor_spawn_blocking\<close> may be dropped or detached like
  another; one of tokio then goes on.
\<close>

lemma blocking_lifecycle:
  assumes "runtime_laws R live" "available F e" "executor_spawn_blocking R e s = (h, s')"
  shows "task_of h \<notin> live s \<and> live s' = insert (task_of h) (live s) \<and>
    live (join_detach F R h s') = live s' \<and> live (join_drop R h s') = (if e = Tokio then live s' else live s)"
proof -
  obtain k where "h = handle_on e k" "k \<notin> live s" "live s' = insert k (live s)"
    using assms(3) runtime_lawsD(10-13) [OF assms(1), of s]
    by (cases e; cases "ag_spawn_blocking R s"; cases "tokio_spawn_blocking R s") fastforce+
  then show ?thesis by (simp add: handle_ends [OF assms(1,2)])
qed

text \<open>
  A runtime that keeps the list of its live tasks and the first number never used; a new task
  gets an even number, a blocking call an odd one.
\<close>

definition list_runtimes :: "(nat \<times> nat list, 'a) runtimes" where
  "list_runtimes =
     (let start = (\<lambda>k (n, ts). (k, (Suc k, k # filter (\<lambda>j. j < n) ts)));
          spawn = (\<lambda>s. start (2 * fst s) s);
          spawn_blocking = (\<lambda>s. start (2 * fst s + 1) s);
          stop = (\<lambda>k (n, ts). (n, filter ((\<noteq>) k) ts))
      in \<lparr>ag_spawn = spawn, ag_detach = (\<lambda>k s. s), ag_drop = stop, ag_poll = (\<lambda>k s. (Pending, s)),
         ag_spawn_blocking = spawn, tokio_spawn = spawn, tokio_spawn_blocking = spawn_blocking, tokio_blocking = odd,
         tokio_abort = stop, tokio_drop = (\<lambda>k s. s), tokio_poll = (\<lambda>k s. (Pending, s))\<rparr>)"

definition list_live :: "nat \<times> nat list \<Rightarrow> nat set" where
  "list_live s = {k \<in> set (snd s). k < fst s}"

lemma list_runtimes_laws: "runtime_laws list_runtimes list_live"
  by (auto simp: runtime_laws_def list_runtimes_def Let_def list_live_def)

lemma task_lifecycle_sample:
  "\<exists>h s'. executor_spawn (list_runtimes :: (nat \<times> nat list, unit) runtimes) Tokio (5, [2]) = (h, s') \<and>
     list_live (join_abort \<lparr>feature_tokio = True, feature_async_global = True\<rparr> (list_runtimes :: (nat \<times> nat list, unit) runtimes) h s') = {2, 10} \<and>
     list_live (join_abort \<lparr>feature_tokio = True, feature_async_global = False\<rparr> (list_runtimes :: (nat \<times> nat list, unit) runtimes) h s') = {2}"
proof -
  let ?R = "list_runtimes :: (nat \<times> nat list, unit) runtimes"
  obtain h s' where h: "executor_spawn ?R Tokio (5, [2]) = (h, s')" "task_of h = 10"
    by (simp add: list_runtimes_def Let_def)
  have "available \<lparr>feature_tokio = True, feature_async_global = x\<rparr> Tokio" for x by simp
  note t = task_lifecycle [OF list_runtimes_laws this h(1)]
  have 2: "list_live (5, [2]) = {2}" by (auto simp: list_live_def)
  have "list_live s' = insert 10 {2}" using t [of True] unfolding h(2) 2 by blast
  then have "list_live s' = {2, 10}" by auto
  with t [of True] t [of False] 2 h(1) show ?thesis by (intro exI [of _ h] exI [of _ s'] conjI) simp_all
qed

subsection \<open>The tasks of a node\<close>

text \<open>
  A node spawns the garbage collector (\<open>StorageServiceInner::open\<close>) and the network task
  (\<open>NetworkService::new\<close>). When its last clone is dropped the storage goes first, which
  aborts the collector, and then the network, which drops the handle of its task.
\<close>

record node_tasks =
  gc_handle :: join_handle
  swarm_handle :: join_handle

definition node_spawn :: "('s, 'a) runtimes \<Rightarrow> executor \<Rightarrow> 's \<Rightarrow> node_tasks \<times> 's" where
  "node_spawn R e s =
     (let (gc, s) = executor_spawn R e s;
          (swarm, s) = executor_spawn R e s
      in (\<lparr>gc_handle = gc, swarm_handle = swarm\<rparr>, s))"

definition node_drop :: "features \<Rightarrow> ('s, 'a) runtimes \<Rightarrow> node_tasks \<Rightarrow> 's \<Rightarrow> 's" where
  "node_drop F R n s = join_drop R (swarm_handle n) (join_abort F R (gc_handle n) s)"

lemma node_drop_live:
  assumes "runtime_laws R live" "executor_new F = Some e" "node_spawn R e s = (n, s')"
  shows "live (node_drop F R n s') =
      (if feature_async_global F then live s else insert (task_of (swarm_handle n)) (live s))"
    "task_of (swarm_handle n) \<notin> live s"
proof -
  obtain gc s1 swarm where sp: "executor_spawn R e s = (gc, s1)" "executor_spawn R e s1 = (swarm, s')"
    "n = \<lparr>gc_handle = gc, swarm_handle = swarm\<rparr>"
    using assms(3) by (auto simp: node_spawn_def split: prod.splits)
  have F: "available F e" "e = Tokio \<longleftrightarrow> \<not> feature_async_global F"
    using assms(2) by (auto simp: executor_new_def split: if_splits)
  obtain k where k: "gc = handle_on e k" "k \<notin> live s" "live s1 = insert k (live s)" "e = Tokio \<longrightarrow> \<not> tokio_blocking R k"
    using spawned [OF assms(1) sp(1)] .
  obtain j where j: "swarm = handle_on e j" "j \<notin> live s1" "live s' = insert j (live s1)" "e = Tokio \<longrightarrow> \<not> tokio_blocking R j"
    using spawned [OF assms(1) sp(2)] .
  from k j F(2) show "live (node_drop F R n s') =
      (if feature_async_global F then live s else insert (task_of (swarm_handle n)) (live s))"
    by (auto simp: node_drop_def sp(3) handle_ends [OF assms(1) F(1)])
  from k j show "task_of (swarm_handle n) \<notin> live s" by (cases e) (auto simp: sp(3))
qed



end
