(* ===== verification/Variable.thy ===== *)
theory Variable
  imports Prelude
begin

text \<open>
  Shared variables, \<open>src/src/variable.rs\<close>: a writer and its readers hold references to one
  cell with a lock. References are addresses into a heap of locks, so that clones of a writer
  and the readers made from it alias. The lock is the one of the parking_lot crate, a
  parameter.
\<close>

subsection \<open>Cells, writers and readers\<close>

text \<open>
  A lock of type \<open>'l\<close> that protects a value. A guard gives access to the value while it is
  held; what its holder leaves in it is the new value.
\<close>

record ('l, 'a) rwlock_api =
  lock_new :: "'a \<Rightarrow> 'l"
  lock_read :: "'l \<Rightarrow> 'a"
  lock_write :: "('a \<Rightarrow> 'a) \<Rightarrow> 'l \<Rightarrow> 'l"

definition rwlock_laws :: "('l, 'a) rwlock_api \<Rightarrow> bool" where
  "rwlock_laws A \<longleftrightarrow>
     (\<forall>v. lock_read A (lock_new A v) = v) \<and>
     (\<forall>g l. lock_read A (lock_write A g l) = g (lock_read A l))"

type_synonym 'l cells = "'l list"

datatype writer = Writer nat
datatype reader = Reader nat

text \<open>An address outside the heap does not occur, since a reference keeps its cell alive.\<close>

definition writer_new :: "('l, 'a) rwlock_api \<Rightarrow> 'a \<Rightarrow> 'l cells \<Rightarrow> writer \<times> 'l cells" where
  "writer_new A value h = (Writer (length h), h @ [lock_new A value])"

fun writer_write :: "('l, 'a) rwlock_api \<Rightarrow> writer \<Rightarrow> ('a \<Rightarrow> 'a) \<Rightarrow> 'l cells \<Rightarrow> 'l cells" where
  "writer_write A (Writer a) g h = (if a < length h then h[a := lock_write A g (h ! a)] else h)"

fun writer_read :: "('l, 'a) rwlock_api \<Rightarrow> writer \<Rightarrow> 'l cells \<Rightarrow> 'a option" where
  "writer_read A (Writer a) h = (if a < length h then Some (lock_read A (h ! a)) else None)"

fun writer_reader :: "writer \<Rightarrow> reader" where
  "writer_reader (Writer a) = Reader a"

fun reader_project :: "('l, 'a) rwlock_api \<Rightarrow> reader \<Rightarrow> ('a \<Rightarrow> 'b) \<Rightarrow> 'l cells \<Rightarrow> 'b option" where
  "reader_project A (Reader a) f h = (if a < length h then Some (f (lock_read A (h ! a))) else None)"

fun reader_get :: "('l, 'a) rwlock_api \<Rightarrow> reader \<Rightarrow> 'l cells \<Rightarrow> 'a option" where
  "reader_get A (Reader a) h = (if a < length h then Some (lock_read A (h ! a)) else None)"

text \<open>\<open>clone\<close> of a value is the value.\<close>

fun reader_get_cloned :: "('l, 'a) rwlock_api \<Rightarrow> reader \<Rightarrow> 'l cells \<Rightarrow> 'a option" where
  "reader_get_cloned A (Reader a) h = (if a < length h then Some (lock_read A (h ! a)) else None)"

subsection \<open>A single source of truth\<close>

text \<open>
  What a program does with its variables: it makes new ones and writes through the writers it
  has. The specification is a list of plain values.
\<close>

datatype 'a var_op = NewVar 'a | WriteVar writer "'a \<Rightarrow> 'a"

fun var_step :: "('l, 'a) rwlock_api \<Rightarrow> 'a var_op \<Rightarrow> 'l cells \<Rightarrow> 'l cells" where
  "var_step A (NewVar v) h = snd (writer_new A v h)"
| "var_step A (WriteVar w g) h = writer_write A w g h"

fun spec_step :: "'a var_op \<Rightarrow> 'a list \<Rightarrow> 'a list" where
  "spec_step (NewVar v) vs = vs @ [v]"
| "spec_step (WriteVar (Writer a) g) vs = vs[a := g (vs ! a)]"

definition var_values :: "('l, 'a) rwlock_api \<Rightarrow> 'l cells \<Rightarrow> 'a list" where
  "var_values A h = map (lock_read A) h"

lemma var_values_write:
  assumes "rwlock_laws A"
  shows "var_values A (writer_write A (Writer a) g h) = (var_values A h)[a := g (var_values A h ! a)]"
  using assms by (simp add: var_values_def rwlock_laws_def map_update list_update_beyond not_less)

lemma var_step_refines:
  assumes "rwlock_laws A"
  shows "var_values A (var_step A x h) = spec_step x (var_values A h)"
proof (cases x)
  case (NewVar v)
  with assms show ?thesis by (simp add: writer_new_def var_values_def rwlock_laws_def)
next
  case (WriteVar w g)
  then show ?thesis by (cases w) (simp add: var_values_write [OF assms] del: writer_write.simps)
qed

text \<open>
  A variable is a single source of truth: after any sequence of new variables and writes,
  its writer and all its readers, however they were cloned, yield the value the writes to this
  variable left, as if every variable were a plain cell; writes to other variables do not
  change it.
\<close>

lemma variables_single_source:
  assumes "rwlock_laws A" "a < length (fold spec_step xs [])"
  shows "let h = fold (var_step A) xs []; v = fold spec_step xs [] ! a; r = writer_reader (Writer a)
    in writer_read A (Writer a) h = Some v \<and> reader_project A r f h = Some (f v) \<and>
       reader_get A r h = Some v \<and> reader_get_cloned A r h = Some v"
proof -
  have "var_values A (fold (var_step A) xs h) = fold spec_step xs (var_values A h)" for h
    by (induction xs arbitrary: h) (simp_all add: var_step_refines [OF assms(1)])
  from this [of "[]"] have eq: "fold spec_step xs [] = map (lock_read A) (fold (var_step A) xs [])"
    by (simp add: var_values_def)
  with assms(2) show ?thesis by (simp add: Let_def)
qed

definition plain_lock :: "('a, 'a) rwlock_api" where
  "plain_lock = \<lparr>lock_new = (\<lambda>v. v), lock_read = (\<lambda>l. l), lock_write = (\<lambda>g l. g l)\<rparr>"

lemma variables_single_source_sample:
  "reader_get plain_lock (writer_reader (Writer 0))
     (fold (var_step plain_lock) [NewVar (3 :: nat), NewVar 5, WriteVar (Writer 0) ((+) 4), WriteVar (Writer 1) ((+) 6)] [])
   = Some 7"
proof -
  let ?xs = "[NewVar (3 :: nat), NewVar 5, WriteVar (Writer 0) ((+) 4), WriteVar (Writer 1) ((+) 6)]"
  have "rwlock_laws (plain_lock :: (nat, nat) rwlock_api)" by (simp add: rwlock_laws_def plain_lock_def)
  moreover have s: "fold spec_step ?xs [] = [7, 11]" by simp
  ultimately show ?thesis
    using variables_single_source [of plain_lock 0 ?xs id, unfolded s Let_def] by simp
qed

end
