(* ===== verification/Metrics.thy ===== *)
theory Metrics
  imports StorageProperties
begin

text \<open>
  Metrics: which collectors a node registers (\<open>register_metrics\<close> of \<open>src/src/db.rs\<close>,
  \<open>src/src/net/peers.rs\<close> and \<open>src/src/lib.rs\<close>), how the storage counts and times its queries
  (\<open>rw\<close> and \<open>observe_future\<close> of \<open>src/src/db.rs\<close>), and the server of \<open>src/src/telemetry.rs\<close>. The
  registry and the text encoding are those of the prometheus crate: parameters.
\<close>

subsection \<open>Registration\<close>

text \<open>A collector is seen through the names it describes.\<close>

type_synonym collector = "string list"

record 'r registry_api =
  reg_register :: "collector \<Rightarrow> 'r \<Rightarrow> string + 'r"

text \<open>
  The documented behaviour: a collector is refused when one of its names is registered
  already, and otherwise its names are.
\<close>

definition registry_laws :: "'r registry_api \<Rightarrow> ('r \<Rightarrow> string set) \<Rightarrow> bool" where
  "registry_laws R names \<longleftrightarrow>
     (\<forall>c r. case reg_register R c r of
        Inl _ \<Rightarrow> set c \<inter> names r \<noteq> {}
      | Inr r' \<Rightarrow> set c \<inter> names r = {} \<and> names r' = set c \<union> names r)"

definition store_collectors :: "collector list" where
  "store_collectors = [[''block_store_queries_total''], [''block_store_query_duration''], [''block_store_stats'']]"

definition peers_collectors :: "collector list" where
  "peers_collectors = [[''peers_listeners''], [''peers_listen_addrs''], [''peers_external_addrs''],
     [''peers_discovered''], [''peers_connected''], [''peers_connections''], [''peers_listener_error''],
     [''peers_address_reach_failure''], [''peers_dial_failure'']]"

text \<open>A sequence of \<open>registry.register(..)?\<close>: it ends at the first refusal.\<close>

fun register_each :: "'r registry_api \<Rightarrow> collector list \<Rightarrow> 'r \<Rightarrow> (string + unit) \<times> 'r" where
  "register_each R [] r = (Inr (), r)"
| "register_each R (c # cs) r =
     (case reg_register R c r of Inl e \<Rightarrow> (Inl e, r) | Inr r \<Rightarrow> register_each R cs r)"

definition store_register_metrics :: "'r registry_api \<Rightarrow> 'r \<Rightarrow> (string + unit) \<times> 'r" where
  "store_register_metrics R r = register_each R store_collectors r"

definition peers_register_metrics :: "'r registry_api \<Rightarrow> 'r \<Rightarrow> (string + unit) \<times> 'r" where
  "peers_register_metrics R r = register_each R peers_collectors r"

definition ipfs_register_metrics :: "'r registry_api \<Rightarrow> 'r \<Rightarrow> (string + unit) \<times> 'r" where
  "ipfs_register_metrics R r =
     (case store_register_metrics R r of
        (Inl e, r) \<Rightarrow> (Inl e, r)
      | (Inr _, r) \<Rightarrow>
          (case peers_register_metrics R r of
             (Inl e, r) \<Rightarrow> (Inl e, r)
           | (Inr _, r) \<Rightarrow> (Inr (), r)))"

subsection \<open>The telemetry server\<close>

text \<open>
  The state of the process: the default registry and the addresses and routes of the servers
  that were spawned.
\<close>

record 'r process =
  default_registry :: 'r
  servers :: "(string \<times> string) list"

definition telemetry :: "'r registry_api \<Rightarrow> string \<Rightarrow> 'r process \<Rightarrow> (string + unit) \<times> 'r process" where
  "telemetry R addr pr =
     (case ipfs_register_metrics R (default_registry pr) of
        (Inl e, r) \<Rightarrow> (Inl e, pr\<lparr>default_registry := r\<rparr>)
      | (Inr _, r) \<Rightarrow> (Inr (), pr\<lparr>default_registry := r, servers := servers pr @ [(addr, ''/metrics'')]\<rparr>))"

record response =
  status :: nat
  content_type :: string
  body :: bytes

text \<open>\<open>gather\<close> yields the metrics of the default registry; encoding them may fail, which panics.\<close>

definition get_metric :: "('r \<Rightarrow> 'm) \<Rightarrow> ('m \<Rightarrow> string + bytes) \<Rightarrow> 'r process \<Rightarrow> response option" where
  "get_metric gather encode_text pr =
     (case encode_text (gather (default_registry pr)) of
        Inl _ \<Rightarrow> None
      | Inr buffer \<Rightarrow> Some \<lparr>status = 200, content_type = ''text/plain; version=0.0.4'', body = buffer\<rparr>)"

subsection \<open>Counting and timing queries\<close>

text \<open>
  The counters of \<open>QUERIES_TOTAL\<close> are part of the storage; of \<open>QUERY_DURATION\<close> the number of
  durations recorded under each label is kept.
\<close>

type_synonym durations = "string \<Rightarrow> nat"

definition observe_duration :: "string \<Rightarrow> durations \<Rightarrow> durations" where
  "observe_duration l m = m(l := Suc (m l))"

text \<open>
  \<open>rw\<close> with its timers: the wait for the lock is recorded, and the duration of the operation
  when its timer is dropped, which is on every way out.
\<close>

definition rw_timed :: "'s store_api \<Rightarrow> string \<Rightarrow> ('s, 'r) tx \<Rightarrow> 's storage \<Rightarrow> durations \<Rightarrow>
    (string + 'r) \<times> 's storage \<times> durations" where
  "rw_timed A op f d m =
     (let m = observe_duration ''lock_wait'' m;
          (res, d) = rw A op f d;
          m = observe_duration op m
      in (res, d, m))"

definition observe_future :: "string \<Rightarrow> ('s storage \<Rightarrow> (string + 'a) \<times> 's storage) \<Rightarrow> 's storage \<Rightarrow> durations \<Rightarrow>
    (string + 'a) \<times> 's storage \<times> durations" where
  "observe_future name query d m =
     (let d = d\<lparr>queries_total := (queries_total d)(name := Suc (queries_total d name))\<rparr>;
          (res, d) = query d
      in case res of
           Inr _ \<Rightarrow> (res, d, observe_duration name m)
         | Inl _ \<Rightarrow> (res, d, m))"

text \<open>
  The blocking task of \<open>flush\<close>, seen through its handle: the outer result is an error when the
  task does not come to its end, the inner one is that of the store.
\<close>

definition flush_task :: "'s store_api \<Rightarrow> bool \<Rightarrow> 's storage \<Rightarrow> (string + string + unit) \<times> 's storage" where
  "flush_task A ends d =
     (if ends then
        (case db_flush A (store d) of (r, s) \<Rightarrow> (Inr r, d\<lparr>store := s\<rparr>))
      else (Inl ''task failed'', d))"

definition flush_timed :: "'s store_api \<Rightarrow> bool \<Rightarrow> 's storage \<Rightarrow> durations \<Rightarrow> (string + unit) \<times> 's storage \<times> durations" where
  "flush_timed A ends d m =
     (case observe_future ''flush'' (flush_task A ends) d m of
        (Inl e, dm) \<Rightarrow> (Inl e, dm)
      | (Inr (Inl e), dm) \<Rightarrow> (Inl e, dm)
      | (Inr (Inr _), dm) \<Rightarrow> (Inr (), dm))"

subsection \<open>What is registered and counted\<close>

text \<open>The collectors before the first that has a name in the set \<open>N\<close>.\<close>

definition before_taken :: "string set \<Rightarrow> collector list \<Rightarrow> collector list" where
  "before_taken N cs = takeWhile (\<lambda>c. set c \<inter> N = {}) cs"

lemma register_each_spec:
  assumes "registry_laws R names" "distinct (concat cs)" "[] \<notin> set cs"
  shows "(fst (register_each R cs r) = Inr () \<longleftrightarrow> set (concat cs) \<inter> names r = {}) \<and>
    names (snd (register_each R cs r)) = set (concat (before_taken (names r) cs)) \<union> names r"
  using assms(2,3)
proof (induction cs arbitrary: r)
  case (Cons c cs)
  show ?case
  proof (cases "reg_register R c r")
    case (Inl e)
    with assms(1) have "set c \<inter> names r \<noteq> {}" by (auto simp: registry_laws_def split: sum.splits)
    with Inl show ?thesis by (auto simp: before_taken_def)
  next
    case (Inr r')
    with assms(1) have c: "set c \<inter> names r = {}" "names r' = set c \<union> names r"
      by (auto simp: registry_laws_def split: sum.splits)
    have "set x \<inter> names r' = {} \<longleftrightarrow> set x \<inter> names r = {}" if "x \<in> set cs" for x
      using that Cons.prems(1) c(2) by auto
    then have "before_taken (names r') cs = before_taken (names r) cs"
      unfolding before_taken_def by (intro takeWhile_cong) simp_all
    with Inr c Cons.IH [of r'] Cons.prems show ?thesis by (auto simp: before_taken_def)
  qed
qed (simp add: before_taken_def)

definition node_names :: "string set" where
  "node_names = set (concat (store_collectors @ peers_collectors))"

lemma register_each_append:
  "register_each R (cs @ ds) r =
     (case register_each R cs r of (Inl e, r) \<Rightarrow> (Inl e, r) | (Inr _, r) \<Rightarrow> register_each R ds r)"
  by (induction cs arbitrary: r) (auto split: sum.splits)

lemma ipfs_register_each: "ipfs_register_metrics R r = register_each R (store_collectors @ peers_collectors) r"
  by (auto simp: ipfs_register_metrics_def store_register_metrics_def peers_register_metrics_def
      register_each_append split: prod.splits sum.splits)

lemma node_collectors: "distinct (concat (store_collectors @ peers_collectors))" "[] \<notin> set (store_collectors @ peers_collectors)"
  by (simp_all add: store_collectors_def peers_collectors_def)

lemma ipfs_register_spec:
  assumes "registry_laws R names"
  shows "fst (ipfs_register_metrics R r) = Inr () \<longleftrightarrow> node_names \<inter> names r = {}"
    "names (snd (ipfs_register_metrics R r)) =
       set (concat (before_taken (names r) (store_collectors @ peers_collectors))) \<union> names r"
  using register_each_spec [OF assms node_collectors] by (simp_all add: ipfs_register_each node_names_def)

lemma telemetry_result:
  "fst (telemetry R addr pr) = fst (ipfs_register_metrics R (default_registry pr))"
  "default_registry (snd (telemetry R addr pr)) = snd (ipfs_register_metrics R (default_registry pr))"
  "servers (snd (telemetry R addr pr)) = servers pr @
     (if isl (fst (ipfs_register_metrics R (default_registry pr))) then [] else [(addr, ''/metrics'')])"
  by (simp_all add: telemetry_def split: prod.splits sum.splits)

lemma before_taken_all: "set (concat cs) \<inter> N = {} \<Longrightarrow> before_taken N cs = cs"
  by (auto simp: before_taken_def takeWhile_eq_all_conv)

lemma before_taken_none: "node_names \<subseteq> N \<Longrightarrow> before_taken N (store_collectors @ peers_collectors) = []"
  by (auto simp: node_names_def before_taken_def store_collectors_def)

text \<open>
  C37. Telemetry works for one node of a process: on a default registry without these names it
  registers the twelve collectors of the node and starts the server. From then on, for this
  node or for another one, it fails, starts no server and leaves the registry alone.
\<close>

theorem telemetry_once:
  assumes "registry_laws R names" "node_names \<inter> names (default_registry pr) = {}"
  shows "let (res, pr1) = telemetry R addr pr; (res', pr2) = telemetry R addr' pr1
    in res = Inr () \<and> names (default_registry pr1) = node_names \<union> names (default_registry pr) \<and>
       servers pr1 = servers pr @ [(addr, ''/metrics'')] \<and>
       isl res' \<and> names (default_registry pr2) = names (default_registry pr1) \<and> servers pr2 = servers pr1"
proof -
  note spec = ipfs_register_spec [OF assms(1)]
  define pr1 where "pr1 = snd (telemetry R addr pr)"
  have n: "names (default_registry pr1) = node_names \<union> names (default_registry pr)"
    unfolding pr1_def telemetry_result spec(2)
    using assms(2) by (simp add: before_taken_all node_names_def del: concat_append)
  have 1: "fst (telemetry R addr pr) = Inr ()" "servers pr1 = servers pr @ [(addr, ''/metrics'')]"
    using spec(1) [of "default_registry pr"] assms(2) by (simp_all add: telemetry_result pr1_def)
  have "''block_store_stats'' \<in> node_names" by (simp add: node_names_def store_collectors_def)
  then have "node_names \<inter> names (default_registry pr1) \<noteq> {}" using n by auto
  then have "fst (telemetry R addr' pr1) \<noteq> Inr ()" using spec(1) by (simp add: telemetry_result)
  then have 2: "isl (fst (telemetry R addr' pr1))" by (cases "fst (telemetry R addr' pr1)") simp_all
  moreover have "servers (snd (telemetry R addr' pr1)) = servers pr1"
    using 2 by (simp add: telemetry_result)
  moreover have "names (default_registry (snd (telemetry R addr' pr1))) = names (default_registry pr1)"
    using n by (simp add: telemetry_result spec(2) before_taken_none)
  ultimately show ?thesis
    using 1 n by (simp add: pr1_def split_beta Let_def)
qed

text \<open>A registry that is the list of its names.\<close>

definition list_registry :: "string list registry_api" where
  "list_registry = \<lparr>reg_register = (\<lambda>c r. if list_all (\<lambda>n. n \<notin> set r) c then Inr (c @ r) else Inl ''AlreadyReg'')\<rparr>"

lemma list_registry_laws: "registry_laws list_registry set"
  by (auto simp: registry_laws_def list_registry_def list_all_iff)

theorem telemetry_once_witness:
  "isl (fst (telemetry list_registry ''b'' (snd (telemetry list_registry ''a'' \<lparr>default_registry = [], servers = []\<rparr>))))"
  using telemetry_once [OF list_registry_laws, of "\<lparr>default_registry = [], servers = []\<rparr>" "''a''" "''b''"]
  by (simp add: split_beta Let_def)

text \<open>
  A registration that fails half-way is not undone: the collectors before the refused one
  stay, so that it cannot be repeated either.
\<close>

lemma failed_registration_sticks:
  assumes "registry_laws R names" "''peers_listeners'' \<in> names r" "''block_store_stats'' \<notin> names r"
    "''block_store_queries_total'' \<notin> names r" "''block_store_query_duration'' \<notin> names r"
  shows "isl (fst (ipfs_register_metrics R r)) \<and> ''block_store_stats'' \<in> names (snd (ipfs_register_metrics R r))"
proof -
  have "fst (ipfs_register_metrics R r) \<noteq> Inr ()"
    using assms(2) ipfs_register_spec(1) [OF assms(1)] by (auto simp: node_names_def peers_collectors_def)
  moreover have "''block_store_stats'' \<in> names (snd (ipfs_register_metrics R r))"
    using assms(3-) unfolding ipfs_register_spec(2) [OF assms(1)] by (simp add: before_taken_def store_collectors_def)
  ultimately show ?thesis by (cases "fst (ipfs_register_metrics R r)") simp_all
qed

subsection \<open>Timed queries\<close>

text \<open>The timers do not change what a query does.\<close>

lemma rw_timed_rw: "rw A op f d = (fst (rw_timed A op f d m), fst (snd (rw_timed A op f d m)))"
  by (simp add: rw_timed_def Let_def split_beta)

lemma flush_timed_flush: "flush A d = (fst (flush_timed A True d m), fst (snd (flush_timed A True d m)))"
  by (simp add: flush_def flush_timed_def observe_future_def flush_task_def Let_def split: sum.splits prod.splits)

text \<open>A query: an operation under the lock, or a flush whose task ends or not.\<close>

datatype 's query = Locked string "('s, unit) tx" | Flush bool

fun run_query :: "'s store_api \<Rightarrow> 's query \<Rightarrow> 's storage \<times> durations \<Rightarrow> 's storage \<times> durations" where
  "run_query A (Locked op f) (d, m) = snd (rw_timed A op f d m)"
| "run_query A (Flush ends) (d, m) = snd (flush_timed A ends d m)"

fun labelled :: "string \<Rightarrow> 's query \<Rightarrow> bool" where
  "labelled l (Locked op _) = (op = l)"
| "labelled l (Flush _) = (l = ''flush'')"

lemma queries_total_rw [simp]:
  "queries_total (snd (rw A op f d)) = (queries_total d)(op := Suc (queries_total d op))"
  by (simp add: rw_def Let_def split: sum.splits prod.splits)

lemma run_query_counts:
  assumes "l \<noteq> ''lock_wait''"
  shows "queries_total (fst (run_query A q dm)) l = queries_total (fst dm) l + (if labelled l q then 1 else 0)"
    "snd (run_query A q dm) l = snd dm l + (if labelled l q \<and> q \<noteq> Flush False then 1 else 0)"
  using assms
  by (cases q; cases dm; simp add: rw_timed_def flush_timed_def flush_task_def observe_future_def observe_duration_def Let_def
      split_beta split: sum.splits)+

text \<open>
  The query metrics: each operation is counted and its duration recorded under its name
  once, whether it succeeds or fails. A flush is counted, but its duration is recorded
  whenever its task came to its end, also when the store failed to flush: only the
  duration of a task that was cancelled or panicked is discarded.
\<close>

lemma query_metrics_exact:
  assumes "l \<noteq> ''lock_wait''"
  shows "let (d', m') = fold (run_query A) qs (d, m)
    in queries_total d' l = queries_total d l + length (filter (labelled l) qs) \<and>
       m' l = m l + length (filter (\<lambda>q. labelled l q \<and> q \<noteq> Flush False) qs)"
proof -
  have "queries_total (fst (fold (run_query A) qs dm)) l = queries_total (fst dm) l + length (filter (labelled l) qs) \<and>
    snd (fold (run_query A) qs dm) l = snd dm l + length (filter (\<lambda>q. labelled l q \<and> q \<noteq> Flush False) qs)" for dm
    by (induction qs arbitrary: dm) (auto simp: run_query_counts [OF assms])
  from this [of "(d, m)"] show ?thesis by (simp add: split_beta)
qed

text \<open>A store that cannot flush.\<close>

lemma query_metrics_exact_sample:
  "let A = list_store\<lparr>db_flush := (\<lambda>s. (Inl ''disk full'', s))\<rparr>; (res, _, m) = flush_timed A True empty_storage (\<lambda>_. 0)
   in isl res \<and> m ''flush'' = 1"
  using query_metrics_exact [of "''flush''" "list_store\<lparr>db_flush := (\<lambda>s. (Inl ''disk full'', s))\<rparr>" "[Flush True]" empty_storage "\<lambda>_. 0"]
  by (simp add: Let_def split_beta flush_timed_def observe_future_def flush_task_def)

end
