(* ===== verification/Startup.thy ===== *)
theory Startup
  imports StorageProperties Node TaskInvariant
begin

text \<open>
  Configuring and starting a node: \<open>src/src/net/config.rs\<close>, the constructors of the network
  behaviour (\<open>src/src/net/behaviour.rs\<close>) and of the network service (\<open>src/src/net/mod.rs\<close>),
  \<open>Config\<close> and \<open>Ipfs::new\<close> in \<open>src/src/lib.rs\<close>, and the start of the command line tool in
  \<open>src/cli/src/lib.rs\<close> and \<open>src/cli/src/main.rs\<close>.

  The settings of a protocol crate are opaque values of type \<open>'c\<close>, those of the resolver of
  type \<open>'d\<close>. An ed25519 key pair is its secret key, 32 bytes; the public key is a string.
\<close>

subsection \<open>Library code the start relies on\<close>

type_synonym keypair = "u8 list"

record identify_config =
  protocol_version :: string
  local_key :: string
  agent_version :: string

record ('c, 'd) net_lib =
  mdns_default :: 'c
  kad_default :: 'c
  gossipsub_default :: 'c
  broadcast_default :: 'c
  bitswap_default :: 'c
  identify_config_new :: "string \<Rightarrow> string \<Rightarrow> identify_config"
  names_next :: "string option"
  keypair_generate :: keypair
  public_key :: "keypair \<Rightarrow> string"
  to_peer_id :: "string \<Rightarrow> peer_id"
  mdns_new :: "'c \<Rightarrow> string + unit"
  gossipsub_new :: "'c \<Rightarrow> string + unit"
  into_authentic :: "keypair \<Rightarrow> string + unit"
  read_system_conf :: "string + 'd"
  dns_custom :: "'d \<Rightarrow> string + unit"
  dns_system :: "string + unit"

subsection \<open>Network configuration\<close>

datatype 'd dns_config = DnsCustom 'd | SystemWithFallback 'd

record ('c, 'd) network_config =
  cfg_enable_loopback :: bool
  cfg_port_reuse :: bool
  cfg_node_name :: string
  cfg_node_key :: keypair
  cfg_psk :: "u8 list option"
  cfg_dns :: "'d dns_config option"
  cfg_mdns :: "'c option"
  cfg_kad :: "'c option"
  cfg_ping :: "'c option"
  cfg_identify :: "identify_config option"
  cfg_gossipsub :: "'c option"
  cfg_broadcast :: "'c option"
  cfg_bitswap :: "'c option"
  cfg_keep_alive :: bool

text \<open>Panics when the generator of names is exhausted.\<close>

definition network_config_new :: "('c, 'd) net_lib \<Rightarrow> keypair \<Rightarrow> ('c, 'd) network_config option" where
  "network_config_new L node_key = do {
     node_name \<leftarrow> names_next L;
     let identify = identify_config_new L ''/ipfs-embed/1.0'' (public_key L node_key);
     Some \<lparr>cfg_enable_loopback = True, cfg_port_reuse = True, cfg_node_name = node_name,
       cfg_node_key = node_key, cfg_psk = None, cfg_dns = None, cfg_mdns = Some (mdns_default L),
       cfg_kad = Some (kad_default L), cfg_ping = None, cfg_identify = Some identify,
       cfg_gossipsub = Some (gossipsub_default L), cfg_broadcast = Some (broadcast_default L),
       cfg_bitswap = Some (bitswap_default L), cfg_keep_alive = False\<rparr>
   }"

definition network_config_default :: "('c, 'd) net_lib \<Rightarrow> ('c, 'd) network_config option" where
  "network_config_default L = network_config_new L (keypair_generate L)"

record ('c, 'd) node_config =
  cfg_storage :: storage_config
  cfg_network :: "('c, 'd) network_config"

definition node_config_new :: "('s, 't) open_api \<Rightarrow> ('c, 'd) net_lib \<Rightarrow> path \<Rightarrow> keypair \<Rightarrow> ('c, 'd) node_config option" where
  "node_config_new F L p key = do {
     let sweep_interval = from_millis 10000;
     let storage = storage_config_new (Some (path_join F p ''blocks'')) None 0 sweep_interval;
     network \<leftarrow> network_config_new L key;
     Some \<lparr>cfg_storage = storage, cfg_network = network\<rparr>
   }"

definition node_config_default :: "('s, 't) open_api \<Rightarrow> ('c, 'd) net_lib \<Rightarrow> ('c, 'd) node_config option" where
  "node_config_default F L = node_config_new F L ''.'' (keypair_generate L)"

subsection \<open>The network behaviour and service\<close>

text \<open>
  The protocols a behaviour runs, with the settings each was created with. The settings are
  taken out of the configuration.
\<close>

record 'c protocols =
  p_mdns :: "'c option"
  p_kad :: "'c option"
  p_ping :: "'c option"
  p_identify :: "identify_config option"
  p_gossipsub :: "'c option"
  p_broadcast :: "'c option"
  p_bitswap :: "'c option"

fun start_with :: "('c \<Rightarrow> string + unit) \<Rightarrow> 'c option \<Rightarrow> string + 'c option" where
  "start_with new None = Inr None"
| "start_with new (Some c) = map_sum id (\<lambda>_. Some c) (new c)"

definition behaviour_new :: "('c, 'd) net_lib \<Rightarrow> ('c, 'd) network_config \<Rightarrow>
    string + 'ma swarm_task \<times> 'c protocols \<times> ('c, 'd) network_config" where
  "behaviour_new L config =
     (let node_key = cfg_node_key config;
          node_name = cfg_node_name config;
          peer = to_peer_id L (public_key L node_key)
      in case start_with (mdns_new L) (cfg_mdns config) of
           Inl e \<Rightarrow> Inl e
         | Inr mdns \<Rightarrow>
             let kad = cfg_kad config;
                 ping = cfg_ping config;
                 identify = map_option (\<lambda>c. c\<lparr>local_key := public_key L node_key, agent_version := node_name\<rparr>)
                   (cfg_identify config)
             in case start_with (gossipsub_new L) (cfg_gossipsub config) of
                  Inl e \<Rightarrow> Inl e
                | Inr gossipsub \<Rightarrow>
                    let broadcast = cfg_broadcast config;
                        bitswap = cfg_bitswap config;
                        config = config\<lparr>cfg_mdns := None, cfg_kad := None, cfg_ping := None, cfg_identify := None,
                          cfg_gossipsub := None, cfg_broadcast := None, cfg_bitswap := None\<rparr>
                    in Inr
                      (task_new (book_new peer (cfg_port_reuse config) (cfg_enable_loopback config) (cfg_keep_alive config))
                         (kad \<noteq> None) (bitswap \<noteq> None) (gossipsub \<noteq> None) (broadcast \<noteq> None),
                       \<lparr>p_mdns = mdns, p_kad = kad, p_ping = ping, p_identify = identify, p_gossipsub = gossipsub,
                        p_broadcast = broadcast, p_bitswap = bitswap\<rparr>,
                       config))"

definition dns_transport :: "('c, 'd) net_lib \<Rightarrow> 'd dns_config option \<Rightarrow> string + unit" where
  "dns_transport L dns =
     (case dns of
        Some (DnsCustom config) \<Rightarrow> dns_custom L config
      | Some (SystemWithFallback config) \<Rightarrow>
          (case read_system_conf L of
             Inr config \<Rightarrow> dns_custom L config
           | Inl _ \<Rightarrow> dns_custom L config)
      | None \<Rightarrow> dns_system L)"

text \<open>
  What a started network consists of: the handle, the task, the protocols the task drives,
  and the settings of its transport.
\<close>

record ('ma, 'c) network =
  net_service :: "'ma service"
  net_task :: "'ma swarm_task"
  net_protocols :: "'c protocols"
  net_port_reuse :: bool
  net_psk :: "u8 list option"

text \<open>Panics when the noise key cannot be authenticated.\<close>

definition network_service_new :: "('c, 'd) net_lib \<Rightarrow> ('c, 'd) network_config \<Rightarrow> (string + ('ma, 'c) network) option" where
  "network_service_new L config =
     (let pub = public_key L (cfg_node_key config);
          peer = to_peer_id L pub;
          node_name = cfg_node_name config
      in case behaviour_new L config of
           Inl e \<Rightarrow> Some (Inl e)
         | Inr (task, ps, config) \<Rightarrow>
             (case into_authentic L (cfg_node_key config) of
                Inl e \<Rightarrow> None
              | Inr _ \<Rightarrow>
                  (case dns_transport L (cfg_dns config) of
                     Inl e \<Rightarrow> Some (Inl e)
                   | Inr _ \<Rightarrow>
                       Some (Inr \<lparr>net_service = service_new pub peer node_name, net_task = task,
                         net_protocols = ps, net_port_reuse = cfg_port_reuse config,
                         net_psk = cfg_psk config\<rparr>))))"

text \<open>The node: the storage is opened first. The directories it created are the second result.\<close>

definition ipfs_new :: "('s, 't) open_api \<Rightarrow> ('c, 'd) net_lib \<Rightarrow> ('c, 'd) node_config \<Rightarrow>
    (string + ('s, 'ma) ipfs \<times> ('ma, 'c) network) option \<times> path list" where
  "ipfs_new F L config =
     (case storage_open F (cfg_storage config) of
        (Inl e, dirs) \<Rightarrow> (Some (Inl e), dirs)
      | (Inr d, dirs) \<Rightarrow>
          (map_option (map_sum id (\<lambda>net. (\<lparr>ipfs_storage = d, ipfs_network = net_service net\<rparr>, net)))
             (network_service_new L (cfg_network config)), dirs))"

subsection \<open>The command line tool\<close>

record 'ma cli_config =
  cc_path :: "path option"
  cc_node_name :: "string option"
  cc_keypair :: "64 word"
  cc_enable_mdns :: bool
  cc_listen_on :: "'ma list"
  cc_bootstrap :: "'ma list"
  cc_external :: "'ma list"
  cc_disable_port_reuse :: bool

definition cli_config_new :: "'ma \<Rightarrow> 64 word \<Rightarrow> 'ma cli_config" where
  "cli_config_new any_30000 key =
     \<lparr>cc_path = None, cc_node_name = None, cc_keypair = key, cc_enable_mdns = False,
      cc_listen_on = [any_30000], cc_bootstrap = [], cc_external = [], cc_disable_port_reuse = False\<rparr>"

definition to_be_bytes :: "64 word \<Rightarrow> u8 list" where
  "to_be_bytes i = map (\<lambda>k. ucast (drop_bit (8 * k) i)) (rev [0..<8])"

definition keypair :: "64 word \<Rightarrow> keypair" where
  "keypair i = to_be_bytes i @ drop 8 (replicate 32 0)"

definition cli_peer_id :: "('c, 'd) net_lib \<Rightarrow> 64 word \<Rightarrow> peer_id" where
  "cli_peer_id L i = to_peer_id L (public_key L (keypair i))"

text \<open>\<open>to_string\<close> of an unsigned integer.\<close>

fun decimal :: "nat \<Rightarrow> string" where
  "decimal n = (if n < 10 then [] else decimal (n div 10)) @ [char_of (48 + n mod 10)]"

declare decimal.simps [simp del]

text \<open>The arguments a harness starts the tool with.\<close>

definition config_args :: "('ma \<Rightarrow> string) \<Rightarrow> 'ma cli_config \<Rightarrow> string list" where
  "config_args show_ma config =
     (case cc_path config of Some p \<Rightarrow> [''--path'', p] | None \<Rightarrow> []) @
     (case cc_node_name config of Some n \<Rightarrow> [''--node-name'', n] | None \<Rightarrow> []) @
     [''--keypair'', decimal (unat (cc_keypair config))] @
     concat (map (\<lambda>a. [''--listen-on'', show_ma a]) (cc_listen_on config)) @
     concat (map (\<lambda>a. [''--bootstrap'', show_ma a]) (cc_bootstrap config)) @
     concat (map (\<lambda>a. [''--external'', show_ma a]) (cc_external config)) @
     (if cc_enable_mdns config then [''--enable-mdns''] else []) @
     (if cc_disable_port_reuse config then [''--disable-port-reuse''] else [])"

definition cli_network :: "('c, 'd) net_lib \<Rightarrow> 'ma cli_config \<Rightarrow> ('c, 'd) network_config option" where
  "cli_network L config = do {
     network \<leftarrow> network_config_default L;
     let network = network\<lparr>cfg_node_key := keypair (cc_keypair config),
           cfg_mdns := (if cc_enable_mdns config then Some (mdns_default L) else None),
           cfg_kad := None, cfg_port_reuse := \<not> cc_disable_port_reuse config\<rparr>;
     let node_name = (case cc_node_name config of
           Some n \<Rightarrow> n
         | None \<Rightarrow> ''node'' @ decimal (unat (cc_keypair config)));
     identify \<leftarrow> cfg_identify network;
     Some (network\<lparr>cfg_identify := Some (identify\<lparr>agent_version := node_name\<rparr>)\<rparr>)
   }"

text \<open>
  The start of \<open>run\<close>: \<open>sends\<close> says what the command channel reports for each command in
  turn, \<open>events\<close> what awaiting the stream of swarm events yields. Bootstrap addresses make
  the tool panic.
\<close>

definition cli_start :: "'ma env \<Rightarrow> ('s, 't) open_api \<Rightarrow> ('c, 'd) net_lib \<Rightarrow> (nat \<Rightarrow> try_send) \<Rightarrow>
    (oneshot \<Rightarrow> string + sender) \<Rightarrow> 'ma cli_config \<Rightarrow>
    (string + ('s, 'ma) ipfs \<times> sender \<times> ('ma, 'c) network) option" where
  "cli_start E F L sends events config = do {
     let storage = storage_config_new (cc_path config) None 10 (from_millis 10000);
     network \<leftarrow> cli_network L config;
     started \<leftarrow> fst (ipfs_new F L \<lparr>cfg_storage = storage, cfg_network = network\<rparr>);
     case started of
       Inl e \<Rightarrow> Some (Inl e)
     | Inr (n, net) \<Rightarrow>
         let (req, n) = ipfs_swarm_events (sends 0) n
         in case (case req of ReadyErr e \<Rightarrow> Inl e | Await tx \<Rightarrow> events tx) of
              Inl e \<Rightarrow> Some (Inl e)
            | Inr evs \<Rightarrow>
                let listens = cc_listen_on config;
                    n = fold (\<lambda>(k, a) n. snd (ipfs_listen_on (sends k) a n)) (enumerate 1 listens) n;
                    n = fold (\<lambda>(k, a) n. ipfs_add_external_address E (sends k) a n)
                      (enumerate (Suc (length listens)) (cc_external config)) n
                in if cc_bootstrap config \<noteq> [] then None else Some (Inr (n, evs, net))
   }"

subsection \<open>Keys\<close>

lemma to_be_bytes_inject: "to_be_bytes i = to_be_bytes j \<longleftrightarrow> i = j"
proof
  assume eq: "to_be_bytes i = to_be_bytes j"
  have byte: "(ucast (drop_bit (8 * k) i) :: u8) = ucast (drop_bit (8 * k) j)" if "k < 8" for k
    using eq that by (auto simp: to_be_bytes_def simp flip: rev_map)
  show "i = j"
  proof (rule bit_word_eqI)
    fix n assume n: "n < LENGTH(64)"
    have at: "bit (ucast (drop_bit (8 * (n div 8)) w) :: u8) (n mod 8) = bit w n" for w :: "64 word"
      using n by (simp add: bit_ucast_iff bit_drop_bit_eq)
    have "n div 8 < 8" using n by simp
    then show "bit i n = bit j n" using at [of i] at [of j] by (simp add: byte)
  qed
qed simp

lemma keypair_inject: "keypair i = keypair j \<longleftrightarrow> i = j"
  by (auto simp: keypair_def to_be_bytes_inject)

lemma length_keypair [simp]: "length (keypair i) = 32"
  by (simp add: keypair_def to_be_bytes_def)

subsection \<open>What a configuration starts\<close>

lemma map_sum_Inr: "map_sum f g x = Inr y \<longleftrightarrow> (\<exists>z. x = Inr z \<and> g z = y)"
  by (cases x) auto

lemma map_sum_Inl: "map_sum f g x = Inl y \<longleftrightarrow> (\<exists>z. x = Inl z \<and> f z = y)"
  by (cases x) auto

lemma start_with_Inr [dest]: "start_with new c = Inr r \<Longrightarrow> r = c"
  by (cases c; cases "new (the c)") auto

lemma behaviour_new_spec:
  assumes "behaviour_new L config = Inr (t, ps, config')"
  shows "t = task_new (book_new (to_peer_id L (public_key L (cfg_node_key config)))
      (cfg_port_reuse config) (cfg_enable_loopback config) (cfg_keep_alive config))
      (p_kad ps \<noteq> None) (p_bitswap ps \<noteq> None) (p_gossipsub ps \<noteq> None) (p_broadcast ps \<noteq> None)"
    "p_mdns ps = cfg_mdns config" "p_kad ps = cfg_kad config" "p_ping ps = cfg_ping config"
    "p_gossipsub ps = cfg_gossipsub config" "p_broadcast ps = cfg_broadcast config" "p_bitswap ps = cfg_bitswap config"
    "p_identify ps = map_option
       (\<lambda>c. c\<lparr>local_key := public_key L (cfg_node_key config), agent_version := cfg_node_name config\<rparr>) (cfg_identify config)"
  using assms
  by (auto simp: behaviour_new_def Let_def split: sum.splits)

lemma cli_network_spec:
  "cli_network L config = Some network \<longleftrightarrow> (\<exists>name ic. names_next L = Some name \<and>
     network = \<lparr>cfg_enable_loopback = True, cfg_port_reuse = \<not> cc_disable_port_reuse config, cfg_node_name = name,
       cfg_node_key = keypair (cc_keypair config), cfg_psk = None, cfg_dns = None,
       cfg_mdns = (if cc_enable_mdns config then Some (mdns_default L) else None), cfg_kad = None, cfg_ping = None,
       cfg_identify = Some ic, cfg_gossipsub = Some (gossipsub_default L), cfg_broadcast = Some (broadcast_default L),
       cfg_bitswap = Some (bitswap_default L), cfg_keep_alive = False\<rparr> \<and>
     ic = (identify_config_new L ''/ipfs-embed/1.0'' (public_key L (keypair_generate L)))\<lparr>agent_version :=
       case cc_node_name config of Some n \<Rightarrow> n | None \<Rightarrow> ''node'' @ decimal (unat (cc_keypair config))\<rparr>)"
  by (auto simp: cli_network_def network_config_default_def network_config_new_def Let_def bind_eq_Some_conv)

lemma cli_start_parts:
  fixes E :: "'ma env" and F :: "('s, 't) open_api" and L :: "('c, 'd) net_lib"
  assumes "cli_start E F L sends events config = Some (Inr (n, evs, net))"
  obtains name ic n0 where
    "names_next L = Some name"
    "net_task net = task_new (book_new (cli_peer_id L (cc_keypair config)) (\<not> cc_disable_port_reuse config) True False)
      False True True True"
    "p_identify (net_protocols net) = Some ic" "agent_version ic = name"
    "local_key ic = public_key L (keypair (cc_keypair config))"
    "p_mdns (net_protocols net) = (if cc_enable_mdns config then Some (mdns_default L) else None)"
    "ipfs_network n0 = net_service net"
    "net_service net = service_new (public_key L (keypair (cc_keypair config))) (cli_peer_id L (cc_keypair config)) name"
    "cc_bootstrap config = []"
    "n = fold (\<lambda>(k, a) n. ipfs_add_external_address E (sends k) a n)
        (enumerate (Suc (length (cc_listen_on config))) (cc_external config))
        (fold (\<lambda>(k, a) n. snd (ipfs_listen_on (sends k) a n)) (enumerate 1 (cc_listen_on config))
          (snd (ipfs_swarm_events (sends 0) n0)))"
proof -
  obtain network and started :: "string + ('s, 'ma) ipfs \<times> ('ma, 'c) network" where st: "cli_network L config = Some network"
    "fst (ipfs_new F L \<lparr>cfg_storage = storage_config_new (cc_path config) None 10 (from_millis 10000),
       cfg_network = network\<rparr>) = Some started"
    using assms by (auto simp: cli_start_def bind_eq_Some_conv Let_def)
  then obtain n0 where n0: "started = Inr (n0, net)" and
    rest: "n = fold (\<lambda>(k, a) n. ipfs_add_external_address E (sends k) a n)
        (enumerate (Suc (length (cc_listen_on config))) (cc_external config))
        (fold (\<lambda>(k, a) n. snd (ipfs_listen_on (sends k) a n)) (enumerate 1 (cc_listen_on config))
          (snd (ipfs_swarm_events (sends 0) n0)))" "cc_bootstrap config = []"
    using assms
    by (auto simp: cli_start_def Let_def split_beta split: sum.splits if_splits)
  obtain d where net: "network_service_new L network = Some (Inr net)"
    "n0 = \<lparr>ipfs_storage = d, ipfs_network = net_service net\<rparr>"
    using st(2) n0 by (auto simp: ipfs_new_def map_sum_Inr split: prod.splits sum.splits)
  then obtain t ps config' where b: "behaviour_new L network = Inr (t, ps, config')"
    and s: "net_task net = t" "net_protocols net = ps"
      "net_service net = service_new (public_key L (cfg_node_key network)) (to_peer_id L (public_key L (cfg_node_key network)))
        (cfg_node_name network)"
    by (auto simp: network_service_new_def Let_def split: sum.splits)
  from st(1) obtain name ic where c: "names_next L = Some name" "cfg_node_name network = name"
    "cfg_node_key network = keypair (cc_keypair config)" "cfg_identify network = Some ic"
    "cfg_port_reuse network = (\<not> cc_disable_port_reuse config)" "cfg_enable_loopback network" "\<not> cfg_keep_alive network"
    "cfg_kad network = None" "cfg_bitswap network \<noteq> None" "cfg_gossipsub network \<noteq> None" "cfg_broadcast network \<noteq> None"
    "cfg_mdns network = (if cc_enable_mdns config then Some (mdns_default L) else None)"
    by (auto simp: cli_network_spec)
  from behaviour_new_spec [OF b] c s net rest show thesis
    by (intro that) (auto simp: cli_peer_id_def)
qed

lemma listen_sent:
  "ipfs_network (snd (ipfs_listen_on SendOk a n)) = (ipfs_network n)\<lparr>next_request := Suc (next_request (ipfs_network n)),
     cmd_queue := cmd_queue (ipfs_network n) @ [CmdListenOn a (next_request (ipfs_network n))]\<rparr>"
  by (simp add: ipfs_listen_on_def on_network_def service_listen_on_def service_cmd_def handle_send_result_def Let_def)

abbreviation listen_each :: "nat \<Rightarrow> 'ma list \<Rightarrow> ('s, 'ma) ipfs \<Rightarrow> ('s, 'ma) ipfs" where
  "listen_each m as n \<equiv> fold (\<lambda>(k, a) n. snd (ipfs_listen_on SendOk a n)) (enumerate m as) n"

lemma listen_all:
  assumes "next_request (ipfs_network n) = m"
  shows "cmd_queue (ipfs_network (listen_each m as n)) =
      cmd_queue (ipfs_network n) @ map (\<lambda>(k, a). CmdListenOn a k) (enumerate m as) \<and>
    svc_peer_id (ipfs_network (listen_each m as n)) = svc_peer_id (ipfs_network n)"
  using assms
proof (induction "as" arbitrary: n m)
  case (Cons a "as")
  from Cons.IH [of "snd (ipfs_listen_on SendOk a n)" "Suc m"] Cons.prems show ?case
    by (simp add: listen_sent)
qed simp

lemma add_all_external:
  "cmd_queue (ipfs_network (fold (\<lambda>(k, a) n. ipfs_add_external_address E SendOk a n) (enumerate m as) n)) =
      cmd_queue (ipfs_network n) @ map (\<lambda>a. CmdAddExternalAddress (normalize_addr E a (svc_peer_id (ipfs_network n)))) as"
  by (induction "as" arbitrary: n m)
    (simp_all add: ipfs_add_external_address_def tell_network_def service_add_external_address_def send_cmd_def service_cmd_def)



definition sample_lib :: "(unit, unit) net_lib" where
  "sample_lib = \<lparr>mdns_default = (), kad_default = (), gossipsub_default = (), broadcast_default = (),
     bitswap_default = (), identify_config_new = (\<lambda>v k. \<lparr>protocol_version = v, local_key = k, agent_version = ''lib''\<rparr>),
     names_next = Some ''quiet-lake-0001'', keypair_generate = replicate 32 1,
     public_key = map (\<lambda>b. char_of (unat b)), to_peer_id = (\<lambda>k. horner_sum of_char 256 k),
     mdns_new = Inr, gossipsub_new = Inr, into_authentic = (\<lambda>_. Inr ()),
     read_system_conf = Inl ''none'', dns_custom = Inr, dns_system = Inr ()\<rparr>"

definition sample_args :: "protocol list cli_config" where
  "sample_args = (cli_config_new [Ip4 0, Tcp 30000] 7)\<lparr>cc_external := [[Ip4 9, Tcp 4001]]\<rparr>"

lemma sample_start:
  "\<exists>n evs net. cli_start sample_env sample_fs sample_lib (\<lambda>_. SendOk) (\<lambda>_. Inr 3) sample_args = Some (Inr (n, evs, net))"
  by (simp add: cli_start_def cli_network_def network_config_default_def network_config_new_def sample_lib_def
      ipfs_new_def network_service_new_def behaviour_new_def dns_transport_def storage_open_def open_tracker_def
      open_store_def sample_fs_def storage_config_new_def sample_args_def cli_config_new_def ipfs_swarm_events_def
      on_network_def service_swarm_events_def service_request_def service_cmd_def handle_send_result_def Let_def)




text \<open>
  The name given to the command line tool is without effect: whatever \<open>--node-name\<close>
  says, the tool starts the same node, with the same announcement. The name is written into
  the identify settings, where the constructor of the behaviour replaces it by the generated
  name of the network configuration.
\<close>

lemma cli_node_name_ignored:
  "cli_start E F L sends events (config\<lparr>cc_node_name := name\<rparr>) = cli_start E F L sends events config"
proof (cases "names_next L")
  case None
  then show ?thesis
    by (simp add: cli_start_def cli_network_def network_config_default_def network_config_new_def)
next
  case (Some g)
  let ?b = "case name of Some n \<Rightarrow> n | None \<Rightarrow> ''node'' @ decimal (unat (cc_keypair config))"
  have same: "network_service_new L (c\<lparr>cfg_identify := Some (i\<lparr>agent_version := b\<rparr>)\<rparr>) = network_service_new L c"
    if "cfg_identify c = Some i" for c i b
    using that by (simp add: network_service_new_def behaviour_new_def Let_def cong: sum.case_cong)
  obtain c i where c: "cli_network L config = Some c" "cfg_identify c = Some i"
    "cli_network L (config\<lparr>cc_node_name := name\<rparr>) = Some (c\<lparr>cfg_identify := Some (i\<lparr>agent_version := ?b\<rparr>)\<rparr>)"
    by (cases name) (simp_all add: cli_network_def network_config_default_def network_config_new_def Let_def Some)
  have node: "ipfs_new F L \<lparr>cfg_storage = d, cfg_network = c\<lparr>cfg_identify := Some (i\<lparr>agent_version := ?b\<rparr>)\<rparr>\<rparr> =
    ipfs_new F L \<lparr>cfg_storage = d, cfg_network = c\<rparr>" for d
    by (simp add: ipfs_new_def same [OF c(2)] cong: prod.case_cong sum.case_cong)
  show ?thesis
    by (simp add: cli_start_def c(1,3) node Let_def cong: prod.case_cong sum.case_cong)
qed

end
