(* ===== verification/Harness.thy ===== *)
theory Harness
  imports Startup
begin

text \<open>
  The library of the simulation harness, \<open>src/harness/src/lib.rs\<close>: which role a simulated
  machine has, how its node is configured and addressed, the deadline of a step, and the
  tree of blocks the bitswap simulation exchanges. The simulator (netsim-embed), the random
  numbers and the block encoding are parameters.
\<close>

subsection \<open>Machines and roles\<close>

record harness_opts =
  n_nodes :: nat
  n_providers :: nat
  n_consumers :: nat
  n_spam :: nat
  delay_ms :: nat
  opt_enable_mdns :: bool
  tree_width :: nat
  tree_depth :: nat
  opt_disable_port_reuse :: bool

text \<open>A machine of the simulator: its number and its printed IP address.\<close>

record machine =
  machine_id :: nat
  machine_addr :: string

definition machine_peer_id :: "('c, 'd) net_lib \<Rightarrow> machine \<Rightarrow> peer_id" where
  "machine_peer_id L m = cli_peer_id L (of_nat (machine_id m))"

text \<open>\<open>parse\<close> is the parser of the multiaddr crate; an unparsable address panics.\<close>

definition machine_multiaddr :: "(string \<Rightarrow> 'ma option) \<Rightarrow> machine \<Rightarrow> 'ma option" where
  "machine_multiaddr parse m = parse (''/ip4/'' @ machine_addr m @ ''/tcp/30000'')"

datatype role = Provider | Consumer | Idle

text \<open>Indexing with a range panics unless it lies in the list; \<open>usize\<close> addition is checked.\<close>

definition slice :: "nat \<Rightarrow> nat \<Rightarrow> 'a list \<Rightarrow> 'a list option" where
  "slice lo hi xs = (if lo \<le> hi \<and> hi \<le> length xs then Some (take (hi - lo) (drop lo xs)) else None)"

definition usize_add :: "nat \<Rightarrow> nat \<Rightarrow> nat option" where
  "usize_add a b = (if a + b < 2 ^ 64 then Some (a + b) else None)"

definition node_entry :: "('ma, 'z) multiaddr_api_scheme \<Rightarrow> ('c, 'd) net_lib \<Rightarrow> (string \<Rightarrow> 'ma option) \<Rightarrow> machine \<Rightarrow>
    (nat \<times> peer_id \<times> 'ma) option" where
  "node_entry M L parse m = do {
     let peer = machine_peer_id L m;
     addr \<leftarrow> machine_multiaddr parse m;
     let addr = ma_push M addr (P2p (peer_into_multihash M peer));
     Some (machine_id m, peer, addr)
   }"

definition nodes :: "('ma, 'z) multiaddr_api_scheme \<Rightarrow> ('c, 'd) net_lib \<Rightarrow> (string \<Rightarrow> 'ma option) \<Rightarrow> nat \<Rightarrow> nat \<Rightarrow>
    machine list \<Rightarrow> (nat, peer_id \<times> 'ma) hashmap option" where
  "nodes M L parse lo hi machines = do {
     ms \<leftarrow> slice lo hi machines;
     entries \<leftarrow> those (map (node_entry M L parse) ms);
     Some (fold (\<lambda>(k, v). hm_insert k v) entries [])
   }"

definition role_nodes :: "('ma, 'z) multiaddr_api_scheme \<Rightarrow> ('c, 'd) net_lib \<Rightarrow> (string \<Rightarrow> 'ma option) \<Rightarrow> harness_opts \<Rightarrow>
    role \<Rightarrow> machine list \<Rightarrow> (nat, peer_id \<times> 'ma) hashmap option" where
  "role_nodes M L parse opts r machines = do {
     (lo, hi) \<leftarrow> (case r of
         Provider \<Rightarrow> Some (0, n_providers opts)
       | Consumer \<Rightarrow> map_option (\<lambda>hi. (n_providers opts, hi)) (usize_add (n_providers opts) (n_consumers opts))
       | Idle \<Rightarrow> map_option (\<lambda>lo. (lo, n_nodes opts)) (usize_add (n_providers opts) (n_consumers opts)));
     nodes M L parse lo hi machines
   }"

text \<open>The name and the configuration \<open>run_netsim\<close> gives to the node of the machine \<open>i\<close>.\<close>

definition netsim_name :: "harness_opts \<Rightarrow> nat \<Rightarrow> string option" where
  "netsim_name opts i =
     (if i < n_providers opts then Some (''provider'' @ decimal i)
      else do {
        active \<leftarrow> usize_add (n_providers opts) (n_consumers opts);
        Some (if i < active then ''consumer'' @ decimal (i - n_providers opts)
              else ''idle'' @ decimal (i - n_providers opts - n_consumers opts))
      })"

definition netsim_config :: "('s, 't) open_api \<Rightarrow> path \<Rightarrow> 'ma \<Rightarrow> harness_opts \<Rightarrow> nat \<Rightarrow> 'ma cli_config option" where
  "netsim_config F temp_dir any_30000 opts i = do {
     name \<leftarrow> netsim_name opts i;
     Some \<lparr>cc_path = Some (path_join F temp_dir (decimal i)), cc_node_name = Some name,
       cc_keypair = of_nat i, cc_enable_mdns = opt_enable_mdns opts, cc_listen_on = [any_30000],
       cc_bootstrap = [], cc_external = [], cc_disable_port_reuse = opt_disable_port_reuse opts\<rparr>
   }"

subsection \<open>Deadlines\<close>

text \<open>The time a step that began \<open>elapsed\<close> ago may still take.\<close>

definition deadline :: "duration \<Rightarrow> nat \<Rightarrow> duration option" where
  "deadline elapsed d = do {
     let d = from_secs d;
     e \<leftarrow> dur_add elapsed (from_millis 100);
     Some (if e \<ge> d then from_millis 100 else d - elapsed)
   }"

subsection \<open>Trees of blocks\<close>

record tree_node =
  node_links :: "cid list"
  node_depth :: nat
  node_payload :: "u8 list"

type_synonym tree_block = "cid \<times> tree_node"

text \<open>\<open>fill_bytes\<close> yields the bytes of the n-th payload; \<open>encode\<close> hashes a node or fails.\<close>

record block_lib =
  fill_bytes :: "nat \<Rightarrow> nat \<Rightarrow> u8 list"
  encode :: "tree_node \<Rightarrow> string + cid"

definition create_block :: "block_lib \<Rightarrow> nat \<Rightarrow> cid list \<Rightarrow> nat \<Rightarrow> string + tree_block" where
  "create_block B n links depth =
     (let payload = (if links = [] then fill_bytes B n (1024 * 16) else fill_bytes B n 512);
          node = \<lparr>node_links = links, node_depth = depth, node_payload = payload\<rparr>
      in map_sum id (\<lambda>c. (c, node)) (encode B node))"

function (sequential) build_tree_0 :: "block_lib \<Rightarrow> nat \<Rightarrow> nat \<Rightarrow> tree_block list \<Rightarrow> (string + cid) \<times> tree_block list"
  and build_links :: "block_lib \<Rightarrow> nat \<Rightarrow> nat \<Rightarrow> nat \<Rightarrow> tree_block list \<Rightarrow> (string + cid list) \<times> tree_block list" where
  "build_tree_0 B width depth bs =
     (case (case depth of 0 \<Rightarrow> (Inr [], bs) | Suc d \<Rightarrow> build_links B width d width bs) of
        (Inl e, bs) \<Rightarrow> (Inl e, bs)
      | (Inr links, bs) \<Rightarrow>
          (case create_block B (length bs) links depth of
             Inl e \<Rightarrow> (Inl e, bs)
           | Inr b \<Rightarrow> (Inr (fst b), bs @ [b])))"
| "build_links B width d 0 bs = (Inr [], bs)"
| "build_links B width d (Suc k) bs =
     (case build_tree_0 B width d bs of
        (Inl e, bs) \<Rightarrow> (Inl e, bs)
      | (Inr c, bs) \<Rightarrow>
          (case build_links B width d k bs of
             (Inl e, bs) \<Rightarrow> (Inl e, bs)
           | (Inr links, bs) \<Rightarrow> (Inr (c # links), bs)))"
  by pat_completeness auto
termination
  by (relation "measures [\<lambda>x. case x of Inl (B, w, d, bs) \<Rightarrow> 2 * d | Inr (B, w, d, k, bs) \<Rightarrow> 2 * d + 1,
     \<lambda>x. case x of Inl _ \<Rightarrow> 0 | Inr (B, w, d, k, bs) \<Rightarrow> k]") auto

declare build_tree_0.simps [simp del]

definition build_tree :: "block_lib \<Rightarrow> nat \<Rightarrow> nat \<Rightarrow> string + cid \<times> tree_block list" where
  "build_tree B width depth =
     (case build_tree_0 B width depth [] of
        (Inl e, _) \<Rightarrow> Inl e
      | (Inr c, bs) \<Rightarrow> Inr (c, bs))"

subsection \<open>What the harness builds\<close>

text \<open>
  The blocks of trees: each block links to blocks that come before it, an inner block to
  \<open>width\<close> of them, and every block is linked exactly once except the roots.
\<close>

fun links_before :: "cid set \<Rightarrow> tree_block list \<Rightarrow> bool" where
  "links_before seen [] = True"
| "links_before seen ((c, b) # bs) = (set (node_links b) \<subseteq> seen \<and> links_before (insert c seen) bs)"

definition forest :: "nat \<Rightarrow> cid list \<Rightarrow> tree_block list \<Rightarrow> bool" where
  "forest width roots bs \<longleftrightarrow>
     links_before {} bs \<and>
     list_all (\<lambda>(c, b). length (node_links b) = (if node_depth b = 0 then 0 else width)) bs \<and>
     mset (map fst bs) = mset roots + mset (concat (map (\<lambda>(c, b). node_links b) bs))"

lemma links_before_append:
  "links_before S (bs @ bs') \<longleftrightarrow> links_before S bs \<and> links_before (S \<union> set (map fst bs)) bs'"
  by (induction S bs rule: links_before.induct) (simp_all add: insert_commute)

lemma links_before_mono: "links_before S bs \<Longrightarrow> S \<subseteq> T \<Longrightarrow> links_before T bs"
proof (induction S bs arbitrary: T rule: links_before.induct)
  case (2 S c b bs)
  then show ?case using "2.IH" [of "insert c T"] by auto
qed simp

lemma forest_Nil [simp]: "forest width [] []"
  by (simp add: forest_def)

lemma forest_append:
  assumes "forest width r1 bs1" "forest width r2 bs2"
  shows "forest width (r1 @ r2) (bs1 @ bs2)"
  using assms links_before_mono [of "{}" bs2 "set (map fst bs1)"]
  by (simp add: forest_def links_before_append union_ac)

lemma forest_root:
  assumes "forest width (node_links b) bs" "length (node_links b) = (if node_depth b = 0 then 0 else width)"
  shows "forest width [c] (bs @ [(c, b)])"
proof -
  have "mset (map fst bs) = mset (node_links b) + mset (concat (map (\<lambda>(c, b). node_links b) bs))"
    using assms(1) unfolding forest_def by blast
  from arg_cong [OF this, of set_mset] have "set (node_links b) \<subseteq> fst ` set bs" by auto
  with assms show ?thesis
    by (simp add: forest_def links_before_append)
qed

lemma tree_blocks:
  "build_tree_0 B w d bs = (Inr c, bs') \<Longrightarrow>
     \<exists>new b. bs' = bs @ new @ [(c, b)] \<and> forest w [c] (new @ [(c, b)]) \<and> node_depth b = d \<and> Suc (length new) = (\<Sum>i\<le>d. w ^ i)"
  "build_links B w d k bs = (Inr cs, bs') \<Longrightarrow>
     \<exists>new. bs' = bs @ new \<and> forest w cs new \<and> length cs = k \<and> length new = k * (\<Sum>i\<le>d. w ^ i)"
proof (induction B w d bs and B w d k bs arbitrary: c bs' and cs bs' rule: build_tree_0_build_links.induct)
  case (1 B w d bs)
  from "1.prems" obtain links bs1 b where
    l: "(case d of 0 \<Rightarrow> (Inr [], bs) | Suc d \<Rightarrow> build_links B w d w bs) = (Inr links, bs1)"
    and b: "create_block B (length bs1) links d = Inr b" "c = fst b" "bs' = bs1 @ [b]"
    by (auto simp: build_tree_0.simps [of B w d bs] split: prod.splits sum.splits)
  have node: "node_links (snd b) = links" "node_depth (snd b) = d"
    using b(1) by (auto simp: create_block_def Let_def map_sum_Inr)
  obtain new where new: "bs1 = bs @ new" "forest w links new" "length links = (if d = 0 then 0 else w)"
    "Suc (length new) = (\<Sum>i\<le>d. w ^ i)"
  proof (cases d)
    case 0
    with l that [of "[]"] show thesis by simp
  next
    case (Suc d')
    with "1.IH" [OF Suc] l that show thesis
      by (fastforce simp: sum.atMost_Suc_shift sum_distrib_left simp del: sum.atMost_Suc)
  qed
  with b node forest_root [of w "snd b" new c] show ?case
    by (intro exI [of _ new] exI [of _ "snd b"]) simp
next
  case (2 B w d bs)
  then show ?case by simp
next
  case (3 B w d k bs)
  from "3.prems" obtain c bs1 links where
    t: "build_tree_0 B w d bs = (Inr c, bs1)" and l: "build_links B w d k bs1 = (Inr links, bs')" "cs = c # links"
    by (auto split: prod.splits sum.splits)
  from "3.IH"(1) [OF t] obtain new b where
    n: "bs1 = bs @ new @ [(c, b)]" "forest w [c] (new @ [(c, b)])" "Suc (length new) = (\<Sum>i\<le>d. w ^ i)" by blast
  from "3.IH"(2) [OF t [symmetric] refl] l obtain new' where
    n': "bs' = bs1 @ new'" "forest w links new'" "length links = k" "length new' = k * (\<Sum>i\<le>d. w ^ i)" by blast
  from forest_append [OF n(2) n'(2)] n n' l show ?case
    by (intro exI [of _ "new @ [(c, b)] @ new'"]) simp
qed

lemma create_block_fails: "create_block B n links d = Inl e \<Longrightarrow> \<exists>x. encode B x = Inl e"
  by (auto simp: create_block_def Let_def map_sum_Inl)

lemma tree_fails:
  "build_tree_0 B w d bs = (Inl e, bs') \<Longrightarrow> \<exists>n. encode B n = Inl e"
  "build_links B w d k bs = (Inl e, bs') \<Longrightarrow> \<exists>n. encode B n = Inl e"
proof (induction B w d bs and B w d k bs arbitrary: bs' and bs' rule: build_tree_0_build_links.induct)
  case (1 B w d bs)
  show ?case
  proof (cases "case d of 0 \<Rightarrow> (Inr [], bs) | Suc d \<Rightarrow> build_links B w d w bs")
    case (Pair r bs1)
    with "1.prems" have "r = Inl e \<or> (\<exists>links. create_block B (length bs1) links d = Inl e)"
      by (auto simp: build_tree_0.simps [of B w d bs] split: sum.splits)
    with "1.IH" Pair show ?thesis by (cases d) (auto dest: create_block_fails)
  qed
next
  case (3 B w d k bs)
  then show ?case by (auto split: prod.splits sum.splits)
qed simp

text \<open>
  The tree of blocks the harness builds is a tree of the given width and depth: it has
  1 + width + ... + width^depth blocks, the root is the last of them and has the given
  depth, each inner block links to \<open>width\<close> blocks that come before it in the list, and
  every block but the root is linked exactly once. Building it fails only with the error of
  a block that cannot be encoded.
\<close>

lemma build_tree_shape:
  "case build_tree B width depth of
     Inl e \<Rightarrow> \<exists>n. encode B n = Inl e
   | Inr (root, bs) \<Rightarrow>
       length bs = (\<Sum>i\<le>depth. width ^ i) \<and> forest width [root] bs \<and>
       (\<exists>b. last bs = (root, b) \<and> node_depth b = depth)"
proof (cases "build_tree_0 B width depth []")
  case (Pair r bs)
  show ?thesis
  proof (cases r)
    case (Inl e)
    with Pair tree_fails(1) show ?thesis by (fastforce simp: build_tree_def)
  next
    case (Inr c)
    with tree_blocks(1) [of B width depth "[]" c bs] Pair show ?thesis
      by (auto simp: build_tree_def)
  qed
qed

lemma get_inserted:
  "hm_get (fold (\<lambda>(k, v). hm_insert k v) (map (\<lambda>i. (i, f i)) ks) m) i = (if i \<in> set ks then Some (f i) else hm_get m i)"
  by (induction ks arbitrary: m) (auto simp: hm_get_insert)

lemma slice_nth:
  assumes "lo \<le> hi" "hi \<le> length xs"
  shows "slice lo hi xs = Some (map ((!) xs) [lo..<hi])"
  using assms by (auto simp: slice_def intro: nth_equalityI)

lemma those_map:
  assumes "\<forall>x \<in> set xs. f x = Some (g x)"
  shows "those (map f xs) = Some (map g xs)"
  using assms by (induction xs) auto

text \<open>Machines are numbered by their position, and their addresses are addresses.\<close>

definition machines_ok :: "(string \<Rightarrow> 'ma option) \<Rightarrow> machine list \<Rightarrow> bool" where
  "machines_ok parse ms \<longleftrightarrow> map machine_id ms = [0..<length ms] \<and>
     list_all (\<lambda>m. machine_multiaddr parse m \<noteq> None) ms"

definition node_info :: "('ma, 'z) multiaddr_api_scheme \<Rightarrow> ('c, 'd) net_lib \<Rightarrow> (string \<Rightarrow> 'ma option) \<Rightarrow> machine list \<Rightarrow> nat \<Rightarrow> peer_id \<times> 'ma" where
  "node_info M L parse ms i =
     (let peer = cli_peer_id L (of_nat i)
      in (peer, ma_push M (the (machine_multiaddr parse (ms ! i))) (P2p (peer_into_multihash M peer))))"

lemma nodes_spec:
  assumes "machines_ok parse ms" "lo \<le> hi" "hi \<le> length ms"
  shows "\<exists>H. nodes M L parse lo hi ms = Some H \<and>
    (\<forall>i. hm_get H i = (if lo \<le> i \<and> i < hi then Some (node_info M L parse ms i) else None))"
proof -
  have "node_entry M L parse (ms ! i) = Some (i, node_info M L parse ms i)" if i: "i < length ms" for i
  proof -
    have "map machine_id ms ! i = i"
      using assms(1) i by (simp add: machines_ok_def del: nth_map)
    with i have "machine_id (ms ! i) = i" by simp
    moreover obtain a where "machine_multiaddr parse (ms ! i) = Some a"
      using assms(1) i by (auto simp: machines_ok_def list_all_length)
    ultimately show ?thesis
      by (simp add: node_entry_def node_info_def machine_peer_id_def Let_def)
  qed
  then have "those (map (node_entry M L parse) (map ((!) ms) [lo..<hi])) =
      Some (map (\<lambda>i. (i, node_info M L parse ms i)) [lo..<hi])"
    using assms(3) by (simp add: o_def those_map)
  then show ?thesis
    by (simp add: nodes_def slice_nth [OF assms(2,3)] get_inserted)
qed

text \<open>
  The roles divide the simulated machines: when the providers and consumers are no more
  than the nodes, every machine has exactly one role, the one its node is named after; the
  entry of a machine holds the peer id that the node started on it has, and its address
  tagged with it; and no two nodes share a key.
\<close>

lemma roles_divide_machines:
  assumes "machines_ok parse ms" "length ms = n_nodes opts" "n_nodes opts < 2 ^ 64"
    "n_providers opts + n_consumers opts \<le> n_nodes opts"
  shows "\<exists>P C I. role_nodes M L parse opts Provider ms = Some P \<and> role_nodes M L parse opts Consumer ms = Some C \<and>
        role_nodes M L parse opts Idle ms = Some I \<and>
        (\<forall>i < n_nodes opts. \<exists>name config.
           netsim_name opts i = Some name \<and> netsim_config F dir any_30000 opts i = Some config \<and>
           (let peer = cli_peer_id L (cc_keypair config);
                entry = Some (peer, ma_push M (the (machine_multiaddr parse (ms ! i))) (P2p (peer_into_multihash M peer)))
            in hm_get P i = (if take 8 name = ''provider'' then entry else None) \<and>
               hm_get C i = (if take 8 name = ''consumer'' then entry else None) \<and>
               hm_get I i = (if take 4 name = ''idle'' then entry else None)) \<and>
           (\<forall>j < n_nodes opts. i \<noteq> j \<longrightarrow> keypair (cc_keypair config) \<noteq> keypair (of_nat j)))"
proof -
  have add: "usize_add (n_providers opts) (n_consumers opts) = Some (n_providers opts + n_consumers opts)"
    using assms(3,4) by (simp add: usize_add_def)
  obtain P where P: "role_nodes M L parse opts Provider ms = Some P"
    "\<forall>i. hm_get P i = (if i < n_providers opts then Some (node_info M L parse ms i) else None)"
    using nodes_spec [OF assms(1), of 0 "n_providers opts" M L] assms(2,4) by (auto simp: role_nodes_def)
  obtain C where C: "role_nodes M L parse opts Consumer ms = Some C"
    "\<forall>i. hm_get C i = (if n_providers opts \<le> i \<and> i < n_providers opts + n_consumers opts
       then Some (node_info M L parse ms i) else None)"
    using nodes_spec [OF assms(1), of "n_providers opts" "n_providers opts + n_consumers opts" M L] assms(2,4)
    by (auto simp: role_nodes_def add)
  obtain I where I: "role_nodes M L parse opts Idle ms = Some I"
    "\<forall>i. hm_get I i = (if n_providers opts + n_consumers opts \<le> i \<and> i < n_nodes opts
       then Some (node_info M L parse ms i) else None)"
    using nodes_spec [OF assms(1), of "n_providers opts + n_consumers opts" "n_nodes opts" M L] assms(2,4)
    by (auto simp: role_nodes_def add)
  have distinct: "keypair (of_nat i) \<noteq> keypair (of_nat j)" if "i < n_nodes opts" "j < n_nodes opts" "i \<noteq> j" for i j
    using that assms(3) by (simp add: keypair_inject word_of_nat_eq_iff take_bit_nat_eq_self)
  show ?thesis
    using P C I distinct
    by (intro exI [of _ P] exI [of _ C] exI [of _ I])
      (auto simp: netsim_config_def netsim_name_def node_info_def add Let_def)
qed

text \<open>With more providers and consumers than nodes, asking for the idle machines panics.\<close>

lemma idle_panics:
  assumes "n_nodes opts < n_providers opts + n_consumers opts"
  shows "role_nodes M L parse opts Idle ms = None"
  using assms by (auto simp: role_nodes_def usize_add_def nodes_def slice_def)

definition sample_opts :: harness_opts where
  "sample_opts = \<lparr>n_nodes = 3, n_providers = 1, n_consumers = 1, n_spam = 0, delay_ms = 0, opt_enable_mdns = False,
     tree_width = 10, tree_depth = 4, opt_disable_port_reuse = False\<rparr>"

definition sample_machines :: "machine list" where
  "sample_machines = [\<lparr>machine_id = 0, machine_addr = ''10.0.0.1''\<rparr>, \<lparr>machine_id = 1, machine_addr = ''10.0.0.2''\<rparr>,
     \<lparr>machine_id = 2, machine_addr = ''10.0.0.3''\<rparr>]"

abbreviation sample_role :: "role \<Rightarrow> (nat, peer_id \<times> protocol list) hashmap option" where
  "sample_role r \<equiv> role_nodes sample_env sample_lib (\<lambda>_. Some [Ip4 1, Tcp 30000]) sample_opts r sample_machines"

lemma roles_divide_machines_sample:
  "\<exists>P C I. sample_role Provider = Some P \<and> sample_role Consumer = Some C \<and> sample_role Idle = Some I \<and>
     hm_get P 1 = None \<and> hm_get C 1 \<noteq> None \<and> hm_get I 1 = None \<and> keypair 1 \<noteq> keypair 0"
proof -
  have "machines_ok (\<lambda>_. Some [Ip4 1, Tcp 30000]) sample_machines" "length sample_machines = n_nodes sample_opts"
    "n_nodes sample_opts < 2 ^ 64" "n_providers sample_opts + n_consumers sample_opts \<le> n_nodes sample_opts"
    by (simp_all add: machines_ok_def machine_multiaddr_def sample_machines_def sample_opts_def upt_rec)
  from roles_divide_machines [OF this, of sample_env sample_lib sample_fs "''t''" "()"]
  show ?thesis
  proof (elim exE conjE, goal_cases)
    case (1 P C I)
    have one: "1 < n_nodes sample_opts" by (simp add: sample_opts_def)
    from 1(4) [rule_format, OF one] show ?thesis
    proof (elim exE conjE, goal_cases)
      case (1 name config)
      from 1(1) obtain s where "name = ''consumer'' @ s"
        by (auto simp: netsim_name_def usize_add_def sample_opts_def)
      moreover have "cc_keypair config = 1" using 1(1,2) by (auto simp: netsim_config_def)
      moreover have "keypair (cc_keypair config) \<noteq> keypair (of_nat 0)"
        using 1(4) [rule_format, of 0] one by simp
      ultimately show ?case
        using 1(3) \<open>sample_role Provider = Some P\<close> \<open>sample_role Consumer = Some C\<close> \<open>sample_role Idle = Some I\<close>
        by (simp add: Let_def)
    qed
  qed
qed

text \<open>
  A deadline always leaves a tenth of a second, and beyond that ends the step \<open>d\<close> seconds
  after it began.
\<close>

lemma deadline_bounds:
  assumes "deadline elapsed d = Some t"
  shows "from_millis 100 \<le> t" "elapsed + t \<le> max (from_secs d) (elapsed + from_millis 100)"
  using assms by (auto simp: deadline_def dur_add_def Let_def split: if_splits)

end
