(* ===== verification/Machines.thy ===== *)
theory Machines
  imports Harness CliProtocol
begin

text \<open>
  The programs of the simulation harness act on simulated machines: they send commands to the
  node of a machine and wait for events it reports. This theory has the interface of the
  simulator (netsim-embed, a parameter) with its documented behaviour, programs over it,
  \<open>run_netsim\<close> of \<open>src/harness/src/lib.rs\<close>, which starts the nodes, and the rules by which
  one concludes from a program that passes what it sent and which events it has seen.
\<close>

subsection \<open>Programs\<close>

text \<open>
  A program that comes to its end is done, returns an error or panics; \<open>None\<close> is a program
  that never ends.
\<close>

datatype 'a verdict = Done 'a | Fails string | Panics

type_synonym ('s, 'a) prog = "'s \<Rightarrow> ('a verdict \<times> 's) option"

definition ret :: "'a \<Rightarrow> ('s, 'a) prog" where
  "ret a s = Some (Done a, s)"

definition panic :: "('s, 'a) prog" where
  "panic s = Some (Panics, s)"

definition andthen :: "('s, 'a) prog \<Rightarrow> ('a \<Rightarrow> ('s, 'b) prog) \<Rightarrow> ('s, 'b) prog" where
  "andthen p f s =
     (case p s of
        None \<Rightarrow> None
      | Some (Done a, s) \<Rightarrow> f a s
      | Some (Fails e, s) \<Rightarrow> Some (Fails e, s)
      | Some (Panics, s) \<Rightarrow> Some (Panics, s))"

definition unwrap :: "'a option \<Rightarrow> ('s, 'a) prog" where
  "unwrap x = (case x of None \<Rightarrow> panic | Some a \<Rightarrow> ret a)"

text \<open>The operator \<open>?\<close>.\<close>

definition or_return :: "string + 'a \<Rightarrow> ('s, 'a) prog" where
  "or_return x = (case x of Inl e \<Rightarrow> (\<lambda>s. Some (Fails e, s)) | Inr a \<Rightarrow> ret a)"

definition read :: "('s \<Rightarrow> 'a) \<Rightarrow> ('s, 'a) prog" where
  "read f s = Some (Done (f s), s)"

definition modify :: "('s \<Rightarrow> 's) \<Rightarrow> ('s, unit) prog" where
  "modify f s = Some (Done (), f s)"

definition call :: "('s \<Rightarrow> 'a \<times> 's) \<Rightarrow> ('s, 'a) prog" where
  "call f s = (case f s of (a, s) \<Rightarrow> Some (Done a, s))"

fun for_each :: "'b list \<Rightarrow> ('b \<Rightarrow> ('s, unit) prog) \<Rightarrow> ('s, unit) prog" where
  "for_each [] body = ret ()"
| "for_each (x # xs) body = andthen (body x) (\<lambda>_. for_each xs body)"

text \<open>A block of statements.\<close>

abbreviation steps :: "('s, unit) prog list \<Rightarrow> ('s, unit) prog" where
  "steps ps \<equiv> for_each ps (\<lambda>p. p)"

subsection \<open>The simulator\<close>

text \<open>
  Waiting for an event ends with a result, with the time limit, or with the panic of the
  function that inspects the events. Waiting yields no event (\<open>None\<close>) when the node's output
  has ended. \<open>select\<close> leaves the events it passes over to later calls, \<open>select_draining\<close> drops
  them. In the library both are generic in the result of the inspecting function; here they
  yield the event for which it has a result, from which \<open>awaiting\<close> computes that result.
\<close>

datatype 'a awaited = Finished 'a | TimedOut | Unwound

record ('s, 'ma) sim_api =
  sim_machines :: "'s \<Rightarrow> machine list"
  sim_now :: "'s \<Rightarrow> duration"
  sim_send :: "nat \<Rightarrow> 'ma cli_command \<Rightarrow> 's \<Rightarrow> 's"
  sim_recv :: "nat \<Rightarrow> duration option \<Rightarrow> 's \<Rightarrow> 'ma cli_event option awaited \<times> 's"
  sim_select :: "nat \<Rightarrow> duration \<Rightarrow> ('ma cli_event \<Rightarrow> bool option) \<Rightarrow> 's \<Rightarrow> 'ma cli_event option awaited \<times> 's"
  sim_select_draining :: "nat \<Rightarrow> duration \<Rightarrow> ('ma cli_event \<Rightarrow> bool option) \<Rightarrow> 's \<Rightarrow> 'ma cli_event option awaited \<times> 's"
  sim_drain :: "nat \<Rightarrow> 's \<Rightarrow> 's"
  sim_drain_matching :: "nat \<Rightarrow> ('ma cli_event \<Rightarrow> bool) \<Rightarrow> 's \<Rightarrow> 's"
  sim_down :: "nat \<Rightarrow> 's \<Rightarrow> 's"
  sim_random_range :: "'s \<Rightarrow> nat \<times> 's"
  sim_network_range :: "nat \<Rightarrow> 's \<Rightarrow> nat"
  sim_spawn_network :: "nat \<Rightarrow> 's \<Rightarrow> nat \<times> 's"
  sim_add_nat_route :: "(u16 \<times> u32 \<times> u16) list option \<Rightarrow> nat \<Rightarrow> nat \<Rightarrow> 's \<Rightarrow> 's"
  sim_spawn_machine :: "string list \<Rightarrow> duration option \<Rightarrow> 's \<Rightarrow> nat \<times> 's"
  sim_plug :: "nat \<Rightarrow> nat \<Rightarrow> 's \<Rightarrow> 's"

definition send :: "('s, 'ma) sim_api \<Rightarrow> nat \<Rightarrow> 'ma cli_command \<Rightarrow> ('s, unit) prog" where
  "send S m c = modify (sim_send S m c)"

definition awaiting :: "(('ma cli_event \<Rightarrow> bool option) \<Rightarrow> 's \<Rightarrow> 'ma cli_event option awaited \<times> 's) \<Rightarrow>
    ('ma cli_event \<Rightarrow> 'b option option) \<Rightarrow> ('s, 'b option) prog" where
  "awaiting sel f s =
     (case sel (\<lambda>e. map_option (\<lambda>r. r \<noteq> None) (f e)) s of
        (Finished None, s) \<Rightarrow> Some (Done None, s)
      | (Finished (Some e), s) \<Rightarrow> unwrap (f e) s
      | (_, s) \<Rightarrow> panic s)"

definition select :: "('s, 'ma) sim_api \<Rightarrow> nat \<Rightarrow> ('ma cli_event \<Rightarrow> 'b option option) \<Rightarrow> duration \<Rightarrow> ('s, 'b option) prog" where
  "select S m f t = awaiting (sim_select S m t) f"

definition select_draining :: "('s, 'ma) sim_api \<Rightarrow> nat \<Rightarrow> ('ma cli_event \<Rightarrow> 'b option option) \<Rightarrow> duration \<Rightarrow>
    ('s, 'b option) prog" where
  "select_draining S m f t = awaiting (sim_select_draining S m t) f"

text \<open>\<open>.timeout(d).await.unwrap()\<close> and \<open>.deadline(started, d).await.unwrap()\<close>\<close>

definition timeout :: "nat \<Rightarrow> (duration \<Rightarrow> ('s, 'b) prog) \<Rightarrow> ('s, 'b) prog" where
  "timeout d p = p (from_secs d)"

definition by_deadline :: "('s, 'ma) sim_api \<Rightarrow> duration \<Rightarrow> nat \<Rightarrow> (duration \<Rightarrow> ('s, 'b) prog) \<Rightarrow> ('s, 'b) prog" where
  "by_deadline S started d p =
     andthen (read (\<lambda>s. deadline (sim_now S s - started) d)) (\<lambda>dur.
     andthen (unwrap dur) p)"

text \<open>A function that only asks whether an event matches: \<open>matches!(..).then(|| ())\<close>.\<close>

definition matches :: "('ma cli_event \<Rightarrow> bool) \<Rightarrow> 'ma cli_event \<Rightarrow> unit option option" where
  "matches P e = Some (if P e then Some () else None)"

definition ignore :: "('s, 'a) prog \<Rightarrow> ('s, unit) prog" where
  "ignore p = andthen p (\<lambda>_. ret ())"

text \<open>\<open>MultiaddrExt::is_loopback\<close> of the harness.\<close>

definition sim_is_loopback :: "('ma, 'z) multiaddr_api_scheme \<Rightarrow> 'ma \<Rightarrow> bool" where
  "sim_is_loopback M a =
     (case ma_iter M a of Ip4 addr # _ \<Rightarrow> (if \<not> ipv4_is_loopback addr then False else True) | _ \<Rightarrow> True)"

subsection \<open>Starting the nodes\<close>

text \<open>
  The results of entering the namespace and of making the temporary directory are given. A
  network is created, then each node is started on a machine of its own with the configured
  delay and plugged into the network.
\<close>

definition start_node :: "('s, 'ma) sim_api \<Rightarrow> ('ma \<Rightarrow> string) \<Rightarrow> ('x, 'y) open_api \<Rightarrow> 'ma \<Rightarrow> harness_opts \<Rightarrow> path \<Rightarrow> nat \<Rightarrow> nat \<Rightarrow>
    ('s, unit) prog" where
  "start_node S show_ma F any_30000 opts temp_dir net i =
     andthen (unwrap (netsim_config F temp_dir any_30000 opts i)) (\<lambda>cfg.
     andthen (call (sim_spawn_machine S (config_args show_ma cfg) (Some (from_millis (delay_ms opts))))) (\<lambda>machine.
     modify (sim_plug S machine net)))"

definition run_netsim :: "('s, 'ma) sim_api \<Rightarrow> ('ma \<Rightarrow> string) \<Rightarrow> ('x, 'y) open_api \<Rightarrow> 'ma \<Rightarrow> string + unit \<Rightarrow> string + path \<Rightarrow>
    harness_opts \<Rightarrow> (nat \<Rightarrow> path \<Rightarrow> ('s, unit) prog) \<Rightarrow> ('s, unit) prog" where
  "run_netsim S show_ma F any_30000 unshare_user tempdir opts f =
     andthen (or_return unshare_user) (\<lambda>_.
     andthen (or_return tempdir) (\<lambda>temp_dir.
     andthen (call (sim_random_range S)) (\<lambda>range.
     andthen (call (sim_spawn_network S range)) (\<lambda>net.
     andthen (for_each [0..<n_nodes opts] (start_node S show_ma F any_30000 opts temp_dir net)) (\<lambda>_.
     f net temp_dir)))))"

subsection \<open>The documented behaviour of the simulator\<close>

text \<open>
  What a state of the simulation amounts to: the commands each machine was sent, the events
  it has reported to the program, and the arguments the machines were started with.
\<close>

record ('s, 'ma) sim_view =
  sim_sent :: "'s \<Rightarrow> nat \<Rightarrow> 'ma cli_command list"
  sim_seen :: "'s \<Rightarrow> nat \<Rightarrow> 'ma cli_event set"
  sim_started :: "'s \<Rightarrow> string list list"

text \<open>Time passes and events arrive; nothing else changes.\<close>

definition elapses :: "('s, 'ma) sim_api \<Rightarrow> ('s, 'ma) sim_view \<Rightarrow> 's \<Rightarrow> 's \<Rightarrow> bool" where
  "elapses S V s s' \<longleftrightarrow> sim_machines S s' = sim_machines S s \<and> sim_sent V s' = sim_sent V s \<and> sim_seen V s \<le> sim_seen V s' \<and>
     sim_started V s' = sim_started V s"

definition select_laws :: "('s, 'ma) sim_api \<Rightarrow> ('s, 'ma) sim_view \<Rightarrow> nat \<Rightarrow>
    (('ma cli_event \<Rightarrow> bool option) \<Rightarrow> 's \<Rightarrow> 'ma cli_event option awaited \<times> 's) \<Rightarrow> bool" where
  "select_laws S V m sel \<longleftrightarrow>
     (\<forall>P s. case sel P s of (r, s') \<Rightarrow> elapses S V s s' \<and> (\<forall>e. r = Finished (Some e) \<longrightarrow> e \<in> sim_seen V s' m \<and> P e = Some True))"

definition sim_laws :: "('s, 'ma) sim_api \<Rightarrow> ('s, 'ma) sim_view \<Rightarrow> bool" where
  "sim_laws S V \<longleftrightarrow>
     (\<forall>m c s. sim_machines S (sim_send S m c s) = sim_machines S s \<and>
        sim_sent V (sim_send S m c s) = (sim_sent V s)(m := sim_sent V s m @ [c]) \<and> sim_seen V s \<le> sim_seen V (sim_send S m c s)) \<and>
     (\<forall>m t s. case sim_recv S m t s of (r, s') \<Rightarrow> elapses S V s s' \<and> (\<forall>e. r = Finished (Some e) \<longrightarrow> e \<in> sim_seen V s' m)) \<and>
     (\<forall>m t. select_laws S V m (sim_select S m t)) \<and>
     (\<forall>m t. select_laws S V m (sim_select_draining S m t)) \<and>
     (\<forall>m s. elapses S V s (sim_drain S m s)) \<and>
     (\<forall>m P s. elapses S V s (sim_drain_matching S m P s)) \<and>
     (\<forall>m s. elapses S V s (sim_down S m s)) \<and>
     (\<forall>s. elapses S V s (snd (sim_random_range S s))) \<and>
     (\<forall>r s. elapses S V s (snd (sim_spawn_network S r s))) \<and>
     (\<forall>c a b s. elapses S V s (sim_add_nat_route S c a b s)) \<and>
     (\<forall>args d s.
        map machine_id (sim_machines S (snd (sim_spawn_machine S args d s))) =
          map machine_id (sim_machines S s) @ [fst (sim_spawn_machine S args d s)] \<and>
        fst (sim_spawn_machine S args d s) = length (sim_machines S s) \<and>
        sim_started V (snd (sim_spawn_machine S args d s)) = sim_started V s @ [args]) \<and>
     (\<forall>m n s. map machine_id (sim_machines S (sim_plug S m n s)) = map machine_id (sim_machines S s) \<and>
        sim_started V (sim_plug S m n s) = sim_started V s)"

subsection \<open>Programs that pass\<close>

abbreviation passes :: "('s, 'a) prog \<Rightarrow> 's \<Rightarrow> 'a \<Rightarrow> 's \<Rightarrow> bool" where
  "passes p s a s' \<equiv> p s = Some (Done a, s')"

named_theorems passing \<open>when a program passes\<close>

lemma passes_ret [passing]: "passes (ret a) s b s' \<longleftrightarrow> b = a \<and> s' = s"
  by (auto simp: ret_def)

lemma passes_panic [passing]: "\<not> passes panic s b s'"
  by (simp add: panic_def)

lemma passes_andthen [passing]: "passes (andthen p f) s b s' \<longleftrightarrow> (\<exists>a s1. passes p s a s1 \<and> passes (f a) s1 b s')"
  by (auto simp: andthen_def split: option.splits verdict.splits)

lemma passes_unwrap [passing]: "passes (unwrap x) s a s' \<longleftrightarrow> x = Some a \<and> s' = s"
  by (auto simp: unwrap_def ret_def panic_def split: option.splits)

lemma passes_or_return [passing]: "passes (or_return x) s a s' \<longleftrightarrow> x = Inr a \<and> s' = s"
  by (auto simp: or_return_def ret_def split: sum.splits)

lemma passes_read [passing]: "passes (read f) s a s' \<longleftrightarrow> a = f s \<and> s' = s"
  by (auto simp: read_def)

lemma passes_modify [passing]: "passes (modify f) s a s' \<longleftrightarrow> s' = f s"
  by (auto simp: modify_def)

lemma passes_call [passing]: "passes (call f) s a s' \<longleftrightarrow> f s = (a, s')"
  by (auto simp: call_def split: prod.splits)

text \<open>A loop keeps what every pass keeps, and the n-th pass may rely on the number of passes before.\<close>

lemma for_each_induct:
  assumes "passes (for_each xs body) s u s'" "I 0 s"
    and "\<And>i s u s'. \<lbrakk>i < length xs; I i s; passes (body (xs ! i)) s u s'\<rbrakk> \<Longrightarrow> I (Suc i) s'"
  shows "I (length xs) s'"
  using assms
proof (induction xs arbitrary: s I)
  case (Cons x xs)
  from Cons.prems(1) obtain s1 where s1: "passes (body x) s () s1" "passes (for_each xs body) s1 u s'"
    by (auto simp: passing)
  have "I 1 s1" using Cons.prems(3) [of 0 s "()" s1] Cons.prems(2) s1(1) by simp
  with Cons.IH [OF s1(2), of "\<lambda>i. I (Suc i)"] Cons.prems(3) [of "Suc i" for i] show ?case by auto
qed (simp add: passing)

subsection \<open>What is sent and seen\<close>

text \<open>
  The effect of a program on a simulation with the machines \<open>ms\<close>, if it passes: it sends each
  machine the commands \<open>cs\<close> (any commands, for \<open>None\<close>), and from then on the events seen
  satisfy \<open>G\<close>. Since events once seen stay so, \<open>G\<close> is asked of all larger sets.
\<close>

definition effect :: "('s, 'ma) sim_api \<Rightarrow> ('s, 'ma) sim_view \<Rightarrow> machine list \<Rightarrow> ('s, 'a) prog \<Rightarrow>
    (nat \<Rightarrow> 'ma cli_command list) option \<Rightarrow> ('a \<Rightarrow> (nat \<Rightarrow> 'ma cli_event set) \<Rightarrow> bool) \<Rightarrow> bool" where
  "effect S V ms p cs G \<longleftrightarrow>
     (\<forall>s a s'. sim_machines S s = ms \<longrightarrow> passes p s a s' \<longrightarrow>
        sim_machines S s' = ms \<and> sim_seen V s \<le> sim_seen V s' \<and>
        (\<forall>c. cs = Some c \<longrightarrow> (\<forall>m. sim_sent V s' m = sim_sent V s m @ c m)) \<and> (\<forall>Y \<ge> sim_seen V s'. G a Y))"

abbreviation silent :: "(nat \<Rightarrow> 'c list) option" where
  "silent \<equiv> Some (\<lambda>_. [])"

fun both :: "(nat \<Rightarrow> 'c list) option \<Rightarrow> (nat \<Rightarrow> 'c list) option \<Rightarrow> (nat \<Rightarrow> 'c list) option" where
  "both (Some c) (Some d) = Some (\<lambda>m. c m @ d m)"
| "both _ _ = None"

lemma both_simps [simp]: "both silent c = c" "both c silent = c" "both None c = None" "both c None = None"
  by (cases c; simp)+

lemma effectD:
  assumes "effect S V ms p cs G" "sim_machines S s = ms" "passes p s a s'"
  shows "sim_machines S s' = ms" "sim_seen V s \<le> sim_seen V s'" "cs = Some c \<Longrightarrow> sim_sent V s' m = sim_sent V s m @ c m"
    "sim_seen V s' \<le> Y \<Longrightarrow> G a Y"
  using assms unfolding effect_def by blast+

lemma effectI:
  assumes "\<And>s a s'. sim_machines S s = ms \<Longrightarrow> passes p s a s' \<Longrightarrow> sim_machines S s' = ms \<and> sim_seen V s \<le> sim_seen V s'"
    "\<And>s a s' c m. sim_machines S s = ms \<Longrightarrow> passes p s a s' \<Longrightarrow> cs = Some c \<Longrightarrow> sim_sent V s' m = sim_sent V s m @ c m"
    "\<And>s a s' Y. sim_machines S s = ms \<Longrightarrow> passes p s a s' \<Longrightarrow> sim_seen V s' \<le> Y \<Longrightarrow> G a Y"
  shows "effect S V ms p cs G"
  using assms unfolding effect_def by blast

lemma effect_weaken:
  assumes "effect S V ms p cs G" "\<And>a Y. G a Y \<Longrightarrow> H a Y" "ds = cs \<or> ds = None"
  shows "effect S V ms p ds H"
  using assms by (intro effectI) (auto dest: effectD)

lemma effect_ret: "effect S V ms (ret a) silent (\<lambda>b _. b = a)"
  by (rule effectI) (auto simp: passing)

lemma effect_panic: "effect S V ms panic cs G"
  by (rule effectI) (simp_all add: passing)

lemma effect_unwrap: "effect S V ms (unwrap x) silent (\<lambda>a _. x = Some a)"
  by (rule effectI) (auto simp: passing)

lemma effect_or_return: "effect S V ms (or_return x) silent (\<lambda>a _. x = Inr a)"
  by (rule effectI) (auto simp: passing)

lemma effect_machines: "effect S V ms (read (sim_machines S)) silent (\<lambda>a _. a = ms)"
  by (rule effectI) (auto simp: passing)

lemma effect_read: "effect S V ms (read f) silent (\<lambda>_ _. True)"
  by (rule effectI) (auto simp: passing)

lemma effect_andthen:
  assumes p: "effect S V ms p cs G" and f: "\<And>a Y. G a Y \<Longrightarrow> effect S V ms (f a) ds (H a)"
  shows "effect S V ms (andthen p f) (both cs ds) (\<lambda>b Y. \<exists>a. G a Y \<and> H a b Y)"
proof (rule effectI)
  fix s b s' assume s: "sim_machines S s = ms" and "passes (andthen p f) s b s'"
  then obtain a s1 where run: "passes p s a s1" "passes (f a) s1 b s'" by (auto simp: passing)
  note p' = effectD [OF p s run(1)]
  note f' = effectD [OF f [OF p'(4) [OF order_refl]] p'(1) run(2)]
  show "sim_machines S s' = ms \<and> sim_seen V s \<le> sim_seen V s'" using p'(2) f'(1,2) by (auto intro: order_trans)
  show "sim_sent V s' m = sim_sent V s m @ c m" if "both cs ds = Some c" for c m
    using that p'(3) f'(3) by (cases cs; cases ds) auto
  show "\<exists>a. G a Y \<and> H a b Y" if "sim_seen V s' \<le> Y" for Y
    using that p'(4) f'(2,4) by (intro exI [of _ a]) (auto intro: order_trans)
qed

text \<open>The two forms of a loop: with the commands of each pass, and with any commands.\<close>

lemma effect_for_each:
  assumes "\<And>x. x \<in> set xs \<Longrightarrow> effect S V ms (body x) (Some (c x)) (\<lambda>_. G x)"
  shows "effect S V ms (for_each xs body) (Some (\<lambda>m. concat (map (\<lambda>x. c x m) xs))) (\<lambda>_ Y. \<forall>x \<in> set xs. G x Y)"
  using assms
proof (induction xs)
  case (Cons x xs)
  have "effect S V ms (for_each xs body) (Some (\<lambda>m. concat (map (\<lambda>x. c x m) xs))) (\<lambda>_ Y. \<forall>x \<in> set xs. G x Y)"
    using Cons by simp
  from effect_andthen [OF Cons.prems [of x] this] show ?case
    by (auto elim: effect_weaken)
qed (auto intro: effect_weaken [OF effect_ret])

lemma effect_for_each_any:
  assumes "\<And>x. x \<in> set xs \<Longrightarrow> effect S V ms (body x) None (\<lambda>_. G x)"
  shows "effect S V ms (for_each xs body) None (\<lambda>_ Y. \<forall>x \<in> set xs. G x Y)"
  using assms
proof (induction xs)
  case (Cons x xs)
  then have "effect S V ms (for_each xs body) None (\<lambda>_ Y. \<forall>x \<in> set xs. G x Y)" by simp
  from effect_andthen [OF Cons.prems [of x] this] show ?case
    by (auto elim: effect_weaken)
qed (auto intro: effect_weaken [OF effect_ret])

lemma effect_ignore: "effect S V ms p cs G \<Longrightarrow> effect S V ms (ignore p) cs (\<lambda>_ Y. \<exists>a. G a Y)"
  unfolding ignore_def using effect_andthen [of S V ms p cs G "\<lambda>_. ret ()" silent "\<lambda>_ _ _. True"]
  by (auto intro: effect_weaken [OF effect_ret] elim: effect_weaken)

text \<open>The nodes go on: waiting for an event never finds the end of the output of a node.\<close>

definition streams_open :: "('s, 'ma) sim_api \<Rightarrow> bool" where
  "streams_open S \<longleftrightarrow> (\<forall>m t P s. fst (sim_select S m t P s) \<noteq> Finished None \<and> fst (sim_select_draining S m t P s) \<noteq> Finished None)"

definition found :: "nat \<Rightarrow> ('ma cli_event \<Rightarrow> 'b option option) \<Rightarrow> 'b option \<Rightarrow> (nat \<Rightarrow> 'ma cli_event set) \<Rightarrow> bool" where
  "found m f r Y \<longleftrightarrow> (\<forall>x. r = Some x \<longrightarrow> (\<exists>e \<in> Y m. f e = Some (Some x)))"

lemma effect_send:
  assumes "sim_laws S V"
  shows "effect S V ms (send S m c) (Some (\<lambda>k. if k = m then [c] else [])) (\<lambda>_ _. True)"
  using assms by (intro effectI) (auto simp: send_def passing sim_laws_def)

lemma effect_send_any: "sim_laws S V \<Longrightarrow> effect S V ms (send S m c) None (\<lambda>_ _. True)"
  by (rule effect_weaken [OF effect_send]) simp_all

lemma effect_elapses:
  assumes "\<And>s. elapses S V s (f s)"
  shows "effect S V ms (modify f) silent (\<lambda>_ _. True)"
  using assms by (intro effectI) (auto simp: passing elapses_def)

lemma effect_quiet:
  assumes "sim_laws S V"
  shows "effect S V ms (modify (sim_drain S m)) silent (\<lambda>_ _. True)"
    "effect S V ms (modify (sim_drain_matching S m P)) silent (\<lambda>_ _. True)"
    "effect S V ms (modify (sim_down S m)) silent (\<lambda>_ _. True)"
  using assms by (auto intro!: effect_elapses simp: sim_laws_def)

lemma effect_awaiting:
  assumes "select_laws S V m sel"
  shows "effect S V ms (awaiting sel f) silent (\<lambda>r Y. found m f r Y \<and> (r = None \<longrightarrow> (\<exists>P s. fst (sel P s) = Finished None)))"
  (is "effect S V ms _ _ ?G")
proof (rule effectI)
  fix s r s' assume run: "passes (awaiting sel f) s r s'"
  let ?P = "\<lambda>e. map_option (\<lambda>r. r \<noteq> None) (f e)"
  obtain w where sel: "sel ?P s = (w, s')" "w = Finished None \<and> r = None \<or> (\<exists>e. w = Finished (Some e) \<and> f e = Some r)"
    using run by (auto simp: awaiting_def passing split: prod.splits awaited.splits option.splits)
  have "case sel ?P s of (r, s') \<Rightarrow> elapses S V s s' \<and> (\<forall>e. r = Finished (Some e) \<longrightarrow> e \<in> sim_seen V s' m \<and> ?P e = Some True)"
    by (rule assms [unfolded select_laws_def, THEN spec, THEN spec])
  then have e: "elapses S V s s'" "\<forall>e. w = Finished (Some e) \<longrightarrow> e \<in> sim_seen V s' m \<and> ?P e = Some True"
    unfolding sel(1) by simp_all
  show "sim_machines S s' = ms \<and> sim_seen V s \<le> sim_seen V s'" if "sim_machines S s = ms"
    using that e(1) by (simp add: elapses_def)
  show "sim_sent V s' k = sim_sent V s k @ c k" if "silent = Some c" for c k
    using that e(1) by (auto simp: elapses_def)
  show "?G r Y" if "sim_seen V s' \<le> Y" for Y
    using sel e(2) that by (auto simp: found_def le_fun_def intro!: exI [of _ ?P] exI [of _ s])
qed

lemma effect_select:
  assumes "sim_laws S V"
  shows "effect S V ms (select S m f t) silent (found m f)"
    "effect S V ms (select_draining S m f t) silent (found m f)"
  using assms effect_awaiting [of S V m "sim_select S m t" ms f] effect_awaiting [of S V m "sim_select_draining S m t" ms f]
  by (auto simp: select_def select_draining_def sim_laws_def elim!: effect_weaken)

text \<open>With open streams the function has found a result.\<close>

definition answered :: "nat \<Rightarrow> ('ma cli_event \<Rightarrow> 'b option option) \<Rightarrow> 'b option \<Rightarrow> (nat \<Rightarrow> 'ma cli_event set) \<Rightarrow> bool" where
  "answered m f r Y \<longleftrightarrow> (\<exists>x. r = Some x \<and> (\<exists>e \<in> Y m. f e = Some (Some x)))"

lemma effect_select_open:
  assumes "sim_laws S V" "streams_open S"
  shows "effect S V ms (select S m f t) silent (answered m f)"
    "effect S V ms (select_draining S m f t) silent (answered m f)"
  using assms effect_awaiting [of S V m "sim_select S m t" ms f] effect_awaiting [of S V m "sim_select_draining S m t" ms f]
  by (auto simp: select_def select_draining_def sim_laws_def streams_open_def found_def answered_def elim!: effect_weaken)

lemma effect_by_deadline:
  assumes "\<And>t. effect S V ms (p t) cs G"
  shows "effect S V ms (by_deadline S i d p) cs G"
  unfolding by_deadline_def
  by (rule effect_weaken, rule effect_andthen [OF effect_read], rule effect_andthen [OF effect_unwrap], rule assms) auto

lemma effect_timeout: "(\<And>t. effect S V ms (p t) cs G) \<Longrightarrow> effect S V ms (timeout d p) cs G"
  by (simp add: timeout_def)

lemma effect_unwrapped:
  assumes "effect S V ms p cs (found m f)"
  shows "effect S V ms (andthen p unwrap) cs (\<lambda>x Y. \<exists>e \<in> Y m. f e = Some (Some x))"
  by (rule effect_weaken, rule effect_andthen [OF assms], rule effect_unwrap) (auto simp: found_def)

subsection \<open>The nodes that are started\<close>

lemma spawn_laws:
  assumes "sim_laws S V"
  shows "map machine_id (sim_machines S (snd (sim_spawn_machine S args d s))) =
      map machine_id (sim_machines S s) @ [fst (sim_spawn_machine S args d s)]"
    "fst (sim_spawn_machine S args d s) = length (sim_machines S s)"
    "sim_started V (snd (sim_spawn_machine S args d s)) = sim_started V s @ [args]"
  using assms unfolding sim_laws_def by blast+

lemma plug_laws:
  assumes "sim_laws S V"
  shows "map machine_id (sim_machines S (sim_plug S m net s)) = map machine_id (sim_machines S s)"
    "sim_started V (sim_plug S m net s) = sim_started V s"
  using assms unfolding sim_laws_def by blast+

lemma start_node_machines:
  assumes "sim_laws S V" "passes (start_node S show_ma F any_30000 opts dir net i) s u s'"
  shows "netsim_config F dir any_30000 opts i \<noteq> None"
    "map machine_id (sim_machines S s') = map machine_id (sim_machines S s) @ [length (sim_machines S s)]"
    "sim_started V s' = sim_started V s @ [config_args show_ma (the (netsim_config F dir any_30000 opts i))]"
proof -
  from assms(2) obtain cfg m s1 where run: "netsim_config F dir any_30000 opts i = Some cfg"
    "sim_spawn_machine S (config_args show_ma cfg) (Some (from_millis (delay_ms opts))) s = (m, s1)" "s' = sim_plug S m net s1"
    by (auto simp: start_node_def passing)
  with spawn_laws [OF assms(1), of "config_args show_ma cfg" "Some (from_millis (delay_ms opts))" s] plug_laws [OF assms(1), of m net s1]
  show "netsim_config F dir any_30000 opts i \<noteq> None"
    "map machine_id (sim_machines S s') = map machine_id (sim_machines S s) @ [length (sim_machines S s)]"
    "sim_started V s' = sim_started V s @ [config_args show_ma (the (netsim_config F dir any_30000 opts i))]"
    by simp_all
qed

text \<open>
  A simulation that passes has started its nodes: the body of the program ran on machines
  numbered from 0, as many as the options ask for, started in this order with the arguments
  of their configurations; and it passed.
\<close>

lemma run_netsim_starts:
  assumes "sim_laws S V" "sim_machines S s = []"
    "passes (run_netsim S show_ma F any_30000 unshare_user tempdir opts f) s u s'"
  shows "\<exists>net dir s1. unshare_user = Inr () \<and> tempdir = Inr dir \<and> passes (f net dir) s1 u s' \<and>
    map machine_id (sim_machines S s1) = [0..<n_nodes opts] \<and>
    (\<forall>i < n_nodes opts. netsim_config F dir any_30000 opts i \<noteq> None) \<and>
    sim_started V s1 = sim_started V s @
      map (\<lambda>i. config_args show_ma (the (netsim_config F dir any_30000 opts i))) [0..<n_nodes opts]"
proof -
  let ?cfg = "\<lambda>dir. netsim_config F dir any_30000 opts"
  from assms(3) obtain dir range s0 net s1 s2 where run: "unshare_user = Inr ()" "tempdir = Inr dir"
    "sim_random_range S s = (range, s0)" "sim_spawn_network S range s0 = (net, s1)"
    "passes (for_each [0..<n_nodes opts] (start_node S show_ma F any_30000 opts dir net)) s1 () s2" "passes (f net dir) s2 u s'"
    by (auto simp: run_netsim_def passing)
  have "elapses S V s (snd (sim_random_range S s))" "elapses S V s0 (snd (sim_spawn_network S range s0))"
    using assms(1) by (simp_all add: sim_laws_def)
  with run(3,4) assms(2) have s1: "sim_machines S s1 = []" "sim_started V s1 = sim_started V s"
    by (simp_all add: elapses_def)
  let ?I = "\<lambda>n s'. map machine_id (sim_machines S s') = [0..<n] \<and> (\<forall>i < n. ?cfg dir i \<noteq> None) \<and>
      sim_started V s' = sim_started V s @ map (\<lambda>i. config_args show_ma (the (?cfg dir i))) [0..<n]"
  have "?I (length [0..<n_nodes opts]) s2"
  proof (rule for_each_induct [OF run(5)])
    show "?I 0 s1" using s1 by simp
    fix i t u t' assume i: "i < length [0..<n_nodes opts]" "?I i t"
      and node: "passes (start_node S show_ma F any_30000 opts dir net ([0..<n_nodes opts] ! i)) t u t'"
    have "length (sim_machines S t) = i" using arg_cong [OF conjunct1 [OF i(2)], of length] by simp
    with i start_node_machines [OF assms(1) node] show "?I (Suc i) t'" by (auto simp: less_Suc_eq)
  qed
  with run show ?thesis by (intro exI [of _ net] exI [of _ dir] exI [of _ s2]) simp
qed

text \<open>
  A simulator whose machines report the events of a script over and over; \<open>recv\<close> yields the next
  event after each command.
\<close>

record 'ma scripted =
  sc_machines :: "machine list"
  sc_sent :: "nat \<Rightarrow> 'ma cli_command list"
  sc_started :: "string list list"

definition script_select :: "(nat \<Rightarrow> 'ma cli_event list) \<Rightarrow> nat \<Rightarrow> duration \<Rightarrow> ('ma cli_event \<Rightarrow> bool option) \<Rightarrow> 'ma scripted \<Rightarrow>
    'ma cli_event option awaited \<times> 'ma scripted" where
  "script_select script m t P s =
     (case List.find (\<lambda>e. P e = Some True) (script m) of Some e \<Rightarrow> (Finished (Some e), s) | None \<Rightarrow> (TimedOut, s))"

definition script_sim :: "(nat \<Rightarrow> 'ma cli_event list) \<Rightarrow> ('ma scripted, 'ma) sim_api" where
  "script_sim script = \<lparr>sim_machines = sc_machines, sim_now = (\<lambda>_. 0),
     sim_send = (\<lambda>m c s. s\<lparr>sc_sent := (sc_sent s)(m := sc_sent s m @ [c])\<rparr>),
     sim_recv = (\<lambda>m t s. (case drop (length (sc_sent s m)) (script m) of [] \<Rightarrow> (TimedOut, s) | e # _ \<Rightarrow> (Finished (Some e), s))),
     sim_select = script_select script, sim_select_draining = script_select script,
     sim_drain = (\<lambda>m s. s), sim_drain_matching = (\<lambda>m P s. s), sim_down = (\<lambda>m s. s),
     sim_random_range = (\<lambda>s. (0, s)), sim_network_range = (\<lambda>n s. 1), sim_spawn_network = (\<lambda>r s. (r, s)),
     sim_add_nat_route = (\<lambda>c a b s. s),
     sim_spawn_machine = (\<lambda>args d s. (length (sc_machines s),
       s\<lparr>sc_machines := sc_machines s @ [\<lparr>machine_id = length (sc_machines s), machine_addr = ''10.0.0.1''\<rparr>],
         sc_started := sc_started s @ [args]\<rparr>)),
     sim_plug = (\<lambda>m n s. s)\<rparr>"

definition script_view :: "(nat \<Rightarrow> 'ma cli_event list) \<Rightarrow> ('ma scripted, 'ma) sim_view" where
  "script_view script = \<lparr>sim_sent = sc_sent, sim_seen = (\<lambda>s m. set (script m)), sim_started = sc_started\<rparr>"

abbreviation scripted_start :: "machine list \<Rightarrow> 'ma scripted" where
  "scripted_start ms \<equiv> \<lparr>sc_machines = ms, sc_sent = (\<lambda>_. []), sc_started = []\<rparr>"

lemma script_sim_simps [simp]:
  "sim_machines (script_sim script) s = sc_machines s"
  "sim_now (script_sim script) s = 0"
  "sim_send (script_sim script) m c s = s\<lparr>sc_sent := (sc_sent s)(m := sc_sent s m @ [c])\<rparr>"
  "sim_select (script_sim script) = script_select script"
  "sim_select_draining (script_sim script) = script_select script"
  "sim_drain (script_sim script) m s = s"
  "sim_drain_matching (script_sim script) m P s = s"
  "sim_down (script_sim script) m s = s"
  "sim_random_range (script_sim script) s = (0, s)"
  "sim_network_range (script_sim script) n s = 1"
  "sim_spawn_network (script_sim script) r s = (r, s)"
  "sim_add_nat_route (script_sim script) fwd na nb s = s"
  "sim_spawn_machine (script_sim script) args d s = (length (sc_machines s),
     s\<lparr>sc_machines := sc_machines s @ [\<lparr>machine_id = length (sc_machines s), machine_addr = ''10.0.0.1''\<rparr>],
       sc_started := sc_started s @ [args]\<rparr>)"
  "sim_plug (script_sim script) m n s = s"
  by (simp_all add: script_sim_def)

lemma script_select_laws: "select_laws (script_sim script) (script_view script) m (script_select script m t)"
  by (auto simp: select_laws_def elapses_def script_select_def script_view_def find_Some_iff split: option.splits)

lemma drop_first: "drop n xs = x # ys \<Longrightarrow> x \<in> set xs"
  by (metis in_set_dropD list.set_intros(1))

lemma script_sim_laws: "sim_laws (script_sim script) (script_view script)"
  using script_select_laws [of script]
  by (auto simp: sim_laws_def script_sim_def script_view_def elapses_def split: list.splits dest!: drop_first)

lemma script_sim_open: "streams_open (script_sim script)"
  by (auto simp: streams_open_def script_sim_def script_select_def split: option.splits)

lemmas script_runs = passing script_select_def awaiting_def select_def select_draining_def matches_def
  by_deadline_def timeout_def ignore_def send_def deadline_def Let_def dur_add_def DURATION_MAX_def from_millis_def from_secs_def

lemma run_netsim_starts_sample:
  "\<exists>s'. passes (run_netsim (script_sim (\<lambda>_. []) :: (protocol list scripted, protocol list) sim_api) (\<lambda>_. ''a'') sample_fs []
        (Inr ()) (Inr ''t'') sample_opts (\<lambda>_ _. ret ())) (scripted_start []) () s' \<and>
     map machine_id (sc_machines s') = [0..<3]"
proof -
  let ?S = "script_sim (\<lambda>_. []) :: (protocol list scripted, protocol list) sim_api"
  obtain s' where run: "passes (run_netsim ?S (\<lambda>_. ''a'') sample_fs [] (Inr ()) (Inr ''t'') sample_opts (\<lambda>_ _. ret ())) (scripted_start []) () s'"
    by (simp add: run_netsim_def start_node_def passing script_sim_def sample_opts_def upt_rec netsim_config_def
        netsim_name_def usize_add_def)
  have "sim_machines ?S (scripted_start []) = []" by (simp add: script_sim_def)
  from run_netsim_starts [OF script_sim_laws this run] have "map machine_id (sc_machines s') = [0..<3]"
    by (auto simp: passing script_sim_def sample_opts_def)
  with run show ?thesis by blast
qed

end
