(* ===== verification/SimBitswap.thy ===== *)
theory SimBitswap
  imports Machines
begin

text \<open>
  The simulation \<open>src/harness/src/bin/bitswap.rs\<close>: providers are given a tree of blocks,
  consumers synchronise it, and every block is read back from every consumer. And
  \<open>src/harness/src/bin/sim_open.rs\<close>: two nodes dial each other at the same time.
\<close>

subsection \<open>Waiting for a node to listen\<close>

definition listening :: "('ma, 'z) multiaddr_api_scheme \<Rightarrow> 'ma cli_event option \<Rightarrow> 'ma option" where
  "listening M e =
     (case e of
        Some (NewListenAddrE addr) \<Rightarrow> if \<not> sim_is_loopback M addr then Some addr else None
      | _ \<Rightarrow> None)"

text \<open>
  A loop that receives events, with a time limit on each or without, until \<open>g\<close> has a result.
  It goes on when the node's output has ended.
\<close>

partial_function (option) recv_loop :: "('s, 'ma) sim_api \<Rightarrow> nat \<Rightarrow> duration option \<Rightarrow> ('ma cli_event option \<Rightarrow> 'a verdict option) \<Rightarrow>
    ('s, 'a) prog" where
  "recv_loop S m limit g s =
     (case sim_recv S m limit s of
        (Finished e, s) \<Rightarrow> (case g e of Some r \<Rightarrow> Some (r, s) | None \<Rightarrow> recv_loop S m limit g s)
      | (_, s) \<Rightarrow> Some (Panics, s))"

definition wait_listen :: "('s, 'ma) sim_api \<Rightarrow> ('ma, 'z) multiaddr_api_scheme \<Rightarrow> duration option \<Rightarrow> nat \<Rightarrow> ('s, 'ma) prog" where
  "wait_listen S M limit m = recv_loop S m limit (\<lambda>e. map_option Done (listening M e))"

subsection \<open>The bitswap simulation\<close>

text \<open>
  The bytes of a block are those its node encodes to (\<open>enc\<close>); the trees are built from fresh
  random payloads each time, hence from libraries \<open>Bs i\<close>; \<open>root\<close> is what the macro \<open>alias!\<close>
  makes of the name.
\<close>

definition to_block :: "(tree_node \<Rightarrow> u8 list) \<Rightarrow> tree_block \<Rightarrow> block" where
  "to_block enc b = Block (fst b) (enc (snd b))"

definition send_tree :: "('s, 'ma) sim_api \<Rightarrow> (tree_node \<Rightarrow> u8 list) \<Rightarrow> string \<Rightarrow> cid \<times> tree_block list \<Rightarrow> machine \<Rightarrow> ('s, unit) prog" where
  "send_tree S enc alias t m =
     steps [send S (machine_id m) (AliasC alias (Some (fst t))),
       for_each (rev (snd t)) (\<lambda>b. send S (machine_id m) (InsertC (to_block enc b)))]"

definition bitswap_spam :: "('s, 'ma) sim_api \<Rightarrow> (nat \<Rightarrow> block_lib) \<Rightarrow> (tree_node \<Rightarrow> u8 list) \<Rightarrow> harness_opts \<Rightarrow> ('s, unit) prog" where
  "bitswap_spam S Bs enc opts =
     for_each [0..<n_spam opts] (\<lambda>i.
       andthen (or_return (build_tree (Bs i) (tree_width opts) (tree_depth opts))) (\<lambda>t.
       andthen (read (sim_machines S)) (\<lambda>ms.
       for_each ms (send_tree S enc (''passive-'' @ decimal i) t))))"

text \<open>The machines in a range of the list.\<close>

definition machines_in :: "('s, 'ma) sim_api \<Rightarrow> nat \<Rightarrow> nat \<Rightarrow> (machine \<Rightarrow> ('s, unit) prog) \<Rightarrow> ('s, unit) prog" where
  "machines_in S lo hi body =
     andthen (read (sim_machines S)) (\<lambda>ms.
     andthen (unwrap (slice lo hi ms)) (\<lambda>range.
     for_each range body))"

definition wait_event :: "('s, 'ma) sim_api \<Rightarrow> duration \<Rightarrow> nat \<Rightarrow> 'ma cli_event \<Rightarrow> machine \<Rightarrow> ('s, unit) prog" where
  "wait_event S start d e m =
     andthen (by_deadline S start d (select_draining S (machine_id m) (matches (\<lambda>x. x = e)))) unwrap"

definition bitswap_flush :: "('s, 'ma) sim_api \<Rightarrow> ('s, unit) prog" where
  "bitswap_flush S =
     andthen (read (sim_machines S)) (\<lambda>ms.
     andthen (for_each ms (\<lambda>m. send S (machine_id m) FlushC)) (\<lambda>_.
     andthen (read (sim_now S)) (\<lambda>start.
     andthen (read (sim_machines S)) (\<lambda>ms.
     for_each ms (wait_event S start 10 FlushedE)))))"

definition sync_consumers :: "('s, 'ma) sim_api \<Rightarrow> string \<Rightarrow> cid \<Rightarrow> nat \<Rightarrow> nat \<Rightarrow> ('s, unit) prog" where
  "sync_consumers S root cid lo hi =
     andthen (machines_in S lo hi (\<lambda>m. steps [
       send S (machine_id m) (AliasC root (Some cid)),
       send S (machine_id m) (SyncC cid)])) (\<lambda>_.
     andthen (read (sim_now S)) (\<lambda>start.
     machines_in S lo hi (\<lambda>m. steps [
       wait_event S start 20 SyncedE m,
       send S (machine_id m) FlushC,
       andthen (timeout 1 (select_draining S (machine_id m) (matches (\<lambda>e. e = FlushedE)))) unwrap])))"

definition block_event :: "'ma cli_event \<Rightarrow> block option option" where
  "block_event e = Some (case e of BlockE data \<Rightarrow> Some data | _ \<Rightarrow> None)"

definition bitswap_check :: "('s, 'ma) sim_api \<Rightarrow> (tree_node \<Rightarrow> u8 list) \<Rightarrow> tree_block list \<Rightarrow> nat \<Rightarrow> nat \<Rightarrow> ('s, unit) prog" where
  "bitswap_check S enc bs lo hi =
     andthen (read (sim_now S)) (\<lambda>start.
     machines_in S lo hi (\<lambda>m.
       for_each bs (\<lambda>b.
         andthen (send S (machine_id m) (GetC (fst b))) (\<lambda>_.
         andthen (andthen (by_deadline S start 5 (select_draining S (machine_id m) block_event)) unwrap) (\<lambda>data.
         if data = to_block enc b then ret () else panic)))))"

definition bitswap :: "('s, 'ma) sim_api \<Rightarrow> ('ma, 'z) multiaddr_api_scheme \<Rightarrow> (nat \<Rightarrow> block_lib) \<Rightarrow> (tree_node \<Rightarrow> u8 list) \<Rightarrow>
    string \<Rightarrow> harness_opts \<Rightarrow> ('s, unit) prog" where
  "bitswap S M Bs enc root opts =
     andthen (unwrap (usize_add (n_providers opts) (n_consumers opts))) (\<lambda>hi.
     andthen (read (sim_machines S)) (\<lambda>ms.
     andthen (for_each ms (\<lambda>m. ignore (wait_listen S M (Some (from_secs 3)) (machine_id m)))) (\<lambda>_.
     andthen (bitswap_spam S Bs enc opts) (\<lambda>_.
     andthen (or_return (build_tree (Bs (n_spam opts)) (tree_width opts) (tree_depth opts))) (\<lambda>t.
     steps [
       machines_in S 0 (n_providers opts) (send_tree S enc root t),
       bitswap_flush S,
       sync_consumers S root (fst t) (n_providers opts) hi,
       bitswap_check S enc (snd t) (n_providers opts) hi])))))"

subsection \<open>The simulation of a simultaneous open\<close>

text \<open>What an event means to the node that waits for a connection to \<open>peer\<close>.\<close>

definition open_event :: "peer_id \<Rightarrow> 'ma cli_event option \<Rightarrow> unit verdict option" where
  "open_event peer e =
     (case e of
        Some (ConnectedE i) \<Rightarrow> if i = peer then Some (Done ()) else None
      | Some (UnreachableE i) \<Rightarrow> if i = peer then Some (Fails ''sim open failed'') else None
      | _ \<Rightarrow> None)"

definition wait_connected :: "('s, 'ma) sim_api \<Rightarrow> nat \<Rightarrow> peer_id \<Rightarrow> ('s, unit) prog" where
  "wait_connected S m peer = recv_loop S m None (open_event peer)"

definition start_delayed :: "('s, 'ma) sim_api \<Rightarrow> ('ma \<Rightarrow> string) \<Rightarrow> 'ma \<Rightarrow> nat \<Rightarrow> 64 word \<Rightarrow> ('s, unit) prog" where
  "start_delayed S show_ma any_30000 net key =
     andthen (call (sim_spawn_machine S (config_args show_ma (cli_config_new any_30000 key)) (Some (from_millis 100)))) (\<lambda>a.
     modify (sim_plug S a net))"

text \<open>Both nodes are told where the other one is and to dial it; both must report the connection.\<close>

definition open_both :: "('s, 'ma) sim_api \<Rightarrow> ('ma, 'z) multiaddr_api_scheme \<Rightarrow> ('c, 'd) net_lib \<Rightarrow> (string \<Rightarrow> 'ma option) \<Rightarrow>
    machine \<Rightarrow> machine \<Rightarrow> ('s, unit) prog" where
  "open_both S M L parse a b =
     (let a_id = machine_peer_id L a; b_id = machine_peer_id L b
      in andthen (unwrap (machine_multiaddr parse a)) (\<lambda>a_addr.
         andthen (unwrap (machine_multiaddr parse b)) (\<lambda>b_addr.
         steps [
           ignore (wait_listen S M None (machine_id a)),
           ignore (wait_listen S M None (machine_id b)),
           send S (machine_id a) (AddAddressC b_id b_addr),
           send S (machine_id b) (AddAddressC a_id a_addr),
           send S (machine_id a) (DialC b_id),
           send S (machine_id b) (DialC a_id),
           wait_connected S (machine_id a) b_id,
           wait_connected S (machine_id b) a_id])))"

definition sim_open :: "('s, 'ma) sim_api \<Rightarrow> ('ma, 'z) multiaddr_api_scheme \<Rightarrow> ('c, 'd) net_lib \<Rightarrow> (string \<Rightarrow> 'ma option) \<Rightarrow>
    ('ma \<Rightarrow> string) \<Rightarrow> 'ma \<Rightarrow> string + unit \<Rightarrow> ('s, unit) prog" where
  "sim_open S M L parse show_ma any_30000 unshare_user =
     andthen (or_return unshare_user) (\<lambda>_.
     andthen (call (sim_random_range S)) (\<lambda>range.
     andthen (call (sim_spawn_network S range)) (\<lambda>net.
     andthen (start_delayed S show_ma any_30000 net 0) (\<lambda>_.
     andthen (start_delayed S show_ma any_30000 net 1) (\<lambda>_.
     andthen (read (sim_machines S)) (\<lambda>ms.
     case ms of a # b # _ \<Rightarrow> open_both S M L parse a b | _ \<Rightarrow> panic))))))"

subsection \<open>What bitswap establishes\<close>

lemma elapses_trans: "elapses S V s t \<Longrightarrow> elapses S V t u \<Longrightarrow> elapses S V s u"
  by (auto simp: elapses_def)

lemma recv_laws:
  assumes "sim_laws S V" "sim_recv S m t s = (r, s')"
  shows "elapses S V s s'" "r = Finished (Some e) \<Longrightarrow> e \<in> sim_seen V s' m"
proof -
  have "case sim_recv S m t s of (r, s') \<Rightarrow> elapses S V s s' \<and> (\<forall>e. r = Finished (Some e) \<longrightarrow> e \<in> sim_seen V s' m)"
    by (rule conjunct1 [OF conjunct2 [OF assms(1) [unfolded sim_laws_def]], THEN spec, THEN spec, THEN spec])
  with assms(2) show "elapses S V s s'" "r = Finished (Some e) \<Longrightarrow> e \<in> sim_seen V s' m" by simp_all
qed

lemma listeningD: "listening M e = Some a \<Longrightarrow> e = Some (NewListenAddrE a) \<and> \<not> sim_is_loopback M a"
  by (auto simp: listening_def split: option.splits cli_event.splits if_splits)

lemma recv_loop_laws:
  assumes "sim_laws S V" "recv_loop S m limit g s = Some rs"
  shows "elapses S V s (snd rs) \<and>
    (fst rs = Panics \<or> (\<exists>e. g e = Some (fst rs) \<and> (\<forall>x. e = Some x \<longrightarrow> x \<in> sim_seen V (snd rs) m)))"
proof (rule recv_loop.raw_induct [OF _ assms(2), of "\<lambda>S' m l g s rs. S' = S \<longrightarrow> elapses S V s (snd rs) \<and>
    (fst rs = Panics \<or> (\<exists>e. g e = Some (fst rs) \<and> (\<forall>x. e = Some x \<longrightarrow> x \<in> sim_seen V (snd rs) m)))", THEN mp, OF _ refl])
  fix loop S' m l g s rs
  assume IH: "\<And>S' m l g s rs. loop S' m l g s = Some rs \<Longrightarrow> S' = S \<longrightarrow> elapses S V s (snd rs) \<and>
      (fst rs = Panics \<or> (\<exists>e. g e = Some (fst rs) \<and> (\<forall>x. e = Some x \<longrightarrow> x \<in> sim_seen V (snd rs) m)))"
    and run: "(case sim_recv S' m l s of
        (Finished e, s) \<Rightarrow> (case g e of Some r \<Rightarrow> Some (r, s) | None \<Rightarrow> loop S' m l g s)
      | (_, s) \<Rightarrow> Some (Panics, s)) = Some rs"
  obtain r t where r: "sim_recv S' m l s = (r, t)" by fastforce
  show "S' = S \<longrightarrow> elapses S V s (snd rs) \<and>
      (fst rs = Panics \<or> (\<exists>e. g e = Some (fst rs) \<and> (\<forall>x. e = Some x \<longrightarrow> x \<in> sim_seen V (snd rs) m)))"
  proof
    assume "S' = S"
    note recv = recv_laws [OF assms(1) r [unfolded this]]
    show "elapses S V s (snd rs) \<and>
      (fst rs = Panics \<or> (\<exists>e. g e = Some (fst rs) \<and> (\<forall>x. e = Some x \<longrightarrow> x \<in> sim_seen V (snd rs) m)))"
    proof (cases "\<exists>e. r = Finished e \<and> g e = None")
      case True
      with run r IH [of S m l g t rs] \<open>S' = S\<close> recv(1) show ?thesis by (auto intro: elapses_trans)
    next
      case False
      with run r recv show ?thesis by (fastforce split: awaited.splits option.splits)
    qed
  qed
qed

lemma recv_loop_found:
  assumes "sim_recv S m limit s = (Finished e, t)" "g e = Some r"
  shows "recv_loop S m limit g s = Some (r, t)"
  by (subst recv_loop.simps) (simp add: assms)

text \<open>When the output of the node has ended, the loop never does.\<close>

lemma recv_loop_spins:
  assumes "\<And>m t s. fst (sim_recv S m t s) = Finished None" "g None = None"
  shows "recv_loop S m limit g s = None"
proof (rule ccontr)
  assume "recv_loop S m limit g s \<noteq> None"
  then obtain rs where rs: "recv_loop S m limit g s = Some rs" by auto
  have "S = S \<longrightarrow> g None = None \<longrightarrow> False"
  proof (rule recv_loop.raw_induct [OF _ rs, of "\<lambda>S' m l g s rs. S' = S \<longrightarrow> g None = None \<longrightarrow> False"])
    fix loop S' m l g s rs
    assume IH: "\<And>S' m l g s rs. loop S' m l g s = Some rs \<Longrightarrow> S' = S \<longrightarrow> g None = None \<longrightarrow> False"
      and run: "(case sim_recv S' m l s of
        (Finished e, s) \<Rightarrow> (case g e of Some r \<Rightarrow> Some (r, s) | None \<Rightarrow> loop S' m l g s)
      | (_, s) \<Rightarrow> Some (Panics, s)) = Some rs"
    show "S' = S \<longrightarrow> g None = None \<longrightarrow> False"
      using run assms(1) [of m l s] IH [of S m l g "snd (sim_recv S m l s)" rs] by (cases "sim_recv S m l s"; cases "g None") auto
  qed
  with assms(2) show False by simp
qed

lemma effect_wait_listen:
  assumes "sim_laws S V"
  shows "effect S V ms (wait_listen S M limit m) silent
    (\<lambda>a Y. NewListenAddrE a \<in> Y m \<and> \<not> sim_is_loopback M a)"
proof (rule effectI)
  fix s a s' assume run: "passes (wait_listen S M limit m) s a s'"
  have l: "elapses S V s s' \<and> NewListenAddrE a \<in> sim_seen V s' m \<and> \<not> sim_is_loopback M a"
    using recv_loop_laws [OF assms run [unfolded wait_listen_def]] by (auto dest: listeningD)
  show "sim_machines S s' = ms \<and> sim_seen V s \<le> sim_seen V s'" if "sim_machines S s = ms"
    using that l by (simp add: elapses_def)
  show "sim_sent V s' k = sim_sent V s k @ c k" if "silent = Some c" for c k
    using that l by (auto simp: elapses_def)
  show "NewListenAddrE a \<in> Y m \<and> \<not> sim_is_loopback M a" if "sim_seen V s' \<le> Y" for Y
    using that l by (auto simp: le_fun_def)
qed

text \<open>What a machine is sent when every machine of a list is.\<close>

lemma concat_one:
  assumes "distinct (map f xs)"
  shows "concat (map (\<lambda>x. if k = f x then cs else []) xs) = (if k \<in> f ` set xs then cs else [])"
  using assms by (induction xs) (auto simp: image_iff)

lemma effect_each_machine:
  assumes "\<And>m. m \<in> set xs \<Longrightarrow> effect S V ms (body m) (Some (\<lambda>k. if k = machine_id m then cs else [])) (\<lambda>_. G m)"
    "distinct (map machine_id xs)"
  shows "effect S V ms (for_each xs body) (Some (\<lambda>k. if k \<in> machine_id ` set xs then cs else [])) (\<lambda>_ Y. \<forall>m \<in> set xs. G m Y)"
  using effect_for_each [of xs S V ms body "\<lambda>m k. if k = machine_id m then cs else []" G] assms
  by (simp add: concat_one)

lemma effect_machines_in:
  assumes "\<And>m. effect S V ms (body m) (Some (\<lambda>k. if k = machine_id m then cs else [])) (\<lambda>_. G m)"
    "distinct (map machine_id ms)"
  shows "effect S V ms (machines_in S lo hi body)
    (Some (\<lambda>k. if k \<in> machine_id ` set (take (hi - lo) (drop lo ms)) then cs else []))
    (\<lambda>_ Y. lo \<le> hi \<and> hi \<le> length ms \<and> (\<forall>m \<in> set (take (hi - lo) (drop lo ms)). G m Y))"
proof -
  let ?xs = "take (hi - lo) (drop lo ms)"
  have "distinct (map machine_id ?xs)"
    using assms(2) by (simp add: take_map [symmetric] drop_map [symmetric])
  from effect_each_machine [OF assms(1) this]
  have each: "effect S V ms (for_each ?xs body) (Some (\<lambda>k. if k \<in> machine_id ` set ?xs then cs else [])) (\<lambda>_ Y. \<forall>m \<in> set ?xs. G m Y)" .
  show ?thesis unfolding machines_in_def
    by (rule effect_weaken, rule effect_andthen [OF effect_machines], simp, rule effect_andthen [OF effect_unwrap])
      (auto simp: slice_def split: if_splits intro: each)
qed

definition tree_cmds :: "(tree_node \<Rightarrow> u8 list) \<Rightarrow> string \<Rightarrow> cid \<times> tree_block list \<Rightarrow> 'ma cli_command list" where
  "tree_cmds enc alias t = AliasC alias (Some (fst t)) # map (\<lambda>b. InsertC (to_block enc b)) (rev (snd t))"

abbreviation only :: "nat \<Rightarrow> 'c list \<Rightarrow> nat \<Rightarrow> 'c list" where
  "only m cs \<equiv> \<lambda>k. if k = m then cs else []"

lemma both_only [simp]: "both (Some (only m cs)) (Some (only m ds)) = Some (only m (cs @ ds))"
  by (auto simp: fun_eq_iff)

lemma concat_only [simp]: "concat (map (\<lambda>x. only m (c x) k) xs) = only m (concat (map c xs)) k"
  by (simp cong: map_cong)

lemma effect_steps:
  "effect S V ms (steps []) silent (\<lambda>_ _. True)"
  "effect S V ms p cs G \<Longrightarrow> effect S V ms (steps ps) ds H \<Longrightarrow>
     effect S V ms (steps (p # ps)) (both cs ds) (\<lambda>_ Y. (\<exists>a. G a Y) \<and> H () Y)"
  by (auto intro: effect_weaken [OF effect_ret] effect_weaken [OF effect_andthen])

lemma effect_send_tree:
  assumes "sim_laws S V"
  shows "effect S V ms (send_tree S enc alias t m) (Some (only (machine_id m) (tree_cmds enc alias t))) (\<lambda>_ _. True)"
  unfolding send_tree_def
  by (rule effect_weaken [OF effect_steps(2) [OF effect_send effect_steps(2) [OF effect_for_each effect_steps(1)]]],
      rule assms, rule effect_send [OF assms]) (auto simp: tree_cmds_def)

lemma effect_wait_event:
  assumes "sim_laws S V"
  shows "effect S V ms (wait_event S start d e m) silent (\<lambda>_ Y. e \<in> Y (machine_id m))"
  unfolding wait_event_def
  by (rule effect_weaken, rule effect_unwrapped, rule effect_by_deadline, rule effect_select(2) [OF assms])
    (auto simp: matches_def split: if_splits)

abbreviation all_of :: "machine list \<Rightarrow> 'c list \<Rightarrow> nat \<Rightarrow> 'c list" where
  "all_of xs cs \<equiv> \<lambda>k. if k \<in> machine_id ` set xs then cs else []"

definition opt_tree :: "(nat \<Rightarrow> block_lib) \<Rightarrow> harness_opts \<Rightarrow> nat \<Rightarrow> cid \<times> tree_block list" where
  "opt_tree Bs opts i = projr (build_tree (Bs i) (tree_width opts) (tree_depth opts))"

definition opt_tree_ok :: "(nat \<Rightarrow> block_lib) \<Rightarrow> harness_opts \<Rightarrow> nat \<Rightarrow> bool" where
  "opt_tree_ok Bs opts i \<longleftrightarrow> build_tree (Bs i) (tree_width opts) (tree_depth opts) = Inr (opt_tree Bs opts i)"

definition spam_cmds :: "(nat \<Rightarrow> block_lib) \<Rightarrow> (tree_node \<Rightarrow> u8 list) \<Rightarrow> harness_opts \<Rightarrow> 'ma cli_command list" where
  "spam_cmds Bs enc opts = concat (map (\<lambda>i. tree_cmds enc (''passive-'' @ decimal i) (opt_tree Bs opts i)) [0..<n_spam opts])"

lemma effect_spam:
  assumes "sim_laws S V" "distinct (map machine_id ms)"
  shows "effect S V ms (bitswap_spam S Bs enc opts) (Some (all_of ms (spam_cmds Bs enc opts)))
    (\<lambda>_ _. \<forall>i < n_spam opts. opt_tree_ok Bs opts i)"
proof -
  have "effect S V ms (andthen (or_return (build_tree (Bs i) (tree_width opts) (tree_depth opts))) (\<lambda>t.
       andthen (read (sim_machines S)) (\<lambda>ms. for_each ms (send_tree S enc (''passive-'' @ decimal i) t))))
     (Some (all_of ms (tree_cmds enc (''passive-'' @ decimal i) (opt_tree Bs opts i)))) (\<lambda>_ _. opt_tree_ok Bs opts i)" for i
    by (rule effect_weaken, rule effect_andthen [OF effect_or_return], rule effect_andthen [OF effect_machines], simp,
        rule effect_weaken [OF effect_each_machine [OF effect_send_tree [OF assms(1)] assms(2)]])
      (auto simp: opt_tree_ok_def opt_tree_def)
  from effect_for_each [OF this] show ?thesis
    unfolding bitswap_spam_def by (rule effect_weaken) (auto simp: spam_cmds_def fun_eq_iff)
qed

lemma effect_flush:
  assumes "sim_laws S V" "distinct (map machine_id ms)"
  shows "effect S V ms (bitswap_flush S) (Some (all_of ms [FlushC])) (\<lambda>_ _. True)"
  unfolding bitswap_flush_def
  by (rule effect_weaken, rule effect_andthen [OF effect_machines], simp,
      rule effect_andthen [OF effect_each_machine [OF effect_send [OF assms(1)] assms(2)]],
      rule effect_andthen [OF effect_read], rule effect_andthen [OF effect_machines], simp,
      rule effect_for_each [OF effect_wait_event [OF assms(1)]]) auto

lemma effect_sync:
  assumes "sim_laws S V" "distinct (map machine_id ms)"
  shows "effect S V ms (sync_consumers S root cid lo hi)
    (Some (all_of (take (hi - lo) (drop lo ms)) [AliasC root (Some cid), SyncC cid, FlushC]))
    (\<lambda>_ Y. lo \<le> hi \<and> hi \<le> length ms \<and> (\<forall>m \<in> set (take (hi - lo) (drop lo ms)). SyncedE \<in> Y (machine_id m)))"
proof -
  let ?first = "\<lambda>m. steps [send S (machine_id m) (AliasC root (Some cid)), send S (machine_id m) (SyncC cid)]"
  have first: "effect S V ms (?first m) (Some (only (machine_id m) [AliasC root (Some cid), SyncC cid])) (\<lambda>_ _. True)" for m
    by (rule effect_weaken [OF effect_steps(2) [OF effect_send effect_steps(2) [OF effect_send effect_steps(1)]]])
      (auto intro: assms(1))
  let ?then = "\<lambda>start m. steps [wait_event S start 20 SyncedE m, send S (machine_id m) FlushC,
       andthen (timeout 1 (select_draining S (machine_id m) (matches (\<lambda>e. e = FlushedE)))) unwrap]"
  have "effect S V ms (?then start m) (Some (only (machine_id m) [FlushC])) (\<lambda>_ Y. SyncedE \<in> Y (machine_id m))" for start m
    by (rule effect_weaken [OF effect_steps(2) [OF effect_wait_event effect_steps(2) [OF effect_send
          effect_steps(2) [OF effect_unwrapped [OF effect_timeout [OF effect_select(2)]] effect_steps(1)]]]])
      (auto intro: assms(1))
  from effect_machines_in [OF this assms(2)]
  show ?thesis unfolding sync_consumers_def
    by (rule effect_weaken [OF effect_andthen [OF effect_machines_in [OF first assms(2)] effect_andthen [OF effect_read]]]) auto
qed

lemma block_event_iff: "block_event e = Some (Some data) \<longleftrightarrow> e = BlockE data"
  by (cases e) (auto simp: block_event_def)

lemma effect_check:
  assumes "sim_laws S V" "distinct (map machine_id ms)"
  shows "effect S V ms (bitswap_check S enc bs lo hi)
    (Some (all_of (take (hi - lo) (drop lo ms)) (map (\<lambda>b. GetC (fst b)) bs)))
    (\<lambda>_ Y. \<forall>m \<in> set (take (hi - lo) (drop lo ms)). \<forall>b \<in> set bs. BlockE (to_block enc b) \<in> Y (machine_id m))"
proof -
  let ?get = "\<lambda>start m b. andthen (send S (machine_id m) (GetC (fst b))) (\<lambda>_.
         andthen (andthen (by_deadline S start 5 (select_draining S (machine_id m) block_event)) unwrap) (\<lambda>data.
         if data = to_block enc b then ret () else panic))"
  have get: "effect S V ms (?get start m b) (Some (only (machine_id m) [GetC (fst b)])) (\<lambda>_ Y. BlockE (to_block enc b) \<in> Y (machine_id m))"
    for start m b
  proof (rule effect_weaken, rule effect_andthen [OF effect_send [OF assms(1)]],
      rule effect_andthen [OF effect_unwrapped [OF effect_by_deadline [OF effect_select(2) [OF assms(1)]]]])
    show "effect S V ms (if data = to_block enc b then ret () else panic) silent (\<lambda>_ _. data = to_block enc b)" for data
      by (auto intro: effect_panic effect_weaken [OF effect_ret])
  qed (auto simp: block_event_iff)
  have "effect S V ms (for_each bs (?get start m)) (Some (only (machine_id m) (map (\<lambda>b. GetC (fst b)) bs)))
      (\<lambda>_ Y. \<forall>b \<in> set bs. BlockE (to_block enc b) \<in> Y (machine_id m))" for start m
    by (rule effect_weaken [OF effect_for_each [OF get]]) auto
  from effect_machines_in [OF this assms(2)] show ?thesis
    unfolding bitswap_check_def
    by (rule effect_weaken [OF effect_andthen [OF effect_read]]) auto
qed

lemma in_slice:
  assumes "distinct (map f xs)" "i < length xs" "hi \<le> length xs"
  shows "f (xs ! i) \<in> f ` set (take (hi - lo) (drop lo xs)) \<longleftrightarrow> lo \<le> i \<and> i < hi"
proof
  assume "f (xs ! i) \<in> f ` set (take (hi - lo) (drop lo xs))"
  then obtain j where j: "j < hi - lo" "f (xs ! i) = f (xs ! (lo + j))"
    using assms(3) by (auto simp: in_set_conv_nth)
  then have "i = lo + j" using assms nth_eq_iff_index_eq [of "map f xs" i "lo + j"] by auto
  with j(1) show "lo \<le> i \<and> i < hi" by auto
next
  assume "lo \<le> i \<and> i < hi"
  then have "lo \<le> i" "i < hi" by simp_all
  then have "take (hi - lo) (drop lo xs) ! (i - lo) = xs ! i" "i - lo < length (take (hi - lo) (drop lo xs))"
    using assms(2,3) by (simp_all add: less_diff_conv2)
  then show "f (xs ! i) \<in> f ` set (take (hi - lo) (drop lo xs))" by (metis image_eqI nth_mem)
qed

lemma effect_bitswap:
  assumes "sim_laws S V" "distinct (map machine_id ms)"
    and p_def: "p = n_providers opts" and c_def: "c = p + n_consumers opts" and t_def: "t = opt_tree Bs opts (n_spam opts)"
  defines "ps \<equiv> take p ms" and "cs \<equiv> take (c - p) (drop p ms)"
  shows "effect S V ms (bitswap S M Bs enc root opts)
    (both (Some (all_of ms (spam_cmds Bs enc opts))) (both (Some (all_of ps (tree_cmds enc root t))) (both (Some (all_of ms [FlushC]))
      (both (Some (all_of cs [AliasC root (Some (fst t)), SyncC (fst t), FlushC])) (Some (all_of cs (map (\<lambda>b. GetC (fst b)) (snd t))))))))
    (\<lambda>_ Y. (\<forall>i \<le> n_spam opts. opt_tree_ok Bs opts i) \<and> c \<le> length ms \<and>
      (\<forall>m \<in> set cs. SyncedE \<in> Y (machine_id m) \<and> (\<forall>b \<in> set (snd t). BlockE (to_block enc b) \<in> Y (machine_id m))))"
    (is "effect S V ms _ (both _ ?cmds) (\<lambda>_ Y. _ \<and> ?G Y)")
proof -
  have body: "effect S V ms (steps [machines_in S 0 p (send_tree S enc root t), bitswap_flush S,
      sync_consumers S root (fst t) p c, bitswap_check S enc (snd t) p c]) ?cmds (\<lambda>_. ?G)"
    by (rule effect_weaken [OF effect_steps(2) [OF effect_machines_in [OF effect_send_tree [OF assms(1)] assms(2)]
          effect_steps(2) [OF effect_flush [OF assms(1,2)] effect_steps(2) [OF effect_sync [OF assms(1,2)]
          effect_steps(2) [OF effect_check [OF assms(1,2)] effect_steps(1)]]]]]) (auto simp: ps_def cs_def simp del: for_each.simps)
  have "effect S V ms (andthen (or_return (build_tree (Bs (n_spam opts)) (tree_width opts) (tree_depth opts))) (\<lambda>t.
      steps [machines_in S 0 p (send_tree S enc root t), bitswap_flush S,
        sync_consumers S root (fst t) p c, bitswap_check S enc (snd t) p c])) ?cmds (\<lambda>_ Y. opt_tree_ok Bs opts (n_spam opts) \<and> ?G Y)"
  proof (rule effect_weaken, rule effect_andthen [OF effect_or_return])
    fix t' assume "build_tree (Bs (n_spam opts)) (tree_width opts) (tree_depth opts) = Inr t'"
    then have "t' = t" by (simp add: t_def opt_tree_def)
    with body show "effect S V ms (steps [machines_in S 0 p (send_tree S enc root t'), bitswap_flush S,
        sync_consumers S root (fst t') p c, bitswap_check S enc (snd t') p c]) ?cmds (\<lambda>_. ?G)" by simp
  qed (auto simp: opt_tree_ok_def opt_tree_def)
  note tail = this
  show ?thesis
    unfolding bitswap_def p_def [symmetric]
  proof (rule effect_weaken, rule effect_andthen [OF effect_unwrap], rule effect_andthen [OF effect_machines], hypsubst,
      rule effect_andthen [OF effect_for_each [OF effect_ignore [OF effect_wait_listen [OF assms(1)]]]],
      rule effect_andthen [OF effect_spam [OF assms(1,2)]])
    fix hi assume "usize_add p (n_consumers opts) = Some hi"
    then have "hi = c" by (auto simp: usize_add_def c_def split: if_splits)
    with tail show "effect S V ms (andthen (or_return (build_tree (Bs (n_spam opts)) (tree_width opts) (tree_depth opts))) (\<lambda>t.
      steps [machines_in S 0 p (send_tree S enc root t), bitswap_flush S,
        sync_consumers S root (fst t) p hi, bitswap_check S enc (snd t) p hi])) ?cmds (\<lambda>_ Y. opt_tree_ok Bs opts (n_spam opts) \<and> ?G Y)" by simp
  qed (auto simp: le_less)
qed

text \<open>
  C26. What a passing run of the bitswap simulation establishes. Every machine was sent the
  spam, the providers the tree of blocks under its alias, then everybody was told to flush;
  the consumers, and only they, were told to alias the root and synchronise it, and were asked
  for every block of the tree. Each consumer reported that it had synchronised, and it
  reported every block of the tree with the content the providers were given.
\<close>

theorem bitswap_establishes:
  assumes "sim_laws S V" "ms = sim_machines S s" "distinct (map machine_id ms)" "passes (bitswap S M Bs enc root opts) s u s'"
  shows "let p = n_providers opts; c = p + n_consumers opts; t = opt_tree Bs opts (n_spam opts)
    in c \<le> length ms \<and> (\<forall>i \<le> n_spam opts. opt_tree_ok Bs opts i) \<and>
       (\<forall>i < length ms. let m = machine_id (ms ! i) in
          sim_sent V s' m = sim_sent V s m @ spam_cmds Bs enc opts @ (if i < p then tree_cmds enc root t else []) @ [FlushC] @
            (if p \<le> i \<and> i < c then [AliasC root (Some (fst t)), SyncC (fst t), FlushC] @ map (\<lambda>b. GetC (fst b)) (snd t) else []) \<and>
          (p \<le> i \<and> i < c \<longrightarrow> SyncedE \<in> sim_seen V s' m \<and> (\<forall>b \<in> set (snd t). BlockE (to_block enc b) \<in> sim_seen V s' m)))"
proof -
  define p c t where d: "p = n_providers opts" "c = p + n_consumers opts" "t = opt_tree Bs opts (n_spam opts)"
  let ?ps = "take p ms" and ?cs = "take (c - p) (drop p ms)"
  note run = effectD [OF effect_bitswap [OF assms(1,3) d, of M enc root] assms(2) [symmetric] assms(4)]
  have sent: "sim_sent V s' m = sim_sent V s m @ all_of ms (spam_cmds Bs enc opts) m @ all_of ?ps (tree_cmds enc root t) m @
      all_of ms [FlushC] m @ all_of ?cs [AliasC root (Some (fst t)), SyncC (fst t), FlushC] m @
      all_of ?cs (map (\<lambda>b. GetC (fst b)) (snd t)) m" for m
    by (rule run(3)) simp
  have G: "\<forall>i \<le> n_spam opts. opt_tree_ok Bs opts i" "c \<le> length ms \<and>
      (\<forall>m \<in> set ?cs. SyncedE \<in> sim_seen V s' (machine_id m) \<and> (\<forall>b \<in> set (snd t). BlockE (to_block enc b) \<in> sim_seen V s' (machine_id m)))" using run(4) [OF order_refl] by blast+
  have "p \<le> length ms" using G(2) by (simp add: d(2))
  note slices = in_slice [OF assms(3) _ this, of _ 0] in_slice [OF assms(3), of _ c p]
  have "sim_sent V s' (machine_id (ms ! i)) = sim_sent V s (machine_id (ms ! i)) @ spam_cmds Bs enc opts @
      (if i < p then tree_cmds enc root t else []) @ [FlushC] @
      (if p \<le> i \<and> i < c then [AliasC root (Some (fst t)), SyncC (fst t), FlushC] @ map (\<lambda>b. GetC (fst b)) (snd t) else [])"
    if "i < length ms" for i
    unfolding sent using that slices G(2) by simp
  moreover have "SyncedE \<in> sim_seen V s' (machine_id (ms ! i)) \<and> (\<forall>b \<in> set (snd t). BlockE (to_block enc b) \<in> sim_seen V s' (machine_id (ms ! i)))"
    if "i < length ms" "p \<le> i \<and> i < c" for i
    using that slices(2) [of i] G(2) by (metis imageE)
  ultimately show ?thesis
    unfolding d(1) [symmetric] d(2) [symmetric] d(3) [symmetric] Let_def using G by simp
qed

text \<open>Three machines, a tree of one block.\<close>

definition bitswap_script :: "nat \<Rightarrow> protocol list cli_event list" where
  "bitswap_script m = [NewListenAddrE [Ip4 0x0A000001, Tcp 30000], FlushedE, SyncedE, BlockE (Block 7 [1])]"

definition one_block_opts :: harness_opts where
  "one_block_opts = sample_opts\<lparr>tree_depth := 0\<rparr>"

definition one_block_lib :: block_lib where
  "one_block_lib = \<lparr>fill_bytes = (\<lambda>_ _. [1]), encode = (\<lambda>_. Inr 7)\<rparr>"

theorem bitswap_establishes_witness:
  "\<exists>s'. passes (bitswap (script_sim bitswap_script) sample_env (\<lambda>_. one_block_lib) (\<lambda>_. [1]) ''r'' one_block_opts)
      (scripted_start sample_machines) () s' \<and>
     sc_sent s' 1 = [FlushC, AliasC ''r'' (Some 7), SyncC 7, FlushC, GetC 7]"
proof -
  let ?S = "script_sim bitswap_script" and ?t = "(7, [(7, \<lparr>node_links = [], node_depth = 0, node_payload = [1]\<rparr>)])"
  have tree: "build_tree one_block_lib w 0 = Inr ?t" for w
    by (simp add: build_tree_def build_tree_0.simps create_block_def one_block_lib_def)
  have listen: "wait_listen ?S sample_env l m s = Some (Done [Ip4 0x0A000001, Tcp 30000], s)" if "sc_sent s m = []" for l m s
    unfolding wait_listen_def by (rule recv_loop_found [where e = "Some (NewListenAddrE [Ip4 0x0A000001, Tcp 30000])"])
      (simp_all add: that script_sim_def bitswap_script_def listening_def sim_is_loopback_def sample_env_def ipv4_is_loopback_def)
  have opts: "n_spam one_block_opts = 0" "n_providers one_block_opts = 1" "n_consumers one_block_opts = 1" "tree_depth one_block_opts = 0"
    by (simp_all add: one_block_opts_def sample_opts_def)
  obtain s' where run: "passes (bitswap ?S sample_env (\<lambda>_. one_block_lib) (\<lambda>_. [1]) ''r'' one_block_opts)
      (scripted_start sample_machines) () s'"
    by (simp add: bitswap_def bitswap_spam_def send_tree_def machines_in_def wait_event_def bitswap_flush_def
        sync_consumers_def bitswap_check_def block_event_def opts usize_add_def tree listen script_runs
        sample_machines_def slice_def to_block_def bitswap_script_def)
  have "distinct (map machine_id (sim_machines ?S (scripted_start sample_machines)))"
    by (simp add: script_sim_def sample_machines_def)
  note b = bitswap_establishes [OF script_sim_laws refl this run]
  have "sc_sent s' 1 = [FlushC, AliasC ''r'' (Some 7), SyncC 7, FlushC, GetC 7]"
    using b [unfolded Let_def, THEN conjunct2, THEN conjunct2, rule_format, of 1]
    by (simp add: script_sim_def script_view_def sample_machines_def opts spam_cmds_def opt_tree_def tree)
  with run show ?thesis by blast
qed

subsection \<open>What the simultaneous open establishes\<close>

named_theorems failing \<open>when a program returns an error\<close>

lemma fails_andthen [failing]:
  "andthen p f s = Some (Fails e, s') \<longleftrightarrow>
     p s = Some (Fails e, s') \<or> (\<exists>a s1. passes p s a s1 \<and> f a s1 = Some (Fails e, s'))"
  by (auto simp: andthen_def split: option.splits verdict.splits)

lemma fails_simple [failing]:
  "ret a s \<noteq> Some (Fails e, s')" "panic s \<noteq> Some (Fails e, s')" "unwrap x s \<noteq> Some (Fails e, s')"
  "read f s \<noteq> Some (Fails e, s')" "modify g s \<noteq> Some (Fails e, s')" "call h s \<noteq> Some (Fails e, s')"
  "send S m c s \<noteq> Some (Fails e, s')" "or_return y s = Some (Fails e, s') \<longleftrightarrow> y = Inl e \<and> s' = s"
  by (auto simp: ret_def panic_def unwrap_def read_def modify_def call_def send_def or_return_def
      split: option.splits prod.splits sum.splits)

lemma open_event_iff:
  "open_event peer e = Some (Done u) \<longleftrightarrow> e = Some (ConnectedE peer)"
  "open_event peer e = Some (Fails x) \<longleftrightarrow> e = Some (UnreachableE peer) \<and> x = ''sim open failed''"
  by (auto simp: open_event_def split: option.splits cli_event.splits)

lemma wait_connected_laws:
  assumes "sim_laws S V" "wait_connected S m peer s = Some (r, s')"
  shows "elapses S V s s'" "r = Done u \<Longrightarrow> ConnectedE peer \<in> sim_seen V s' m"
    "r = Fails x \<Longrightarrow> UnreachableE peer \<in> sim_seen V s' m \<and> x = ''sim open failed''"
  using recv_loop_laws [OF assms(1) assms(2) [unfolded wait_connected_def]] by (auto simp: open_event_iff)

lemma wait_listen_never_fails:
  assumes "sim_laws S V"
  shows "wait_listen S M limit m s \<noteq> Some (Fails e, s')"
proof
  assume "wait_listen S M limit m s = Some (Fails e, s')"
  from recv_loop_laws [OF assms this [unfolded wait_listen_def]] show False by auto
qed

lemma effect_wait_connected:
  assumes "sim_laws S V"
  shows "effect S V ms (wait_connected S m peer) silent (\<lambda>_ Y. ConnectedE peer \<in> Y m)"
  using wait_connected_laws [OF assms] by (intro effectI) (fastforce simp: elapses_def le_fun_def)+

lemma open_both_passes:
  assumes "sim_laws S V" "passes (open_both S M L parse a b) s u s'"
  shows "ConnectedE (machine_peer_id L b) \<in> sim_seen V s' (machine_id a) \<and> ConnectedE (machine_peer_id L a) \<in> sim_seen V s' (machine_id b)"
proof -
  let ?a = "machine_id a" and ?b = "machine_id b"
  have "effect S V (sim_machines S s) (open_both S M L parse a b) None
      (\<lambda>_ Y. ConnectedE (machine_peer_id L b) \<in> Y ?a \<and> ConnectedE (machine_peer_id L a) \<in> Y ?b)"
    unfolding open_both_def Let_def
    by (rule effect_weaken, rule effect_andthen [OF effect_unwrap], rule effect_andthen [OF effect_unwrap],
        rule effect_steps(2) [OF effect_ignore [OF effect_wait_listen]], rule assms(1),
        rule effect_steps(2) [OF effect_ignore [OF effect_wait_listen]], rule assms(1),
        (rule effect_steps(2) [OF effect_send_any], rule assms(1))+,
        rule effect_steps(2) [OF effect_wait_connected], rule assms(1),
        rule effect_steps(2) [OF effect_wait_connected], rule assms(1), rule effect_steps(1)) auto
  from effectD(4) [OF this refl assms(2) order_refl] show ?thesis .
qed

lemma open_both_fails:
  assumes "sim_laws S V" "open_both S M L parse a b s = Some (Fails e, s')"
  shows "e = ''sim open failed'' \<and>
    (UnreachableE (machine_peer_id L b) \<in> sim_seen V s' (machine_id a) \<or> UnreachableE (machine_peer_id L a) \<in> sim_seen V s' (machine_id b))"
  using assms(2)
  by (auto simp: open_both_def Let_def failing passing ignore_def wait_listen_never_fails [OF assms(1)]
      dest!: wait_connected_laws(3) [OF assms(1) _ refl])

lemma start_delayed_ids:
  assumes "sim_laws S V" "passes (start_delayed S show_ma any_30000 net key) s u s'"
  shows "map machine_id (sim_machines S s') = map machine_id (sim_machines S s) @ [length (sim_machines S s)]"
proof -
  from assms(2) obtain m s1 where
    "sim_spawn_machine S (config_args show_ma (cli_config_new any_30000 key)) (Some (from_millis 100)) s = (m, s1)" "s' = sim_plug S m net s1"
    by (auto simp: start_delayed_def passing)
  with spawn_laws(1,2) [OF assms(1), of "config_args show_ma (cli_config_new any_30000 key)" "Some (from_millis 100)" s]
    plug_laws(1) [OF assms(1), of m net s1]
  show ?thesis by simp
qed

lemma start_delayed_never_fails [failing]: "start_delayed S show_ma any_30000 net key s \<noteq> Some (Fails e, s')"
  by (auto simp: start_delayed_def failing)

lemma sim_open_result:
  assumes "sim_laws S V" "sim_machines S s = []" "sim_open S M L parse show_ma any_30000 unshare_user s = Some (r, s')" "r \<noteq> Panics"
  shows "(\<exists>e. unshare_user = Inl e \<and> r = Fails e) \<or>
    (\<exists>a b t. machine_id a = 0 \<and> machine_id b = 1 \<and> open_both S M L parse a b t = Some (r, s'))"
proof -
  have "\<exists>a b. sim_machines S s4 = [a, b] \<and> machine_id a = 0 \<and> machine_id b = 1"
    if "sim_random_range S s = (range, s1)" "sim_spawn_network S range s1 = (net, s2)"
      "passes (start_delayed S show_ma any_30000 net 0) s2 () s3" "passes (start_delayed S show_ma any_30000 net 1) s3 () s4"
    for range net s1 s2 s3 s4
  proof -
    have "elapses S V s (snd (sim_random_range S s))" "elapses S V s1 (snd (sim_spawn_network S range s1))"
      using assms(1) by (simp_all add: sim_laws_def)
    with that(1,2) assms(2) have "sim_machines S s2 = []" by (simp add: elapses_def)
    with start_delayed_ids [OF assms(1) that(3)] start_delayed_ids [OF assms(1) that(4)] show ?thesis
      by (auto simp: map_eq_Cons_conv)
  qed
  note two = this
  have "(\<exists>e. unshare_user = Inl e \<and> r = Fails e) \<or>
    (\<exists>range net s1 s2 s3 s4. sim_random_range S s = (range, s1) \<and> sim_spawn_network S range s1 = (net, s2) \<and>
       passes (start_delayed S show_ma any_30000 net 0) s2 () s3 \<and> passes (start_delayed S show_ma any_30000 net 1) s3 () s4 \<and>
       (case sim_machines S s4 of a # b # _ \<Rightarrow> open_both S M L parse a b | _ \<Rightarrow> panic) s4 = Some (r, s'))"
    using assms(3,4) by (cases r) (auto simp: sim_open_def passing failing)
  then show ?thesis by (force dest!: two)
qed

text \<open>
  C34. What the simulation of a simultaneous open establishes: if it passes, each of the two
  nodes has reported a connection to the other one; if it returns an error of its own, one of
  them has reported the other to be unreachable.
\<close>

theorem sim_open_establishes:
  assumes "sim_laws S V" "sim_machines S s = []" "sim_open S M L parse show_ma any_30000 unshare_user s = Some (r, s')"
  shows "(r = Done () \<longrightarrow> ConnectedE (cli_peer_id L 1) \<in> sim_seen V s' 0 \<and> ConnectedE (cli_peer_id L 0) \<in> sim_seen V s' 1) \<and>
    (\<forall>e. r = Fails e \<longrightarrow> unshare_user = Inl e \<or>
       e = ''sim open failed'' \<and> (UnreachableE (cli_peer_id L 1) \<in> sim_seen V s' 0 \<or> UnreachableE (cli_peer_id L 0) \<in> sim_seen V s' 1))"
proof -
  have ids: "machine_peer_id L m = cli_peer_id L (of_nat (machine_id m))" for m by (simp add: machine_peer_id_def)
  from sim_open_result [OF assms] show ?thesis
    by (cases r) (auto simp: ids dest!: open_both_passes [OF assms(1)] open_both_fails [OF assms(1)])
qed

text \<open>Both machines report that they listen and then the connection.\<close>

definition open_script :: "nat \<Rightarrow> protocol list cli_event list" where
  "open_script m = [NewListenAddrE [Ip4 0x0A000001, Tcp 30000], NewListenerE, ConnectedE (cli_peer_id sample_lib (if m = 0 then 1 else 0))]"

theorem sim_open_establishes_witness:
  "\<exists>s'. passes (sim_open (script_sim open_script) sample_env sample_lib (\<lambda>_. Some [Ip4 1]) (\<lambda>_. ''a'') [] (Inr ())) (scripted_start []) () s' \<and>
     ConnectedE (cli_peer_id sample_lib 1) \<in> set (open_script 0)"
proof -
  let ?S = "script_sim open_script"
  have listen: "wait_listen ?S sample_env l m s = Some (Done [Ip4 0x0A000001, Tcp 30000], s)" if "sc_sent s m = []" for l m s
    unfolding wait_listen_def by (rule recv_loop_found [where e = "Some (NewListenAddrE [Ip4 0x0A000001, Tcp 30000])"])
      (simp_all add: that script_sim_def open_script_def listening_def sim_is_loopback_def sample_env_def ipv4_is_loopback_def)
  have connect: "wait_connected ?S m p s = Some (Done (), s)" if "length (sc_sent s m) = 2" "p = cli_peer_id sample_lib (if m = 0 then 1 else 0)" for m p s
    unfolding wait_connected_def by (rule recv_loop_found [where e = "Some (ConnectedE p)"])
      (simp_all add: that script_sim_def open_script_def open_event_def)
  obtain s' where run: "passes (sim_open ?S sample_env sample_lib (\<lambda>_. Some [Ip4 1]) (\<lambda>_. ''a'') [] (Inr ())) (scripted_start []) () s'"
    by (simp add: sim_open_def start_delayed_def open_both_def machine_multiaddr_def machine_peer_id_def passing ignore_def send_def
        listen connect Let_def)
  have "sim_machines ?S (scripted_start []) = []" by simp
  from sim_open_establishes [OF script_sim_laws this run] have "ConnectedE (cli_peer_id sample_lib 1) \<in> set (open_script 0)"
    by (simp add: script_view_def)
  with run show ?thesis by blast
qed

end
