(* ===== verification/SimDiscover.thy ===== *)
theory SimDiscover
  imports SimBitswap
begin

text \<open>
  The discovery simulations \<open>discover_plain.rs\<close>, \<open>discover_nat.rs\<close> and
  \<open>discover_nat_forward.rs\<close> of \<open>src/harness/src/bin\<close>: consumers are told the addresses of the
  providers and dial them, and then both sides are asked what they have learnt of each other,
  on one network, across a NAT, and across a NAT that forwards a port.
\<close>

subsection \<open>Steps the programs share\<close>

type_synonym 'ma nodes_map = "(nat, peer_id \<times> 'ma) hashmap"

definition is_listening :: "('ma, 'z) multiaddr_api_scheme \<Rightarrow> 'ma cli_event \<Rightarrow> bool" where
  "is_listening M e = (case e of NewListenAddrE a \<Rightarrow> \<not> sim_is_loopback M a | _ \<Rightarrow> False)"

text \<open>
  A check is a \<open>select\<close> whose time limit is unwrapped. Its result, which is \<open>None\<close> when the output
  of the node has ended, is dropped.
\<close>

definition check :: "('s, 'ma) sim_api \<Rightarrow> duration \<Rightarrow> nat \<Rightarrow> nat \<Rightarrow> ('ma cli_event \<Rightarrow> 'b option option) \<Rightarrow> ('s, unit) prog" where
  "check S start d m f = ignore (by_deadline S start d (select S m f))"

definition check_draining :: "('s, 'ma) sim_api \<Rightarrow> duration \<Rightarrow> nat \<Rightarrow> nat \<Rightarrow> ('ma cli_event \<Rightarrow> 'b option option) \<Rightarrow> ('s, unit) prog" where
  "check_draining S start d m f = ignore (by_deadline S start d (select_draining S m f))"

definition await_listening :: "('s, 'ma) sim_api \<Rightarrow> ('ma, 'z) multiaddr_api_scheme \<Rightarrow> nat list \<Rightarrow> ('s, unit) prog" where
  "await_listening S M ids =
     andthen (read (sim_now S)) (\<lambda>start.
     for_each ids (\<lambda>m. check S start 5 m (matches (is_listening M))))"

definition dial_all :: "('s, 'ma) sim_api \<Rightarrow> 'ma nodes_map \<Rightarrow> 'ma nodes_map \<Rightarrow> ('s, unit) prog" where
  "dial_all S conss provs =
     for_each (hm_keys conss) (\<lambda>m.
       for_each (map snd provs) (\<lambda>(peer, addr). steps [
         send S m (AddAddressC peer addr),
         send S m (DialC peer)]))"

text \<open>\<open>Event::PeerInfo(p, i) if p == peer && i.addresses == ..\<close>\<close>

definition has_addresses :: "peer_id \<Rightarrow> ('ma \<times> string) list \<Rightarrow> 'ma cli_event \<Rightarrow> bool" where
  "has_addresses peer addrs e = (case e of PeerInfoE p i \<Rightarrow> p = peer \<and> io_addresses i = addrs | _ \<Rightarrow> False)"

subsection \<open>One network\<close>

definition discover_plain :: "('s, 'ma) sim_api \<Rightarrow> ('ma, 'z) multiaddr_api_scheme \<Rightarrow> ('c, 'd) net_lib \<Rightarrow> (string \<Rightarrow> 'ma option) \<Rightarrow>
    harness_opts \<Rightarrow> ('s, unit) prog" where
  "discover_plain S M L parse opts =
     andthen (read (sim_machines S)) (\<lambda>ms.
     andthen (unwrap (role_nodes M L parse opts Provider ms)) (\<lambda>provs.
     andthen (unwrap (role_nodes M L parse opts Consumer ms)) (\<lambda>conss.
     andthen (await_listening S M (hm_keys provs @ hm_keys conss)) (\<lambda>_.
     andthen (dial_all S conss provs) (\<lambda>_.
     andthen (read (sim_now S)) (\<lambda>start. steps [
       for_each (hm_keys conss) (\<lambda>m.
         for_each (map snd provs) (\<lambda>(peer, addr).
           check S start 5 m (matches (has_addresses peer [(addr, ''Dial'')])))),
       let expected = (if opt_disable_port_reuse opts then ''Dial'' else ''Candidate'')
       in for_each (hm_keys provs) (\<lambda>m.
            for_each (map snd conss) (\<lambda>(peer, addr).
              check S start 5 m (matches (has_addresses peer [(addr, expected)]))))]))))))"

subsection \<open>Behind a NAT\<close>

definition usize_mul :: "nat \<Rightarrow> nat \<Rightarrow> nat option" where
  "usize_mul a b = (if a * b < 2 ^ 64 then Some (a * b) else None)"

text \<open>Ranges are drawn until one differs from that of the first network.\<close>

partial_function (option) other_range :: "('s, 'ma) sim_api \<Rightarrow> nat \<Rightarrow> ('s, nat) prog" where
  "other_range S range_a s =
     (case sim_random_range S s of
        (r, s) \<Rightarrow> if r \<noteq> range_a then Some (Done r, s) else other_range S range_a s)"

definition consumer_config :: "('x, 'y) open_api \<Rightarrow> path \<Rightarrow> 'ma \<Rightarrow> harness_opts \<Rightarrow> nat \<Rightarrow> 'ma cli_config" where
  "consumer_config F temp_dir any_30000 opts i =
     \<lparr>cc_path = Some (path_join F temp_dir (decimal i)), cc_node_name = Some (''consumer-'' @ decimal i),
      cc_keypair = of_nat i, cc_enable_mdns = opt_enable_mdns opts, cc_listen_on = [any_30000],
      cc_bootstrap = [], cc_external = [], cc_disable_port_reuse = opt_disable_port_reuse opts\<rparr>"

definition start_consumers :: "('s, 'ma) sim_api \<Rightarrow> ('ma \<Rightarrow> string) \<Rightarrow> ('x, 'y) open_api \<Rightarrow> 'ma \<Rightarrow> harness_opts \<Rightarrow> path \<Rightarrow> nat \<Rightarrow>
    nat \<Rightarrow> ('s, unit) prog" where
  "start_consumers S show_ma F any_30000 opts temp_dir net_b hi =
     for_each [n_nodes opts..<hi] (\<lambda>i.
       andthen (call (sim_spawn_machine S (config_args show_ma (consumer_config F temp_dir any_30000 opts i)) None)) (\<lambda>machine.
       modify (sim_plug S machine net_b)))"

text \<open>
  The check of \<open>discover_nat\<close> with port reuse: the address the peer is connected at is a
  candidate, or no address is known. Without a connection the index panics.
\<close>

definition nat_identified :: "peer_id \<Rightarrow> 'ma cli_event \<Rightarrow> unit option option" where
  "nat_identified peer e =
     (case e of
        PeerInfoE p i \<Rightarrow>
          if p = peer then
            (case io_connections i of
               [] \<Rightarrow> None
             | c # _ \<Rightarrow> Some (if map_of (io_addresses i) c = Some ''Candidate'' \<or> io_addresses i = [] then Some () else None))
          else Some None
      | _ \<Rightarrow> Some None)"

definition dial_failed :: "peer_id \<Rightarrow> 'ma cli_event \<Rightarrow> bool" where
  "dial_failed peer e = (case e of DialFailureE p _ _ \<Rightarrow> p = peer | UnreachableE p \<Rightarrow> p = peer | _ \<Rightarrow> False)"

definition alive_event :: "peer_id \<Rightarrow> 'ma cli_event \<Rightarrow> bool option option" where
  "alive_event peer e =
     Some (case e of
        DialFailureE p _ _ \<Rightarrow> if p = peer then Some True else None
      | UnreachableE p \<Rightarrow> if p = peer then Some True else None
      | PeerRemovedE p \<Rightarrow> if p = peer then Some False else None
      | _ \<Rightarrow> None)"

text \<open>After the dial has failed the peer is removed, at the latest when peers are pruned.\<close>

definition falsify :: "('s, 'ma) sim_api \<Rightarrow> nat \<Rightarrow> peer_id \<Rightarrow> ('s, unit) prog" where
  "falsify S m peer =
     andthen (send S m (DialC peer)) (\<lambda>_.
     andthen (andthen (timeout 10 (select S m (alive_event peer))) unwrap) (\<lambda>alive.
     if alive then steps [
       send S m PrunePeersC,
       ignore (timeout 10 (select S m (matches (\<lambda>e. e = PeerRemovedE peer))))]
     else ret ()))"

definition nat_providers :: "('s, 'ma) sim_api \<Rightarrow> harness_opts \<Rightarrow> duration \<Rightarrow> 'ma nodes_map \<Rightarrow> 'ma nodes_map \<Rightarrow> ('s, unit) prog" where
  "nat_providers S opts start provs conss =
     (if opt_disable_port_reuse opts then
        for_each (hm_keys provs) (\<lambda>m.
          for_each (map snd conss) (\<lambda>(peer, _).
            check S start 10 m (matches (has_addresses peer []))))
      else steps [
        for_each (hm_keys provs) (\<lambda>m. steps [
          for_each (map snd conss) (\<lambda>(peer, _). check S start 10 m (nat_identified peer)),
          modify (sim_drain S m)]),
        for_each (hm_keys conss) (\<lambda>m. modify (sim_down S m)),
        andthen (read (sim_now S)) (\<lambda>start.
          for_each (hm_keys provs) (\<lambda>m.
            for_each (map snd conss) (\<lambda>(peer, _). steps [
              check S start 30 m (matches (\<lambda>e. e = DisconnectedE peer)),
              modify (sim_drain_matching S m (dial_failed peer)),
              falsify S m peer])))])"

text \<open>The part of the program that begins when all nodes are started.\<close>

definition nat_main :: "('s, 'ma) sim_api \<Rightarrow> ('ma, 'z) multiaddr_api_scheme \<Rightarrow> ('c, 'd) net_lib \<Rightarrow> (string \<Rightarrow> 'ma option) \<Rightarrow>
    harness_opts \<Rightarrow> nat \<Rightarrow> ('s, unit) prog" where
  "nat_main S M L parse opts hi =
     andthen (read (sim_machines S)) (\<lambda>ms.
     andthen (unwrap (nodes M L parse 0 (n_nodes opts) ms)) (\<lambda>provs.
     andthen (unwrap (nodes M L parse (n_nodes opts) hi ms)) (\<lambda>conss.
     andthen (await_listening S M (hm_keys provs @ hm_keys conss)) (\<lambda>_.
     andthen (dial_all S conss provs) (\<lambda>_.
     andthen (read (sim_now S)) (\<lambda>start.
     andthen (for_each (hm_keys conss) (\<lambda>m.
         for_each (map snd provs) (\<lambda>(peer, addr).
           check_draining S start 5 m (matches (has_addresses peer [(addr, ''Dial'')]))))) (\<lambda>_.
     andthen (read (sim_now S)) (\<lambda>start.
     nat_providers S opts start provs conss))))))))"

definition discover_nat :: "('s, 'ma) sim_api \<Rightarrow> ('ma, 'z) multiaddr_api_scheme \<Rightarrow> ('c, 'd) net_lib \<Rightarrow> (string \<Rightarrow> 'ma option) \<Rightarrow>
    ('ma \<Rightarrow> string) \<Rightarrow> ('x, 'y) open_api \<Rightarrow> 'ma \<Rightarrow> harness_opts \<Rightarrow> nat \<Rightarrow> path \<Rightarrow> ('s, unit) prog" where
  "discover_nat S M L parse show_ma F any_30000 opts net_a temp_dir =
     andthen (read (sim_network_range S net_a)) (\<lambda>range_a.
     andthen (other_range S range_a) (\<lambda>range_b.
     andthen (call (sim_spawn_network S range_b)) (\<lambda>net_b.
     andthen (modify (sim_add_nat_route S None net_a net_b)) (\<lambda>_.
     andthen (unwrap (usize_mul 2 (n_nodes opts))) (\<lambda>hi.
     andthen (start_consumers S show_ma F any_30000 opts temp_dir net_b hi) (\<lambda>_.
     nat_main S M L parse opts hi))))))"

subsection \<open>Behind a NAT that forwards a port\<close>

definition sock_addr :: "('ma, 'z) multiaddr_api_scheme \<Rightarrow> 'ma \<Rightarrow> (u32 \<times> u16) option" where
  "sock_addr M m = (case ma_iter M m of Ip4 ip # Tcp p # _ \<Rightarrow> Some (ip, p) | _ \<Rightarrow> None)"

text \<open>\<open>Event::PeerInfo(p, i) if p == peer => .. i.connections[0] ..\<close>\<close>

definition first_connection :: "peer_id \<Rightarrow> ('ma \<Rightarrow> 'b option) \<Rightarrow> 'ma cli_event \<Rightarrow> 'b option option" where
  "first_connection peer g e =
     (case e of
        PeerInfoE p i \<Rightarrow> if p = peer then (case io_connections i of [] \<Rightarrow> None | a # _ \<Rightarrow> Some (g a)) else Some None
      | _ \<Rightarrow> Some None)"

definition forward_identified :: "peer_id \<Rightarrow> 'ma \<Rightarrow> 'ma option \<Rightarrow> 'ma cli_event \<Rightarrow> bool" where
  "forward_identified peer a_1 a_nat e =
     (case e of
        PeerInfoE p i \<Rightarrow>
          p = peer \<and> (map_of (io_addresses i) a_1 = Some ''Candidate'' \<and>
            (case a_nat of None \<Rightarrow> True | Some a \<Rightarrow> map_of (io_addresses i) a = Some ''Dial''))
          \<or> io_addresses i = []
      | _ \<Rightarrow> False)"

definition forward_no_reuse :: "('s, 'ma) sim_api \<Rightarrow> ('ma, 'z) multiaddr_api_scheme \<Rightarrow> duration \<Rightarrow> nat \<Rightarrow> 'ma nodes_map \<Rightarrow> 'ma nodes_map \<Rightarrow>
    ('s, unit) prog" where
  "forward_no_reuse S M start m_nat provs conss =
     for_each (hm_keys provs) (\<lambda>m.
       for_each conss (\<lambda>(m_id, peer, _).
         if m_id = m_nat then
           andthen (andthen (by_deadline S start 5 (select S m (first_connection peer (\<lambda>a. ma_replace M a 1 (Tcp 30000))))) unwrap) (\<lambda>a_nat.
           check S start 10 m (matches (has_addresses peer [(a_nat, ''Dial'')])))
         else check S start 10 m (matches (has_addresses peer []))))"

definition forward_reuse :: "('s, 'ma) sim_api \<Rightarrow> ('ma, 'z) multiaddr_api_scheme \<Rightarrow> duration \<Rightarrow> nat \<Rightarrow> 'ma nodes_map \<Rightarrow> 'ma nodes_map \<Rightarrow>
    ('s, unit) prog" where
  "forward_reuse S M start m_nat provs conss = steps [
     for_each (hm_keys provs) (\<lambda>m. steps [
       for_each conss (\<lambda>(m_id, peer, _).
         andthen (andthen (timeout 1 (select S m (first_connection peer Some))) unwrap) (\<lambda>a_1.
         let a_nat = (case ma_replace M a_1 1 (Tcp 30000) of
               Some a \<Rightarrow> if m_id = m_nat \<and> a \<noteq> a_1 then Some a else None
             | None \<Rightarrow> None)
         in check S start 10 m (matches (forward_identified peer a_1 a_nat)))),
       modify (sim_drain S m)]),
     for_each (hm_keys conss) (\<lambda>m. modify (sim_down S m)),
     andthen (read (sim_now S)) (\<lambda>start.
       for_each (hm_keys provs) (\<lambda>m. steps [
         for_each (map snd conss) (\<lambda>(peer, _). check S start 30 m (matches (\<lambda>e. e = DisconnectedE peer))),
         modify (sim_drain S m)])),
     for_each (hm_keys provs) (\<lambda>m.
       for_each (map snd conss) (\<lambda>(peer, _). falsify S m peer))]"

definition forward_main :: "('s, 'ma) sim_api \<Rightarrow> ('ma, 'z) multiaddr_api_scheme \<Rightarrow> ('c, 'd) net_lib \<Rightarrow> (string \<Rightarrow> 'ma option) \<Rightarrow>
    harness_opts \<Rightarrow> nat \<Rightarrow> nat \<Rightarrow> nat \<Rightarrow> ('s, unit) prog" where
  "forward_main S M L parse opts net_a net_b hi =
     andthen (read (sim_machines S)) (\<lambda>ms.
     andthen (unwrap (nodes M L parse 0 (n_nodes opts) ms)) (\<lambda>provs.
     andthen (unwrap (nodes M L parse (n_nodes opts) hi ms)) (\<lambda>conss.
     andthen (unwrap (if n_nodes opts < length ms then Some (machine_id (ms ! n_nodes opts)) else None)) (\<lambda>m_nat.
     andthen (unwrap (Option.bind (hm_get conss m_nat) (\<lambda>e. sock_addr M (snd e)))) (\<lambda>sock.
     andthen (modify (sim_add_nat_route S (Some [(30000, sock)]) net_a net_b)) (\<lambda>_.
     andthen (await_listening S M (hm_keys provs @ hm_keys conss)) (\<lambda>_.
     andthen (dial_all S conss provs) (\<lambda>_.
     andthen (read (sim_now S)) (\<lambda>start.
     andthen (for_each (hm_keys conss) (\<lambda>m.
         for_each (map snd provs) (\<lambda>(peer, addr).
           check S start 5 m (matches (has_addresses peer [(addr, ''Dial'')]))))) (\<lambda>_.
     andthen (read (sim_now S)) (\<lambda>start.
     if opt_disable_port_reuse opts then forward_no_reuse S M start m_nat provs conss
     else forward_reuse S M start m_nat provs conss)))))))))))"

definition discover_nat_forward :: "('s, 'ma) sim_api \<Rightarrow> ('ma, 'z) multiaddr_api_scheme \<Rightarrow> ('c, 'd) net_lib \<Rightarrow> (string \<Rightarrow> 'ma option) \<Rightarrow>
    ('ma \<Rightarrow> string) \<Rightarrow> ('x, 'y) open_api \<Rightarrow> 'ma \<Rightarrow> harness_opts \<Rightarrow> nat \<Rightarrow> path \<Rightarrow> ('s, unit) prog" where
  "discover_nat_forward S M L parse show_ma F any_30000 opts net_a temp_dir =
     andthen (read (sim_network_range S net_a)) (\<lambda>range_a.
     andthen (other_range S range_a) (\<lambda>range_b.
     andthen (call (sim_spawn_network S range_b)) (\<lambda>net_b.
     andthen (unwrap (usize_mul 2 (n_nodes opts))) (\<lambda>hi.
     andthen (start_consumers S show_ma F any_30000 opts temp_dir net_b hi) (\<lambda>_.
     forward_main S M L parse opts net_a net_b hi)))))"

subsection \<open>What the programs establish\<close>

text \<open>A machine has reported the peer with exactly these addresses.\<close>

definition reported :: "nat \<Rightarrow> peer_id \<Rightarrow> ('ma \<times> string) list \<Rightarrow> (nat \<Rightarrow> 'ma cli_event set) \<Rightarrow> bool" where
  "reported m peer addrs Y \<longleftrightarrow> (\<exists>i. PeerInfoE peer i \<in> Y m \<and> io_addresses i = addrs)"

lemma effect_checked:
  assumes "sim_laws S V" "streams_open S"
  shows "effect S V ms (check S start d m f) silent (\<lambda>_ Y. \<exists>e \<in> Y m. \<exists>x. f e = Some (Some x))"
    "effect S V ms (check_draining S start d m f) silent (\<lambda>_ Y. \<exists>e \<in> Y m. \<exists>x. f e = Some (Some x))"
  unfolding check_def check_draining_def
  by (rule effect_weaken, rule effect_ignore, rule effect_by_deadline, rule effect_select_open [OF assms], auto simp: answered_def)+

lemma effect_matched:
  assumes "sim_laws S V" "streams_open S"
  shows "effect S V ms (check S start d m (matches P)) silent (\<lambda>_ Y. \<exists>e \<in> Y m. P e)"
    "effect S V ms (check_draining S start d m (matches P)) silent (\<lambda>_ Y. \<exists>e \<in> Y m. P e)"
  by (rule effect_weaken [OF effect_checked(1) [OF assms]] effect_weaken [OF effect_checked(2) [OF assms]];
      auto simp: matches_def split: if_splits)+

lemma has_addresses_iff: "has_addresses peer addrs e \<longleftrightarrow> (\<exists>i. e = PeerInfoE peer i \<and> io_addresses i = addrs)"
  by (auto simp: has_addresses_def split: cli_event.splits)

lemma effect_reported:
  assumes "sim_laws S V" "streams_open S"
  shows "effect S V ms (check S start d m (matches (has_addresses peer addrs))) silent (\<lambda>_. reported m peer addrs)"
    "effect S V ms (check_draining S start d m (matches (has_addresses peer addrs))) silent (\<lambda>_. reported m peer addrs)"
  by (rule effect_weaken [OF effect_matched(1) [OF assms]] effect_weaken [OF effect_matched(2) [OF assms]];
      auto simp: has_addresses_iff reported_def)+

lemma effect_cross:
  assumes "\<And>m peer addr. effect S V ms (body m peer addr) silent (\<lambda>_. G m peer addr)"
  shows "effect S V ms (for_each ks (\<lambda>m. for_each vs (\<lambda>(peer, addr). body m peer addr))) silent
    (\<lambda>_ Y. \<forall>m \<in> set ks. \<forall>(peer, addr) \<in> set vs. G m peer addr Y)"
proof -
  have "effect S V ms (for_each vs (\<lambda>(peer, addr). body m peer addr)) silent (\<lambda>_ Y. \<forall>(peer, addr) \<in> set vs. G m peer addr Y)" for m
    by (rule effect_weaken, rule effect_for_each [where c = "\<lambda>_ _. []" and G = "\<lambda>(peer, addr). G m peer addr"])
      (auto simp: assms split: prod.splits)
  from effect_for_each [where c = "\<lambda>_ _. []", OF this, of ks] show ?thesis
    by (rule effect_weaken) auto
qed

lemma effect_cross_any:
  assumes "\<And>m peer addr. effect S V ms (body m peer addr) None (\<lambda>_. G m peer addr)"
  shows "effect S V ms (for_each ks (\<lambda>m. for_each vs (\<lambda>(peer, addr). body m peer addr))) None
    (\<lambda>_ Y. \<forall>m \<in> set ks. \<forall>(peer, addr) \<in> set vs. G m peer addr Y)"
proof -
  have "effect S V ms (for_each vs (\<lambda>(peer, addr). body m peer addr)) None (\<lambda>_ Y. \<forall>(peer, addr) \<in> set vs. G m peer addr Y)" for m
    by (rule effect_weaken, rule effect_for_each_any [where G = "\<lambda>(peer, addr). G m peer addr"])
      (auto simp: assms split: prod.splits)
  from effect_for_each_any [OF this, of ks] show ?thesis
    by (rule effect_weaken) auto
qed

definition dial_cmds :: "'ma nodes_map \<Rightarrow> 'ma cli_command list" where
  "dial_cmds provs = concat (map (\<lambda>(peer, addr). [AddAddressC peer addr, DialC peer]) (map snd provs))"

lemma concat_keys: "hm_ok m \<Longrightarrow> concat (map (\<lambda>x. only x cs k) (hm_keys m)) = (if k \<in> set (hm_keys m) then cs else [])"
  using concat_one [of id "hm_keys m" k cs] by simp

lemma effect_dial_all:
  assumes "sim_laws S V" "hm_ok conss"
  shows "effect S V ms (dial_all S conss provs) (Some (\<lambda>k. if k \<in> set (hm_keys conss) then dial_cmds provs else [])) (\<lambda>_ _. True)"
proof -
  have one: "effect S V ms (case x of (peer, addr) \<Rightarrow> steps [send S m (AddAddressC peer addr), send S m (DialC peer)])
      (Some (only m (case x of (peer, addr) \<Rightarrow> [AddAddressC peer addr, DialC peer]))) (\<lambda>_ _. True)" for m x
    by (cases x) (auto intro!: effect_weaken [OF effect_steps(2) [OF effect_send effect_steps(2) [OF effect_send effect_steps(1)]]] assms(1)
        simp: fun_eq_iff simp del: for_each.simps)
  have "effect S V ms (for_each (map snd provs) (\<lambda>(peer, addr). steps [send S m (AddAddressC peer addr), send S m (DialC peer)]))
      (Some (only m (dial_cmds provs))) (\<lambda>_ _. True)" for m
    by (rule effect_weaken [OF effect_for_each [OF one]]) (auto simp: dial_cmds_def)
  note each = this
  show ?thesis unfolding dial_all_def
    by (rule effect_weaken, rule effect_for_each, rule each) (simp_all add: concat_keys [OF assms(2)] del: map_map list.set_map)
qed

lemma fold_insert_hm_ok: "hm_ok m \<Longrightarrow> hm_ok (fold (\<lambda>(k, v). hm_insert k v) es m)"
  by (induction es arbitrary: m) auto

lemma nodes_hm_ok: "nodes M L parse lo hi machines = Some H \<Longrightarrow> hm_ok H"
  by (auto simp: nodes_def fold_insert_hm_ok split: bind_splits)

lemma andthen_unwrap [simp]: "andthen (unwrap (Some a)) f = f a"
  by (rule ext) (simp add: andthen_def unwrap_def ret_def)

lemma role_nodes_hm_ok: "role_nodes M L parse opts r ms = Some H \<Longrightarrow> hm_ok H"
  by (auto simp: role_nodes_def split: bind_splits intro: nodes_hm_ok)

lemma effect_await_listening:
  assumes "sim_laws S V" "streams_open S"
  shows "effect S V ms (await_listening S M ids) silent (\<lambda>_ _. True)"
  unfolding await_listening_def
  by (rule effect_weaken, rule effect_andthen [OF effect_read], rule effect_for_each [where c = "\<lambda>_ _. []"],
      rule effect_matched(1) [OF assms]) auto

text \<open>
  C32. What a passing run of \<open>discover_plain\<close> establishes while the nodes are up: every consumer
  was told the address of every provider and to dial it, and nobody was told anything else.
  Every consumer has reported each provider with exactly that address, confirmed by a dial;
  every provider has reported each consumer with exactly its address, confirmed if ports are
  not reused and as a candidate otherwise.
\<close>

theorem discover_plain_establishes:
  assumes "sim_laws S V" "streams_open S" "passes (discover_plain S M L parse opts) s u s'"
  shows "\<exists>provs conss. role_nodes M L parse opts Provider (sim_machines S s) = Some provs \<and>
    role_nodes M L parse opts Consumer (sim_machines S s) = Some conss \<and>
    (\<forall>m. sim_sent V s' m = sim_sent V s m @ (if m \<in> set (hm_keys conss) then dial_cmds provs else [])) \<and>
    (\<forall>m \<in> set (hm_keys conss). \<forall>(peer, addr) \<in> set (map snd provs). reported m peer [(addr, ''Dial'')] (sim_seen V s')) \<and>
    (\<forall>m \<in> set (hm_keys provs). \<forall>(peer, addr) \<in> set (map snd conss).
       reported m peer [(addr, if opt_disable_port_reuse opts then ''Dial'' else ''Candidate'')] (sim_seen V s'))"
proof -
  let ?ms = "sim_machines S s" and ?exp = "if opt_disable_port_reuse opts then ''Dial'' else ''Candidate''"
  from assms(3) obtain provs conss where nodes: "role_nodes M L parse opts Provider ?ms = Some provs"
    "role_nodes M L parse opts Consumer ?ms = Some conss"
    by (auto simp: discover_plain_def passing)
  note checks = effect_cross [OF effect_reported(1) [OF assms(1,2)]]
  have "effect S V ?ms (discover_plain S M L parse opts) (Some (\<lambda>k. if k \<in> set (hm_keys conss) then dial_cmds provs else []))
    (\<lambda>_ Y. (\<forall>m \<in> set (hm_keys conss). \<forall>(peer, addr) \<in> set (map snd provs). reported m peer [(addr, ''Dial'')] Y) \<and>
      (\<forall>m \<in> set (hm_keys provs). \<forall>(peer, addr) \<in> set (map snd conss). reported m peer [(addr, ?exp)] Y))"
    unfolding discover_plain_def Let_def
    by (rule effect_weaken, rule effect_andthen [OF effect_machines], hypsubst, unfold nodes andthen_unwrap,
        rule effect_andthen [OF effect_await_listening [OF assms(1,2)]],
        rule effect_andthen [OF effect_dial_all [OF assms(1) role_nodes_hm_ok [OF nodes(2)]]], rule effect_andthen [OF effect_read],
        rule effect_steps(2) [OF checks effect_steps(2) [OF checks effect_steps(1)]]) auto
  from effectD [OF this refl assms(3)] nodes show ?thesis by auto
qed

lemma alive_event_iff:
  "alive_event peer e = Some (Some alive) \<longleftrightarrow> (if alive then dial_failed peer e else e = PeerRemovedE peer)"
  by (auto simp: alive_event_def dial_failed_def split: cli_event.splits)

lemma effect_falsify:
  assumes "sim_laws S V" "streams_open S"
  shows "effect S V ms (falsify S m peer) None (\<lambda>_ Y. PeerRemovedE peer \<in> Y m)"
proof -
  have prune: "effect S V ms (if alive then steps [send S m PrunePeersC,
      ignore (timeout 10 (select S m (matches (\<lambda>e. e = PeerRemovedE peer))))] else ret ()) None
      (\<lambda>_ Y. alive \<longrightarrow> PeerRemovedE peer \<in> Y m)" for alive
  proof (cases alive)
    case True
    show ?thesis unfolding if_P [OF True]
      by (rule effect_weaken [OF effect_steps(2) [OF effect_send_any [OF assms(1)] effect_steps(2) [OF
              effect_ignore [OF effect_timeout [OF effect_select_open(1) [OF assms]]] effect_steps(1)]]])
        (auto simp: answered_def matches_def split: if_splits)
  qed (auto intro: effect_weaken [OF effect_ret])
  show ?thesis unfolding falsify_def
    by (rule effect_weaken [OF effect_andthen [OF effect_send_any [OF assms(1)] effect_andthen [OF
          effect_unwrapped [OF effect_timeout [OF effect_select(1) [OF assms(1)]]] prune]]])
      (auto simp: alive_event_iff split: if_splits)
qed

text \<open>What the providers have seen of the consumers, with and without port reuse.\<close>

definition nat_seen :: "harness_opts \<Rightarrow> nat \<Rightarrow> peer_id \<Rightarrow> (nat \<Rightarrow> 'ma cli_event set) \<Rightarrow> bool" where
  "nat_seen opts m peer Y \<longleftrightarrow>
     (if opt_disable_port_reuse opts then reported m peer [] Y
      else DisconnectedE peer \<in> Y m \<and> PeerRemovedE peer \<in> Y m)"

lemma effect_any: "effect S V ms p cs G \<Longrightarrow> effect S V ms p None G"
  by (rule effect_weaken) auto

lemma effect_nat_providers:
  assumes "sim_laws S V" "streams_open S"
  shows "effect S V ms (nat_providers S opts start provs conss) None
    (\<lambda>_ Y. \<forall>m \<in> set (hm_keys provs). \<forall>(peer, _) \<in> set (map snd conss). nat_seen opts m peer Y)"
proof (cases "opt_disable_port_reuse opts")
  case True
  show ?thesis unfolding nat_providers_def if_P [OF True]
    by (rule effect_weaken [OF effect_cross [OF effect_reported(1) [OF assms]]]) (simp_all add: nat_seen_def True)
next
  case False
  have "effect S V ms (steps [for_each (map snd conss) (\<lambda>(peer, _). check S start 10 m (nat_identified peer)),
      modify (sim_drain S m)]) None (\<lambda>_ _. True)" for m
    by (rule effect_weaken, rule effect_steps(2) [OF _ effect_steps(2) [OF effect_quiet(1) [OF assms(1)] effect_steps(1)]],
        rule effect_for_each_any [where G = "\<lambda>_ _. True"])
      (auto split: prod.splits intro: effect_weaken [OF effect_checked(1) [OF assms]])
  note identify = effect_for_each_any [OF this]
  have down: "effect S V ms (for_each (hm_keys conss) (\<lambda>m. modify (sim_down S m))) None (\<lambda>_ Y. \<forall>m \<in> set (hm_keys conss). True)"
    by (rule effect_for_each_any, rule effect_any, rule effect_quiet(3) [OF assms(1)])
  have "effect S V ms (steps [check S start 30 m (matches (\<lambda>e. e = DisconnectedE peer)),
      modify (sim_drain_matching S m (dial_failed peer)), falsify S m peer]) None (\<lambda>_. nat_seen opts m peer)" for start m peer
    by (rule effect_weaken [OF effect_steps(2) [OF effect_matched(1) [OF assms] effect_steps(2) [OF effect_quiet(2) [OF assms(1)]
            effect_steps(2) [OF effect_falsify [OF assms] effect_steps(1)]]]]) (auto simp: nat_seen_def False)
  note checked = effect_cross_any [OF this]
  show ?thesis unfolding nat_providers_def if_not_P [OF False]
    by (rule effect_weaken, rule effect_steps(2) [OF identify effect_steps(2) [OF down effect_steps(2) [OF _ effect_steps(1)]]],
        rule effect_andthen [OF effect_read checked]) auto
qed

text \<open>
  C33. What a passing run of \<open>discover_nat\<close> establishes while the nodes are up: every consumer
  has reported each provider with exactly the address it was told, confirmed by a dial. Every
  provider has reported each consumer without any address, if ports are not reused; otherwise
  it has reported that the consumer disconnected and that the consumer was removed.
\<close>

theorem discover_nat_establishes:
  assumes "sim_laws S V" "streams_open S" "passes (discover_nat S M L parse show_ma F any_30000 opts net_a dir) s u s'"
  shows "\<exists>provs conss. nodes M L parse 0 (n_nodes opts) (sim_machines S s') = Some provs \<and>
    nodes M L parse (n_nodes opts) (2 * n_nodes opts) (sim_machines S s') = Some conss \<and>
    (\<forall>m \<in> set (hm_keys conss). \<forall>(peer, addr) \<in> set (map snd provs). reported m peer [(addr, ''Dial'')] (sim_seen V s')) \<and>
    (\<forall>m \<in> set (hm_keys provs). \<forall>(peer, _) \<in> set (map snd conss). nat_seen opts m peer (sim_seen V s'))"
proof -
  from assms(3) obtain t where run: "passes (nat_main S M L parse opts (2 * n_nodes opts)) t u s'"
    by (auto simp: discover_nat_def passing usize_mul_def split: if_splits)
  let ?ms = "sim_machines S t"
  from run obtain provs conss where nodes: "nodes M L parse 0 (n_nodes opts) ?ms = Some provs"
    "nodes M L parse (n_nodes opts) (2 * n_nodes opts) ?ms = Some conss"
    by (auto simp: nat_main_def passing)
  have "effect S V ?ms (nat_main S M L parse opts (2 * n_nodes opts)) None
    (\<lambda>_ Y. (\<forall>m \<in> set (hm_keys conss). \<forall>(peer, addr) \<in> set (map snd provs). reported m peer [(addr, ''Dial'')] Y) \<and>
      (\<forall>m \<in> set (hm_keys provs). \<forall>(peer, _) \<in> set (map snd conss). nat_seen opts m peer Y))"
    unfolding nat_main_def
    by (rule effect_weaken, rule effect_andthen [OF effect_machines], hypsubst, unfold nodes andthen_unwrap,
        rule effect_andthen [OF effect_await_listening [OF assms(1,2)]],
        rule effect_andthen [OF effect_dial_all [OF assms(1) nodes_hm_ok [OF nodes(2)]]], rule effect_andthen [OF effect_read],
        rule effect_andthen [OF effect_cross [OF effect_reported(2) [OF assms(1,2)]]], rule effect_andthen [OF effect_read],
        rule effect_nat_providers [OF assms(1,2)]) auto
  from effectD(1,4) [OF this refl run] nodes show ?thesis by auto
qed

text \<open>What the providers have seen of the consumers across a NAT that forwards a port to \<open>m_nat\<close>.\<close>

definition forward_seen :: "('ma, 'z) multiaddr_api_scheme \<Rightarrow> harness_opts \<Rightarrow> nat \<Rightarrow> nat \<Rightarrow> nat \<Rightarrow> peer_id \<Rightarrow>
    (nat \<Rightarrow> 'ma cli_event set) \<Rightarrow> bool" where
  "forward_seen M opts m_nat m m_id peer Y \<longleftrightarrow>
     (if \<not> opt_disable_port_reuse opts then DisconnectedE peer \<in> Y m \<and> PeerRemovedE peer \<in> Y m
      else if m_id = m_nat then
        \<exists>i a as a_nat. PeerInfoE peer i \<in> Y m \<and> io_connections i = a # as \<and> ma_replace M a 1 (Tcp 30000) = Some a_nat \<and>
          reported m peer [(a_nat, ''Dial'')] Y
      else reported m peer [] Y)"

lemma first_connection_iff:
  "first_connection peer g e = Some (Some x) \<longleftrightarrow> (\<exists>i a as. e = PeerInfoE peer i \<and> io_connections i = a # as \<and> g a = Some x)"
  by (auto simp: first_connection_def split: cli_event.splits list.splits)

lemma effect_forward_no_reuse:
  assumes "sim_laws S V" "streams_open S" "opt_disable_port_reuse opts"
  shows "effect S V ms (forward_no_reuse S M start m_nat provs conss) None
    (\<lambda>_ Y. \<forall>m \<in> set (hm_keys provs). \<forall>(m_id, peer, _) \<in> set conss. forward_seen M opts m_nat m m_id peer Y)"
proof -
  let ?body = "\<lambda>m m_id peer.
     if m_id = m_nat then
       andthen (andthen (by_deadline S start 5 (select S m (first_connection peer (\<lambda>a. ma_replace M a 1 (Tcp 30000))))) unwrap) (\<lambda>a_nat.
       check S start 10 m (matches (has_addresses peer [(a_nat, ''Dial'')])))
     else check S start 10 m (matches (has_addresses peer []))"
  have body: "effect S V ms (?body m m_id peer) None (\<lambda>_. forward_seen M opts m_nat m m_id peer)" for m m_id peer
  proof (cases "m_id = m_nat")
    case True
    show ?thesis unfolding if_P [OF True]
      by (rule effect_weaken, rule effect_andthen [OF effect_unwrapped [OF effect_by_deadline [OF effect_select(1) [OF assms(1)]]]],
          rule effect_reported(1) [OF assms(1,2)])
        (auto simp: forward_seen_def True assms(3) first_connection_iff)
  next
    case False
    show ?thesis unfolding if_not_P [OF False]
      by (rule effect_weaken [OF effect_reported(1) [OF assms(1,2)]]) (auto simp: forward_seen_def False assms(3))
  qed
  have "effect S V ms (for_each conss (\<lambda>(m_id, peer, _). ?body m m_id peer)) None
      (\<lambda>_ Y. \<forall>(m_id, peer, _) \<in> set conss. forward_seen M opts m_nat m m_id peer Y)" for m
    by (rule effect_weaken, rule effect_for_each_any [where G = "\<lambda>(m_id, peer, _). forward_seen M opts m_nat m m_id peer"])
      (auto simp: body split: prod.splits)
  from effect_for_each_any [OF this, of "hm_keys provs"] show ?thesis
    unfolding forward_no_reuse_def by (rule effect_weaken) auto
qed

lemma effect_forward_reuse:
  assumes "sim_laws S V" "streams_open S" "\<not> opt_disable_port_reuse opts"
  shows "effect S V ms (forward_reuse S M start m_nat provs conss) None
    (\<lambda>_ Y. \<forall>m \<in> set (hm_keys provs). \<forall>(m_id, peer, _) \<in> set conss. forward_seen M opts m_nat m m_id peer Y)"
proof -
  let ?id = "\<lambda>m m_id peer. andthen (andthen (timeout 1 (select S m (first_connection peer Some))) unwrap) (\<lambda>a_1.
         let a_nat = (case ma_replace M a_1 1 (Tcp 30000) of
               Some a \<Rightarrow> if m_id = m_nat \<and> a \<noteq> a_1 then Some a else None
             | None \<Rightarrow> None)
         in check S start 10 m (matches (forward_identified peer a_1 a_nat)))"
  have "effect S V ms (?id m m_id peer) None (\<lambda>_ _. True)" for m m_id peer
    unfolding Let_def
    by (rule effect_weaken, rule effect_andthen [OF effect_unwrapped [OF effect_timeout [OF effect_select(1) [OF assms(1)]]]],
        rule effect_weaken [OF effect_matched(1) [OF assms(1,2)], where ds = silent]) auto
  then have "effect S V ms (steps [for_each conss (\<lambda>(m_id, peer, _). ?id m m_id peer), modify (sim_drain S m)]) None (\<lambda>_ _. True)" for m
    by (intro effect_weaken [OF effect_steps(2) [OF effect_for_each_any [where G = "\<lambda>_ _. True"]
            effect_steps(2) [OF effect_quiet(1) [OF assms(1)] effect_steps(1)]]]) (auto split: prod.splits)
  note identify = effect_for_each_any [OF this]
  have down: "effect S V ms (for_each (hm_keys conss) (\<lambda>m. modify (sim_down S m))) None (\<lambda>_ Y. \<forall>m \<in> set (hm_keys conss). True)"
    by (rule effect_for_each_any, rule effect_any, rule effect_quiet(3) [OF assms(1)])
  have "effect S V ms (steps [for_each (map snd conss) (\<lambda>(peer, _). check S start 30 m (matches (\<lambda>e. e = DisconnectedE peer))),
      modify (sim_drain S m)]) None (\<lambda>_ Y. \<forall>(peer, _) \<in> set (map snd conss). DisconnectedE peer \<in> Y m)" for start m
    by (rule effect_weaken [OF effect_steps(2) [OF effect_for_each_any [where G = "\<lambda>(peer, _) Y. DisconnectedE peer \<in> Y m"]
            effect_steps(2) [OF effect_quiet(1) [OF assms(1)] effect_steps(1)]]])
      (auto split: prod.splits intro: effect_weaken [OF effect_matched(1) [OF assms(1,2)]])
  note gone = effect_for_each_any [OF this]
  show ?thesis unfolding forward_reuse_def
    by (rule effect_weaken, rule effect_steps(2) [OF identify effect_steps(2) [OF down effect_steps(2) [OF _ effect_steps(2) [OF
            effect_cross_any [OF effect_falsify [OF assms(1,2)]] effect_steps(1)]]]],
        rule effect_andthen [OF effect_read gone]) (force simp: forward_seen_def assms(3))+
qed

text \<open>
  What a passing run of \<open>discover_nat_forward\<close> establishes while the nodes are up: every
  consumer has reported each provider with exactly the address it was told. If ports are not
  reused, every provider has reported the consumer whose port is forwarded with exactly one
  address, the one it is connected at with the forwarded port, and each other consumer without
  any; otherwise it has reported that the consumer disconnected and that it was removed.
\<close>

lemma discover_nat_forward_establishes:
  assumes "sim_laws S V" "streams_open S" "passes (discover_nat_forward S M L parse show_ma F any_30000 opts net_a dir) s u s'"
  shows "\<exists>provs conss. nodes M L parse 0 (n_nodes opts) (sim_machines S s') = Some provs \<and>
    nodes M L parse (n_nodes opts) (2 * n_nodes opts) (sim_machines S s') = Some conss \<and>
    (\<forall>m \<in> set (hm_keys conss). \<forall>(peer, addr) \<in> set (map snd provs). reported m peer [(addr, ''Dial'')] (sim_seen V s')) \<and>
    (\<forall>m \<in> set (hm_keys provs). \<forall>(m_id, peer, _) \<in> set conss.
       forward_seen M opts (machine_id (sim_machines S s' ! n_nodes opts)) m m_id peer (sim_seen V s'))"
proof -
  from assms(3) obtain net_b t where run: "passes (forward_main S M L parse opts net_a net_b (2 * n_nodes opts)) t u s'"
    by (auto simp: discover_nat_forward_def passing usize_mul_def split: if_splits)
  let ?ms = "sim_machines S t" and ?nat = "machine_id (sim_machines S t ! n_nodes opts)"
  from run obtain provs conss sock where nodes: "nodes M L parse 0 (n_nodes opts) ?ms = Some provs"
    "nodes M L parse (n_nodes opts) (2 * n_nodes opts) ?ms = Some conss" "n_nodes opts < length ?ms"
    and sock: "Option.bind (hm_get conss ?nat) (\<lambda>e. sock_addr M (snd e)) = Some sock"
    by (auto simp: forward_main_def passing split: if_splits)
  have providers: "effect S V ?ms (if opt_disable_port_reuse opts then forward_no_reuse S M start ?nat provs conss
      else forward_reuse S M start ?nat provs conss) None
    (\<lambda>_ Y. \<forall>m \<in> set (hm_keys provs). \<forall>(m_id, peer, _) \<in> set conss. forward_seen M opts ?nat m m_id peer Y)" for start
    by (cases "opt_disable_port_reuse opts")
      (simp_all only: if_True if_False not_False_eq_True effect_forward_no_reuse [OF assms(1,2)] effect_forward_reuse [OF assms(1,2)])
  have route: "effect S V ?ms (modify (sim_add_nat_route S c net_a net_b)) silent (\<lambda>_ _. True)" for c
    using assms(1) by (intro effect_elapses) (simp add: sim_laws_def)
  have "effect S V ?ms (forward_main S M L parse opts net_a net_b (2 * n_nodes opts)) None
    (\<lambda>_ Y. (\<forall>m \<in> set (hm_keys conss). \<forall>(peer, addr) \<in> set (map snd provs). reported m peer [(addr, ''Dial'')] Y) \<and>
      (\<forall>m \<in> set (hm_keys provs). \<forall>(m_id, peer, _) \<in> set conss. forward_seen M opts ?nat m m_id peer Y))"
    unfolding forward_main_def
    by (rule effect_weaken, rule effect_andthen [OF effect_machines], hypsubst, unfold nodes(1,2) if_P [OF nodes(3)] andthen_unwrap sock,
        rule effect_andthen [OF route], rule effect_andthen [OF effect_await_listening [OF assms(1,2)]],
        rule effect_andthen [OF effect_dial_all [OF assms(1) nodes_hm_ok [OF nodes(2)]]], rule effect_andthen [OF effect_read],
        rule effect_andthen [OF effect_cross [OF effect_reported(1) [OF assms(1,2)]]], rule effect_andthen [OF effect_read],
        rule providers) auto
  from effectD(1,4) [OF this refl run] nodes show ?thesis by auto
qed

subsection \<open>Checks that hold too easily\<close>

text \<open>
  In \<open>discover_nat_forward\<close> the report of any peer without addresses identifies every consumer;
  in \<open>discover_nat\<close> only a report of the consumer itself does.
\<close>

lemma forward_identified_by_others:
  assumes "io_addresses i = []" "q \<noteq> peer"
  shows "forward_identified peer a_1 a_nat (PeerInfoE q i)" "nat_identified peer (PeerInfoE q i) = Some None"
  using assms by (simp_all add: forward_identified_def nat_identified_def)

text \<open>The nodes are gone: receiving and selecting find the end of their output at once.\<close>

definition streams_ended :: "('s, 'ma) sim_api \<Rightarrow> bool" where
  "streams_ended S \<longleftrightarrow> (\<forall>m t s. fst (sim_recv S m t s) = Finished None) \<and>
     (\<forall>m t P s. fst (sim_select S m t P s) = Finished None \<and> fst (sim_select_draining S m t P s) = Finished None)"

definition clock_ok :: "('s, 'ma) sim_api \<Rightarrow> bool" where
  "clock_ok S \<longleftrightarrow> (\<forall>s. sim_now S s + from_millis 100 \<le> DURATION_MAX)"

definition always_passes :: "('s, 'a) prog \<Rightarrow> bool" where
  "always_passes p \<longleftrightarrow> (\<forall>s. \<exists>a s'. passes p s a s')"

lemma always_passes_intros:
  "always_passes (ret a)" "always_passes (read f)" "always_passes (modify g)" "always_passes (send S m c)"
  "always_passes p \<Longrightarrow> (\<And>a. always_passes (h a)) \<Longrightarrow> always_passes (andthen p h)"
  by (auto simp: always_passes_def ret_def read_def modify_def send_def passing) blast

lemma always_passes_for_each: "(\<And>x. x \<in> set xs \<Longrightarrow> always_passes (body x)) \<Longrightarrow> always_passes (for_each xs body)"
  by (induction xs) (auto intro: always_passes_intros)

lemma always_passes_case: "(\<And>a b. always_passes (f a b)) \<Longrightarrow> always_passes (case x of (a, b) \<Rightarrow> f a b)"
  by (cases x) simp

lemma always_passes_steps:
  "always_passes (steps [])" "always_passes p \<Longrightarrow> always_passes (steps ps) \<Longrightarrow> always_passes (steps (p # ps))"
  by (auto intro: always_passes_intros)

lemma always_passes_check:
  assumes "streams_ended S" "clock_ok S"
  shows "always_passes (check S start d m f)"
proof -
  have "\<exists>s'. passes (check S start d m f) s () s'" if "deadline (sim_now S s - start) d = Some t" for s t
  proof -
    let ?P = "\<lambda>e. map_option (\<lambda>r. r \<noteq> None) (f e)"
    have "fst (sim_select S m t ?P s) = Finished None" using assms(1) unfolding streams_ended_def by blast
    then obtain s' where eq: "sim_select S m t ?P s = (Finished None, s')" by (metis prod.collapse)
    have "passes (awaiting (sim_select S m t) f) s None s'"
      unfolding awaiting_def eq by simp
    with that show ?thesis unfolding check_def ignore_def by_deadline_def select_def by (auto simp: passing)
  qed
  moreover have "\<exists>t. deadline (sim_now S s - start) d = Some t" for s
  proof -
    have "sim_now S s - start + from_millis 100 \<le> DURATION_MAX" using assms(2) [unfolded clock_ok_def, rule_format, of s] by simp
    then show ?thesis by (simp add: deadline_def dur_add_def Let_def)
  qed
  ultimately show ?thesis unfolding always_passes_def by metis
qed

lemma always_passes_plain:
  assumes "streams_ended S" "clock_ok S" "role_nodes M L parse opts Provider (sim_machines S s) = Some provs"
    "role_nodes M L parse opts Consumer (sim_machines S s) = Some conss"
  shows "\<exists>s'. passes (discover_plain S M L parse opts) s () s'"
proof -
  note check = always_passes_check [OF assms(1,2)]
  have "always_passes (andthen (await_listening S M (hm_keys provs @ hm_keys conss)) (\<lambda>_.
     andthen (dial_all S conss provs) (\<lambda>_.
     andthen (read (sim_now S)) (\<lambda>start. steps [
       for_each (hm_keys conss) (\<lambda>m.
         for_each (map snd provs) (\<lambda>(peer, addr).
           check S start 5 m (matches (has_addresses peer [(addr, ''Dial'')])))),
       let expected = (if opt_disable_port_reuse opts then ''Dial'' else ''Candidate'')
       in for_each (hm_keys provs) (\<lambda>m.
            for_each (map snd conss) (\<lambda>(peer, addr).
              check S start 5 m (matches (has_addresses peer [(addr, expected)]))))]))))"
    unfolding await_listening_def dial_all_def Let_def
    by (intro always_passes_intros always_passes_steps always_passes_for_each always_passes_case check)
  from this [unfolded always_passes_def, rule_format, of s] assms(3,4) show ?thesis
    by (auto simp: discover_plain_def passing)
qed

lemma bitswap_spins:
  assumes "streams_ended S" "usize_add (n_providers opts) (n_consumers opts) \<noteq> None" "sim_machines S s \<noteq> []"
  shows "bitswap S M Bs enc root opts s = None"
proof -
  obtain m ms where "sim_machines S s = m # ms" using assms(3) by (cases "sim_machines S s") auto
  moreover have "wait_listen S M l k s = None" for l k
    unfolding wait_listen_def by (rule recv_loop_spins) (use assms(1) in \<open>simp_all add: streams_ended_def listening_def\<close>)
  ultimately show ?thesis
    using assms(2) by (auto simp: bitswap_def andthen_def unwrap_def ret_def read_def ignore_def split: option.splits)
qed

text \<open>
  C38. What happens when the nodes are gone, that is, when their output has ended: nevertheless
  \<open>discover_plain\<close> passes, since its checks drop the result of \<open>select\<close>; and \<open>bitswap\<close> never ends,
  since its first loop goes on receiving.
\<close>

theorem nodes_gone:
  assumes "streams_ended S" "clock_ok S" "sim_machines S s \<noteq> []"
    "role_nodes M L parse opts Provider (sim_machines S s) = Some provs"
    "role_nodes M L parse opts Consumer (sim_machines S s) = Some conss"
  shows "(\<exists>s'. passes (discover_plain S M L parse opts) s () s') \<and> bitswap S M Bs enc root opts s = None"
proof -
  have "usize_add (n_providers opts) (n_consumers opts) \<noteq> None"
    using assms(5) by (auto simp: role_nodes_def split: bind_splits)
  with always_passes_plain [OF assms(1,2,4,5)] bitswap_spins [OF assms(1)] assms(3) show ?thesis by blast
qed

subsection \<open>Sample runs\<close>

lemma script_find:
  assumes "\<exists>e \<in> set (script m). P e"
  shows "\<exists>e. script_select script m t (\<lambda>e. map_option (\<lambda>r. r \<noteq> None) (matches P e)) s = (Finished (Some e), s) \<and> P e"
proof -
  have P: "(\<lambda>e. map_option (\<lambda>r. r \<noteq> None) (matches P e) = Some True) = P" by (auto simp: matches_def)
  obtain e where "List.find P (script m) = Some e" "P e"
    using assms find_None_iff [of P "script m"] find_Some_iff [of P "script m"] by (cases "List.find P (script m)") metis+
  then show ?thesis unfolding script_select_def P by simp
qed

lemma script_check [simp]:
  assumes "\<exists>e \<in> set (script m). P e"
  shows "check (script_sim script) start d m (matches P) s = Some (Done (), s)"
    "check_draining (script_sim script) start d m (matches P) s = Some (Done (), s)"
proof -
  have "\<exists>t. deadline 0 d = Some t" by (simp add: deadline_def dur_add_def DURATION_MAX_def from_millis_def Let_def)
  then obtain t where t: "deadline 0 d = Some t" ..
  obtain e where e: "script_select script m t (\<lambda>e. map_option (\<lambda>r. r \<noteq> None) (matches P e)) s = (Finished (Some e), s)" "P e"
    using script_find [of script m P t s, OF assms] by blast
  have "awaiting (script_select script m t) (matches P) s = Some (Done (Some ()), s)"
    unfolding awaiting_def e(1) using e(2) by (simp add: matches_def unwrap_def ret_def)
  then show "check (script_sim script) start d m (matches P) s = Some (Done (), s)"
    "check_draining (script_sim script) start d m (matches P) s = Some (Done (), s)"
    by (simp_all add: check_def check_draining_def ignore_def by_deadline_def select_def select_draining_def andthen_def read_def ret_def t)
qed

abbreviation sample_parse :: "string \<Rightarrow> protocol list option" where
  "sample_parse \<equiv> \<lambda>_. Some [Ip4 1, Tcp 30000]"

definition sample_peer :: "nat \<Rightarrow> peer_id" where
  "sample_peer i = cli_peer_id sample_lib (of_nat i)"

definition io_with :: "('ma \<times> string) list \<Rightarrow> 'ma list \<Rightarrow> 'ma peer_info_io" where
  "io_with addrs conns = \<lparr>io_protocol_version = None, io_agent_version = None, io_protocols = [], io_listeners = [],
     io_addresses = addrs, io_connections = conns, io_failures = []\<rparr>"

definition sample_addr :: "nat \<Rightarrow> protocol list" where
  "sample_addr i = [Ip4 1, Tcp 30000, P2p (sample_peer i)]"

definition plain_script :: "nat \<Rightarrow> protocol list cli_event list" where
  "plain_script m = [NewListenAddrE [Ip4 1, Tcp 30000], PeerInfoE (sample_peer 0) (io_with [(sample_addr 0, ''Dial'')] []),
     PeerInfoE (sample_peer 1) (io_with [(sample_addr 1, ''Candidate'')] [])]"

lemma sample_roles:
  "role_nodes sample_env sample_lib sample_parse sample_opts Provider sample_machines = Some [(0, sample_peer 0, sample_addr 0)]"
  "role_nodes sample_env sample_lib sample_parse sample_opts Consumer sample_machines = Some [(1, sample_peer 1, sample_addr 1)]"
  by (simp_all add: role_nodes_def nodes_def slice_def usize_add_def sample_opts_def sample_machines_def node_entry_def
      machine_multiaddr_def machine_peer_id_def Let_def sample_peer_def sample_addr_def sample_env_def)

lemma sample_listens: "is_listening sample_env (NewListenAddrE [Ip4 1, Tcp 30000])"
  by (simp add: is_listening_def sim_is_loopback_def sample_env_def ipv4_is_loopback_def)

theorem discover_plain_establishes_witness:
  "\<exists>s'. passes (discover_plain (script_sim plain_script) sample_env sample_lib sample_parse sample_opts) (scripted_start sample_machines) () s' \<and>
     sc_sent s' 1 = [AddAddressC (sample_peer 0) (sample_addr 0), DialC (sample_peer 0)] \<and> sc_sent s' 0 = []"
proof -
  let ?S = "script_sim plain_script"
  have io: "\<exists>e \<in> set (plain_script m). is_listening sample_env e" "\<exists>e \<in> set (plain_script m). has_addresses (sample_peer 0) [(sample_addr 0, ''Dial'')] e"
    "\<exists>e \<in> set (plain_script m). has_addresses (sample_peer 1) [(sample_addr 1, ''Candidate'')] e" for m
    using sample_listens by (simp_all add: plain_script_def has_addresses_def io_with_def)
  have "opt_disable_port_reuse sample_opts = False" by (simp add: sample_opts_def)
  then obtain s' where run: "passes (discover_plain ?S sample_env sample_lib sample_parse sample_opts) (scripted_start sample_machines) () s'"
    by (simp add: discover_plain_def passing sample_roles await_listening_def dial_all_def io [simplified] send_def Let_def)
  from discover_plain_establishes [OF script_sim_laws script_sim_open run] run show ?thesis
    by (auto simp: sample_roles script_view_def dial_cmds_def)
qed

definition nat_opts :: harness_opts where
  "nat_opts = sample_opts\<lparr>n_nodes := 1, opt_disable_port_reuse := True\<rparr>"

abbreviation one_machine :: "machine list" where
  "one_machine \<equiv> [\<lparr>machine_id = 0, machine_addr = ''10.0.0.1''\<rparr>]"

lemma nat_nodes:
  assumes "ms = [\<lparr>machine_id = 0, machine_addr = x\<rparr>, \<lparr>machine_id = Suc 0, machine_addr = y\<rparr>]"
  shows "nodes sample_env sample_lib sample_parse 0 (Suc 0) ms = Some [(0, sample_peer 0, sample_addr 0)]"
    "nodes sample_env sample_lib sample_parse (Suc 0) 2 ms = Some [(Suc 0, sample_peer (Suc 0), sample_addr (Suc 0))]"
  by (simp_all add: assms nodes_def slice_def node_entry_def machine_multiaddr_def machine_peer_id_def Let_def sample_peer_def
      sample_addr_def sample_env_def)

lemma script_range: "other_range (script_sim script) 1 s = Some (Done 0, s)"
  by (subst other_range.simps) simp

lemmas nat_runs = passing script_range [simplified] start_consumers_def usize_mul_def upt_rec await_listening_def dial_all_def send_def

definition nat_script :: "nat \<Rightarrow> protocol list cli_event list" where
  "nat_script m = [NewListenAddrE [Ip4 1, Tcp 30000], PeerInfoE (sample_peer 0) (io_with [(sample_addr 0, ''Dial'')] []),
     PeerInfoE (sample_peer 1) (io_with [] [])]"

theorem discover_nat_establishes_witness:
  "\<exists>s'. passes (discover_nat (script_sim nat_script) sample_env sample_lib sample_parse (\<lambda>_. ''a'') sample_fs [] nat_opts 0 ''t'')
      (scripted_start one_machine) () s' \<and>
     nodes sample_env sample_lib sample_parse 1 2 (sc_machines s') \<noteq> None"
proof -
  let ?S = "script_sim nat_script"
  have io: "\<exists>e \<in> set (nat_script m). is_listening sample_env e" "\<exists>e \<in> set (nat_script m). has_addresses (sample_peer 0) [(sample_addr 0, ''Dial'')] e"
    "\<exists>e \<in> set (nat_script m). has_addresses (sample_peer (Suc 0)) [] e" for m
    using sample_listens by (simp_all add: nat_script_def has_addresses_def io_with_def)
  have opts: "opt_disable_port_reuse nat_opts" "n_nodes nat_opts = Suc 0" by (simp_all add: nat_opts_def)
  obtain s' where run: "passes (discover_nat ?S sample_env sample_lib sample_parse (\<lambda>_. ''a'') sample_fs [] nat_opts 0 ''t'')
      (scripted_start one_machine) () s'"
    by (simp add: discover_nat_def nat_main_def nat_providers_def opts nat_runs nat_nodes io)
  from discover_nat_establishes [OF script_sim_laws script_sim_open run] run show ?thesis by (auto simp: opts)
qed

definition forward_script :: "nat \<Rightarrow> protocol list cli_event list" where
  "forward_script m = NewListenAddrE [Ip4 1, Tcp 30000] #
     (if m = 0 then [PeerInfoE (sample_peer 1) (io_with [([Ip4 9, Tcp 30000], ''Dial'')] [[Ip4 9, Tcp 5]])]
      else [PeerInfoE (sample_peer 0) (io_with [(sample_addr 0, ''Dial'')] [])])"

lemma discover_nat_forward_establishes_sample:
  "\<exists>s'. passes (discover_nat_forward (script_sim forward_script) sample_env sample_lib sample_parse (\<lambda>_. ''a'') sample_fs [] nat_opts 0 ''t'')
      (scripted_start one_machine) () s' \<and>
     nodes sample_env sample_lib sample_parse 1 2 (sc_machines s') \<noteq> None"
proof -
  let ?S = "script_sim forward_script"
  have io: "\<exists>e \<in> set (forward_script m). is_listening sample_env e"
    "\<exists>e \<in> set (forward_script (Suc 0)). has_addresses (sample_peer 0) [(sample_addr 0, ''Dial'')] e"
    "\<exists>e \<in> set (forward_script 0). has_addresses (sample_peer (Suc 0)) [([Ip4 9, Tcp 30000], ''Dial'')] e" for m
    using sample_listens by (simp_all add: forward_script_def has_addresses_def io_with_def)
  have opts: "opt_disable_port_reuse nat_opts" "n_nodes nat_opts = Suc 0" by (simp_all add: nat_opts_def)
  have first: "passes (by_deadline ?S start d (select ?S 0 (first_connection (sample_peer (Suc 0)) (\<lambda>a. ma_replace sample_env a (Suc 0) (Tcp 30000))))) s a s'
      \<longleftrightarrow> a = Some [Ip4 9, Tcp 30000] \<and> s' = s" for start d s a s'
    by (auto simp: script_runs forward_script_def first_connection_def io_with_def sample_env_def list_replace_def)
  have sock: "sock_addr sample_env (sample_addr (Suc 0)) = Some (1, 30000)"
    by (simp add: sock_addr_def sample_addr_def sample_env_def)
  obtain s' where run: "passes (discover_nat_forward ?S sample_env sample_lib sample_parse (\<lambda>_. ''a'') sample_fs [] nat_opts 0 ''t'')
      (scripted_start one_machine) () s'"
    by (simp add: discover_nat_forward_def forward_main_def forward_no_reuse_def opts nat_runs nat_nodes io first sock)
  from discover_nat_forward_establishes [OF script_sim_laws script_sim_open run] run show ?thesis by (auto simp: opts)
qed

text \<open>A simulator without nodes.\<close>

definition gone_sim :: "('ma scripted, 'ma) sim_api" where
  "gone_sim = (script_sim (\<lambda>_. []))\<lparr>sim_recv := (\<lambda>m t s. (Finished None, s)),
     sim_select := (\<lambda>m t P s. (Finished None, s)), sim_select_draining := (\<lambda>m t P s. (Finished None, s))\<rparr>"

theorem nodes_gone_witness:
  "(\<exists>s'. passes (discover_plain gone_sim sample_env sample_lib sample_parse sample_opts) (scripted_start sample_machines) () s') \<and>
   bitswap gone_sim sample_env (\<lambda>_. one_block_lib) (\<lambda>_. []) ''r'' sample_opts (scripted_start sample_machines) = None"
proof -
  have gone: "streams_ended (gone_sim :: (protocol list scripted, protocol list) sim_api)" "clock_ok (gone_sim :: (protocol list scripted, protocol list) sim_api)"
    by (simp_all add: gone_sim_def streams_ended_def clock_ok_def from_millis_def DURATION_MAX_def)
  have ms: "sim_machines (gone_sim :: (protocol list scripted, protocol list) sim_api) (scripted_start sample_machines) = sample_machines"
    by (simp add: gone_sim_def)
  show ?thesis
    by (rule nodes_gone [OF gone]) (simp_all add: ms sample_roles, simp add: sample_machines_def)
qed

end
