(* ===== verification/NetTests.thy ===== *)
theory NetTests
  imports BookProperties "HOL-Library.Multiset"
begin

text \<open>
  The unit tests of the address book, \<open>src/src/net/tests.rs\<close>, run on the model: a test is a
  list of calls and of assertions on the events, dials and records they lead to.
\<close>

subsection \<open>Tests\<close>

datatype 'ma test_dial = DialA 'ma | DialP peer_id "'ma list"

text \<open>\<open>dials\<close>: the queued actions are taken; a dial of a peer shows its addresses.\<close>

definition dials :: "'ma address_book \<Rightarrow> 'ma test_dial list \<times> 'ma address_book" where
  "dials b =
     (map (\<lambda>a. case a of
        DialAction _ (IntoAddressHandler (Some (address, _)) False) \<Rightarrow> DialA address
      | DialAction opts _ \<Rightarrow> DialP (opts_peer opts) (addresses_of_peer (opts_peer opts) b)) (actions b),
      b\<lparr>actions := []\<rparr>)"

definition addrs :: "'ma address_book \<Rightarrow> peer_id \<Rightarrow> ('ma \<times> address_source) list option" where
  "addrs b peer = map_option (\<lambda>info. map (\<lambda>(a, s, _). (a, s)) (shown_addresses info)) (hm_get (peers b) peer)"

text \<open>
  A step of a test. The lists of dials and of addresses are sorted before they are compared,
  hence compared as multisets. The subscriber of the events is the sender 0.
\<close>

datatype 'ma book_test =
    Call "'ma book_op"
  | ExpectEvents "'ma event list"
  | ExpectDials "'ma test_dial list"
  | ExpectAddrs peer_id "('ma \<times> address_source) list"
  | ExpectPeers "peer_id list"
  | ExpectFailures peer_id "(connection_failure_kind \<times> 'ma \<times> string \<times> string) list"

fun book_test_step :: "'ma env \<Rightarrow> 'ma book_test \<Rightarrow> nat \<times> 'ma address_book \<Rightarrow> (nat \<times> 'ma address_book) option" where
  "book_test_step E (Call op) (seen, b) = map_option (Pair seen) (book_step E op b)"
| "book_test_step E (ExpectEvents evs) (seen, b) =
     (let all = delivered (sent b) 0 in if drop seen all = evs then Some (length all, b) else None)"
| "book_test_step E (ExpectDials ds) (seen, b) =
     (let (now, b) = dials b in if mset now = mset ds then Some (seen, b) else None)"
| "book_test_step E (ExpectAddrs peer as) (seen, b) =
     (case addrs b peer of Some now \<Rightarrow> if mset now = mset as then Some (seen, b) else None | None \<Rightarrow> None)"
| "book_test_step E (ExpectPeers ps) (seen, b) = (if map fst (peers b) = ps then Some (seen, b) else None)"
| "book_test_step E (ExpectFailures peer fs) (seen, b) =
     (case hm_get (peers b) peer of
        Some info \<Rightarrow>
          if map (\<lambda>f. (cf_kind f, cf_addr f, cf_display f, cf_debug f)) (recent_failures info) = fs
          then Some (seen, b) else None
      | None \<Rightarrow> None)"

definition book_test_passes :: "'ma env \<Rightarrow> 'ma address_book \<Rightarrow> 'ma book_test list \<Rightarrow> bool" where
  "book_test_passes E b ts \<longleftrightarrow> run_steps (book_test_step E) ts (0, swarm_events 0 b) \<noteq> None"

subsection \<open>How errors print\<close>

definition custom_error :: "string \<Rightarrow> io_error" where
  "custom_error m = IoError (OtherKind ''Other'') (Some (InnerOther m))"

fun error_message :: "io_error \<Rightarrow> string" where
  "error_message (IoError _ (Some (InnerOther m))) = m"
| "error_message _ = ''''"

definition error_debug :: "io_error \<Rightarrow> string" where
  "error_debug e = ''Custom { kind: Other, error: '' @ [CHR 0x22] @ error_message e @ [CHR 0x22] @ '' }''"

definition test_env :: "protocol list env" where
  "test_env = sample_env\<lparr>fmt_io_error := error_message,
     fmt_transport_error := (\<lambda>_. ''''),
     source_transport_error := (\<lambda>e. case e of TransportOther e \<Rightarrow> Some (error_message e) | _ \<Rightarrow> None),
     dbg_transport_error := (\<lambda>e. case e of TransportOther e \<Rightarrow> ''Other('' @ error_debug e @ '')'' | _ \<Rightarrow> ''''),
     fmt_dial_error := (\<lambda>e. case e of
        ConnectionIo e \<Rightarrow> ''Dial error: An I/O error occurred on the connection: '' @ error_debug e @ ''.'' | _ \<Rightarrow> ''''),
     dbg_dial_error := (\<lambda>e. case e of ConnectionIo e \<Rightarrow> ''ConnectionIo('' @ error_debug e @ '')'' | _ \<Rightarrow> '''')\<rparr>"

abbreviation io_failure :: "string \<Rightarrow> string" where
  "io_failure m \<equiv> ''Dial error: An I/O error occurred on the connection: '' @ error_debug (custom_error m) @ ''.''"

subsection \<open>The tests\<close>

abbreviation addr_1 :: "protocol list" where "addr_1 \<equiv> [Ip4 0x01010101, Tcp 3333]"
abbreviation addr_2 :: "protocol list" where "addr_2 \<equiv> [Ip4 0x02020202, Tcp 3333]"

definition test_dial_basic :: "peer_id \<Rightarrow> protocol list book_test list" where
  "test_dial_basic peer_a =
     (let addr_1p = addr_1 @ [P2p peer_a]; addr_2p = addr_2 @ [P2p peer_a]
      in [Call (OpAddAddress peer_a addr_1 Mdns),
          ExpectEvents [NewInfo peer_a],
          ExpectDials [DialA addr_1p],
          Call (OpAddAddress peer_a addr_1p User),
          ExpectEvents [Discovered peer_a, NewInfo peer_a],
          Call (OpAddAddress peer_a addr_2 Incoming),
          ExpectEvents [NewInfo peer_a],
          ExpectPeers [peer_a],
          Call (OpDialFailure (Some peer_a) (IntoAddressHandler (Some (addr_1, 3)) False)
            (ConnectionIo (custom_error ''my error''))),
          ExpectEvents [DialFailure peer_a addr_1 (io_failure ''my error''), NewInfo peer_a],
          Call (OpDialFailure (Some peer_a) (IntoAddressHandler None False)
            (Transport [(addr_2, TransportOther (custom_error ''my other error''))])),
          ExpectEvents
            [DialFailure peer_a addr_2 (''Other('' @ error_debug (custom_error ''my other error'') @ '')''),
             Unreachable peer_a, NewInfo peer_a],
          ExpectPeers [peer_a],
          ExpectFailures peer_a
            [(KindDialError, addr_2, ''transport error: my other error'', ''Other('' @ error_debug (custom_error ''my other error'') @ '')''),
             (KindDialError, addr_1, ''I/O error: my error'', ''ConnectionIo('' @ error_debug (custom_error ''my error'') @ '')'')],
          ExpectDials [],
          ExpectAddrs peer_a [(addr_1p, User), (addr_2p, Incoming)],
          Call (OpRemoveAddress peer_a addr_1p),
          Call (OpRemoveAddress peer_a addr_2p),
          ExpectAddrs peer_a [],
          Call (OpAddAddress peer_a addr_2 Kad),
          ExpectAddrs peer_a [(addr_2p, Kad)],
          ExpectEvents [NewInfo peer_a],
          Call (OpAddAddress peer_a addr_2 User),
          ExpectAddrs peer_a [(addr_2p, User)],
          ExpectEvents [Discovered peer_a, NewInfo peer_a]])"

text \<open>A peer behind the host of its container, which advertises its ports and its inner address.\<close>

abbreviation addr_a_1 :: "protocol list" where "addr_a_1 \<equiv> [Ip4 0x0A000002, Tcp 4001]"
abbreviation addr_b_1 :: "protocol list" where "addr_b_1 \<equiv> [Ip4 0x0A00000A, Tcp 57634]"
abbreviation addr_b_2 :: "protocol list" where "addr_b_2 \<equiv> [Ip4 0x0A00000A, Tcp 4001]"
abbreviation addr_b_3 :: "protocol list" where "addr_b_3 \<equiv> [Ip4 0xAC110003, Tcp 4001]"
abbreviation addr_b_4 :: "protocol list" where "addr_b_4 \<equiv> [Ip4 0x7F000001, Tcp 4001]"

definition identified :: "protocol list list \<Rightarrow> protocol list identify_info" where
  "identified as = \<lparr>id_protocol_version = ''my protocol'', id_agent_version = ''my agent'',
     id_protocols = [''my proto''], id_listen_addrs = as\<rparr>"

definition from_docker_host :: "peer_id \<Rightarrow> peer_id \<Rightarrow> protocol list book_test list" where
  "from_docker_host peer_a peer_b =
     (let addr_a_1p = addr_a_1 @ [P2p peer_a]; addr_b_1p = addr_b_1 @ [P2p peer_b];
          addr_b_2p = addr_b_2 @ [P2p peer_b]; addr_b_3p = addr_b_3 @ [P2p peer_b];
          cp = Listener addr_a_1p addr_b_1p; cp2 = Dialer addr_b_2p EndpointDialer
      in [Call (OpConnectionEstablished peer_b cp 0),
          ExpectEvents [NewInfo peer_b, Connected peer_b, ConnectionEstablished peer_b cp],
          ExpectDials [],
          ExpectAddrs peer_b [(addr_b_1p, Incoming)],
          Call (OpSetInfo peer_b (identified [addr_b_2, addr_b_3, addr_b_4])),
          ExpectEvents [NewInfo peer_b],
          ExpectDials [DialA addr_b_2p, DialA addr_b_3p],
          ExpectAddrs peer_b [(addr_b_2p, Listen), (addr_b_3p, Listen)],
          Call (OpConnectionEstablished peer_b cp2 0),
          ExpectEvents [Discovered peer_b, NewInfo peer_b, Connected peer_b, ConnectionEstablished peer_b cp2],
          ExpectDials [],
          ExpectAddrs peer_b [(addr_b_2p, Dial), (addr_b_3p, Listen)],
          Call (OpDialFailure (Some peer_b) (IntoAddressHandler (Some (addr_b_3p, 3)) False)
            (ConnectionIo (custom_error ''did not work, mate!''))),
          ExpectEvents [DialFailure peer_b addr_b_3p (io_failure ''did not work, mate!''), NewInfo peer_b],
          ExpectDials [],
          ExpectAddrs peer_b [(addr_b_2p, Dial)]])"

definition from_docker_container :: "peer_id \<Rightarrow> peer_id \<Rightarrow> protocol list book_test list" where
  "from_docker_container peer_a peer_b =
     (let addr_a_1p = addr_a_1 @ [P2p peer_a]; addr_b_1p = addr_b_1 @ [P2p peer_b];
          addr_b_2p = addr_b_2 @ [P2p peer_b]; addr_b_3p = addr_b_3 @ [P2p peer_b];
          cp = Listener addr_a_1p addr_b_1p; cp2 = Dialer addr_b_2p EndpointDialer
      in [Call (OpConnectionEstablished peer_b cp 0),
          ExpectEvents [NewInfo peer_b, Connected peer_b, ConnectionEstablished peer_b cp],
          ExpectDials [],
          ExpectAddrs peer_b [(addr_b_1p, Incoming)],
          Call (OpSetInfo peer_b (identified [addr_b_3, addr_b_4])),
          ExpectEvents [NewInfo peer_b],
          ExpectDials [DialA addr_b_2p, DialA addr_b_3p],
          ExpectAddrs peer_b [(addr_b_2p, Listen), (addr_b_3p, Listen)],
          Call (OpSetInfo peer_b (identified [addr_b_2, addr_b_3, addr_b_4])),
          ExpectEvents [NewInfo peer_b],
          ExpectDials [],
          ExpectAddrs peer_b [(addr_b_2p, Listen), (addr_b_3p, Listen)],
          Call (OpDialFailure (Some peer_b) (IntoAddressHandler (Some (addr_b_3p, 3)) False)
            (ConnectionIo (custom_error ''play it again, Sam''))),
          ExpectEvents [DialFailure peer_b addr_b_3p (io_failure ''play it again, Sam''), NewInfo peer_b],
          ExpectDials [],
          ExpectAddrs peer_b [(addr_b_2p, Listen)],
          Call (OpConnectionEstablished peer_b cp2 0),
          ExpectEvents [Discovered peer_b, NewInfo peer_b, Connected peer_b, ConnectionEstablished peer_b cp2],
          ExpectDials [],
          ExpectAddrs peer_b [(addr_b_2p, Dial)],
          Call (OpDialFailure (Some peer_b) (IntoAddressHandler (Some (addr_b_2p, 3)) False)
            (ConnectionIo (custom_error ''play it yet another time, Sam''))),
          ExpectEvents [DialFailure peer_b addr_b_2p (io_failure ''play it yet another time, Sam''), NewInfo peer_b],
          ExpectDials [],
          ExpectAddrs peer_b [(addr_b_2p, Dial)],
          ExpectFailures peer_b
            [(KindDialError, addr_b_2, ''I/O error: play it yet another time, Sam'',
              ''ConnectionIo('' @ error_debug (custom_error ''play it yet another time, Sam'') @ '')''),
             (KindDialError, addr_b_3, ''I/O error: play it again, Sam'',
              ''ConnectionIo('' @ error_debug (custom_error ''play it again, Sam'') @ '')'')]])"

text \<open>The model passes the tests of the code.\<close>

lemma test_dial_basic_passes: "book_test_passes test_env (book_new 0 False False False) (test_dial_basic 1)"
  by code_simp

lemma from_docker_host_passes: "book_test_passes test_env (book_new 1 False False False) (from_docker_host 1 2)"
  by code_simp

lemma from_docker_container_passes: "book_test_passes test_env (book_new 1 False False False) (from_docker_container 1 2)"
  by code_simp

end
