(* ===== verification/Dags.thy ===== *)
theory Dags
  imports CliMain
begin

text \<open>
  Blocks refer to blocks. What the documentation of the storage says about aliases, temporary
  pins and the garbage collector is stated in terms of the blocks that can be reached.
\<close>

subsection \<open>Reachable blocks\<close>

text \<open>The references of a block are found by decoding it, which may fail.\<close>

type_synonym decoder = "block_data \<Rightarrow> string + cid list"

definition edges :: "decoder \<Rightarrow> store_spec \<Rightarrow> (cid \<times> cid) set" where
  "edges refs m = {(c, c'). \<exists>x cs. blocks m c = Some x \<and> refs x = Inr cs \<and> c' \<in> set cs}"

definition closure :: "decoder \<Rightarrow> store_spec \<Rightarrow> cid set \<Rightarrow> cid set" where
  "closure refs m R = (edges refs m)\<^sup>* `` R"

definition roots :: "store_spec \<Rightarrow> cid set" where
  "roots m = ran (alias_map m)"

lemma closure_least:
  assumes "R \<subseteq> X" "edges refs m `` X \<subseteq> X"
  shows "closure refs m R \<subseteq> X"
proof
  fix z
  assume "z \<in> closure refs m R"
  then obtain y where "(y, z) \<in> (edges refs m)\<^sup>*" "y \<in> R" by (auto simp: closure_def)
  then show "z \<in> X" using assms by (induction rule: rtrancl_induct) auto
qed

lemma closure_roots: "R \<subseteq> closure refs m R"
  by (auto simp: closure_def)

lemma closure_step: "c \<in> closure refs m R \<Longrightarrow> (c, c') \<in> edges refs m \<Longrightarrow> c' \<in> closure refs m R"
  by (auto simp: closure_def intro: rtrancl_into_rtrancl)

lemma closure_mono: "R \<subseteq> S \<Longrightarrow> closure refs m R \<subseteq> closure refs m S"
  by (auto simp: closure_def)

lemma closure_empty [simp]: "closure refs m {} = {}"
  by (simp add: closure_def)

lemma closure_Un: "closure refs m (R \<union> S) = closure refs m R \<union> closure refs m S"
  by (auto simp: closure_def)

text \<open>The closure of a graph without cycles, block by block.\<close>

definition children :: "decoder \<Rightarrow> store_spec \<Rightarrow> cid \<Rightarrow> cid list" where
  "children refs m c = (case blocks m c of None \<Rightarrow> [] | Some x \<Rightarrow> (case refs x of Inl _ \<Rightarrow> [] | Inr cs \<Rightarrow> cs))"

lemma edges_children: "(c, d) \<in> edges refs m \<longleftrightarrow> d \<in> set (children refs m c)"
  by (cases "blocks m c"; cases "refs (the (blocks m c))") (simp_all add: edges_def children_def)

lemma closure_unfold: "closure refs m {c} = insert c (closure refs m (set (children refs m c)))"
proof
  show "insert c (closure refs m (set (children refs m c))) \<subseteq> closure refs m {c}"
    by (auto simp: closure_def edges_children [symmetric] intro: converse_rtrancl_into_rtrancl)
  show "closure refs m {c} \<subseteq> insert c (closure refs m (set (children refs m c)))"
  proof (rule closure_least)
    show "edges refs m `` insert c (closure refs m (set (children refs m c))) \<subseteq> insert c (closure refs m (set (children refs m c)))"
      using closure_roots closure_step by (fastforce simp: edges_children)
  qed simp
qed

lemma closure_more: "closure refs m (insert c (insert d R)) = closure refs m {c} \<union> closure refs m (insert d R)"
  using closure_Un [of refs m "{c}" "insert d R"] by (simp add: insert_commute)

text \<open>What is kept of the blocks that can be reached determines what can be reached.\<close>

lemma closure_kept:
  assumes "blocks m' \<subseteq>\<^sub>m blocks m" "\<And>c. c \<in> closure refs m R \<Longrightarrow> blocks m' c = blocks m c"
  shows "closure refs m' R = closure refs m R"
proof
  show "closure refs m' R \<subseteq> closure refs m R"
  proof (rule closure_least [OF closure_roots])
    show "edges refs m' `` closure refs m R \<subseteq> closure refs m R"
      using assms(2) by (auto simp: edges_def intro: closure_step)
  qed
  show "closure refs m R \<subseteq> closure refs m' R"
  proof -
    have "closure refs m R \<subseteq> closure refs m R \<inter> closure refs m' R"
    proof (rule closure_least)
      show "edges refs m `` (closure refs m R \<inter> closure refs m' R) \<subseteq> closure refs m R \<inter> closure refs m' R"
        using assms(2) by (fastforce simp: edges_def intro: closure_step)
    qed (simp add: closure_roots)
    then show ?thesis by blast
  qed
qed

text \<open>A new block that refers to what is there.\<close>

lemma closure_insert:
  assumes "blocks m c = None \<or> blocks m c = Some x" "refs x = Inr cs" "set cs \<subseteq> closure refs m R"
  shows "closure refs (m\<lparr>blocks := (blocks m)(c \<mapsto> x)\<rparr>) (insert c R) \<subseteq> insert c (closure refs m R)"
proof (rule closure_least)
  show "insert c R \<subseteq> insert c (closure refs m R)" using closure_roots by blast
  show "edges refs (m\<lparr>blocks := (blocks m)(c \<mapsto> x)\<rparr>) `` insert c (closure refs m R) \<subseteq> insert c (closure refs m R)"
    using assms(2,3) by (auto simp: edges_def split: if_splits intro: closure_step)
qed

subsection \<open>The documented behaviour of the block store\<close>

text \<open>
  \<open>pins s\<close> are the blocks named by temporary pins. An alias prevents everything that can be
  reached from it from being collected; a collection never deletes what is pinned and changes
  no alias.
\<close>

definition pinned :: "decoder \<Rightarrow> store_spec \<Rightarrow> cid set \<Rightarrow> cid set" where
  "pinned refs m P = closure refs m (roots m \<union> P)"

definition aliases_reaching :: "decoder \<Rightarrow> store_spec \<Rightarrow> cid \<Rightarrow> bytes set" where
  "aliases_reaching refs m c = {a. \<exists>r. alias_map m a = Some r \<and> c \<in> closure refs m {r}}"

lemma aliases_reaching_simps:
  "aliases_reaching refs \<lparr>blocks = B, alias_map = Map.empty\<rparr> c = {}"
  "aliases_reaching refs \<lparr>blocks = B, alias_map = f(a := None)\<rparr> c = aliases_reaching refs \<lparr>blocks = B, alias_map = f\<rparr> c - {a}"
  "aliases_reaching refs \<lparr>blocks = B, alias_map = f(a \<mapsto> r)\<rparr> c =
     (if c \<in> closure refs \<lparr>blocks = B, alias_map = f\<rparr> {r} then insert a else id)
       (aliases_reaching refs \<lparr>blocks = B, alias_map = f\<rparr> c - {a})"
proof -
  have same: "closure refs \<lparr>blocks = B, alias_map = g\<rparr> R = closure refs \<lparr>blocks = B, alias_map = f\<rparr> R" for g R
    by (simp add: closure_def edges_def)
  show "aliases_reaching refs \<lparr>blocks = B, alias_map = Map.empty\<rparr> c = {}" by (simp add: aliases_reaching_def)
  show "aliases_reaching refs \<lparr>blocks = B, alias_map = f(a := None)\<rparr> c = aliases_reaching refs \<lparr>blocks = B, alias_map = f\<rparr> c - {a}"
    by (auto simp: aliases_reaching_def same [of "f(a := None)"])
  show "aliases_reaching refs \<lparr>blocks = B, alias_map = f(a \<mapsto> r)\<rparr> c =
     (if c \<in> closure refs \<lparr>blocks = B, alias_map = f\<rparr> {r} then insert a else id)
       (aliases_reaching refs \<lparr>blocks = B, alias_map = f\<rparr> c - {a})"
    by (auto simp: aliases_reaching_def same [of "f(a \<mapsto> r)"])
qed

definition query_law :: "('s \<Rightarrow> store_spec) \<Rightarrow> ('s \<Rightarrow> cid set) \<Rightarrow> ('s, 'r) tx \<Rightarrow> (store_spec \<Rightarrow> 'r \<Rightarrow> bool) \<Rightarrow> bool" where
  "query_law view pins f P \<longleftrightarrow> (\<forall>s r s'. f s = (r, s') \<longrightarrow> view s' = view s \<and> pins s' = pins s \<and> (\<forall>x. r = Inr x \<longrightarrow> P (view s) x))"

lemma query_lawD:
  assumes "query_law view pins f P" "f s = (r, s')"
  shows "view s' = view s" "pins s' = pins s" "r = Inr x \<Longrightarrow> P (view s) x"
  using assms by (auto simp: query_law_def)

definition dag_laws :: "'s store_api \<Rightarrow> ('s \<Rightarrow> store_spec) \<Rightarrow> ('s \<Rightarrow> cid set) \<Rightarrow> decoder \<Rightarrow> bool" where
  "dag_laws A view pins refs \<longleftrightarrow>
     (\<forall>c. query_law view pins (tx_reverse_alias A c) (\<lambda>m r. case r of
        None \<Rightarrow> blocks m c = None | Some as \<Rightarrow> blocks m c \<noteq> None \<and> set as = aliases_reaching refs m c)) \<and>
     query_law view pins (tx_block_cids A) (\<lambda>m cs. set cs = dom (blocks m)) \<and>
     (\<forall>c. query_law view pins (tx_missing_blocks A c) (\<lambda>m cs. set cs = closure refs m {c} - dom (blocks m))) \<and>
     (\<forall>c. query_law view pins (tx_get_block A c) (\<lambda>_ _. True)) \<and>
     query_law view pins (tx_commit A) (\<lambda>_ _. True) \<and>
     query_law view pins (db_flush A) (\<lambda>_ _. True) \<and>
     (\<forall>c x p s. pins (snd (tx_put_block A c x p s)) = pins s) \<and>
     (\<forall>a c s. pins (snd (tx_alias A a c s)) = pins s) \<and>
     (\<forall>s. pins (tx_drop A s) = pins s) \<and>
     (\<forall>m t s. let s' = snd (db_incremental_gc A m t s)
        in pins s' = pins s \<and> alias_map (view s') = alias_map (view s) \<and> blocks (view s') \<subseteq>\<^sub>m blocks (view s) \<and>
           (\<forall>c \<in> pinned refs (view s) (pins s). blocks (view s') c = blocks (view s) c))"

lemma dag_lawsD:
  assumes "dag_laws A view pins refs"
  shows "tx_commit A s = (r, s') \<Longrightarrow> pins s' = pins s" "db_flush A s = (r, s') \<Longrightarrow> view s' = view s \<and> pins s' = pins s"
    "tx_put_block A c x p s = (r, s') \<Longrightarrow> pins s' = pins s" "tx_alias A a root s = (r, s') \<Longrightarrow> pins s' = pins s"
    "tx_get_block A c s = (q, s') \<Longrightarrow> pins s' = pins s" "tx_drop A s = t \<Longrightarrow> pins t = pins s"
    "tx_block_cids A s = (Inr cs, s') \<Longrightarrow> set cs = dom (blocks (view s))"
proof -
  have q: "query_law view pins (tx_commit A) (\<lambda>_ _. True)" "query_law view pins (db_flush A) (\<lambda>_ _. True)"
    "query_law view pins (tx_get_block A c) (\<lambda>_ _. True)" "query_law view pins (tx_block_cids A) (\<lambda>m cs. set cs = dom (blocks m))"
    using assms by (simp_all add: dag_laws_def)
  show "tx_commit A s = (r, s') \<Longrightarrow> pins s' = pins s" by (rule query_lawD [OF q(1)])
  show "db_flush A s = (r, s') \<Longrightarrow> view s' = view s \<and> pins s' = pins s" using query_lawD [OF q(2)] by blast
  show "tx_get_block A c s = (q, s') \<Longrightarrow> pins s' = pins s" by (rule query_lawD [OF q(3)])
  show "tx_block_cids A s = (Inr cs, s') \<Longrightarrow> set cs = dom (blocks (view s))" by (rule query_lawD(3) [OF q(4) _ refl])
  have "pins (snd (tx_put_block A c x p s)) = pins s" "pins (snd (tx_alias A a root s)) = pins s" "pins (tx_drop A s) = pins s"
    using assms by (simp_all add: dag_laws_def)
  then show "tx_put_block A c x p s = (r, s') \<Longrightarrow> pins s' = pins s" "tx_alias A a root s = (r, s') \<Longrightarrow> pins s' = pins s"
    "tx_drop A s = t \<Longrightarrow> pins t = pins s" by auto
qed

text \<open>
  A store that keeps no blocks beyond the pinned ones: a collection that is done has removed
  the others. And one whose collections make progress.
\<close>

definition no_cache :: "'s store_api \<Rightarrow> ('s \<Rightarrow> store_spec) \<Rightarrow> ('s \<Rightarrow> cid set) \<Rightarrow> decoder \<Rightarrow> bool" where
  "no_cache A view pins refs \<longleftrightarrow> (\<forall>m t s s'. db_incremental_gc A m t s = (Inr True, s') \<longrightarrow>
     dom (blocks (view s')) \<subseteq> pinned refs (view s') (pins s'))"

definition gc_progress :: "'s store_api \<Rightarrow> ('s \<Rightarrow> nat) \<Rightarrow> bool" where
  "gc_progress A weight \<longleftrightarrow> (\<forall>m t s s'. db_incremental_gc A m t s = (Inr False, s') \<longrightarrow> weight s' < weight s)"

subsection \<open>Evicting\<close>

text \<open>What a collection may do between two states of the store.\<close>

definition collected :: "('s \<Rightarrow> store_spec) \<Rightarrow> ('s \<Rightarrow> cid set) \<Rightarrow> decoder \<Rightarrow> 's \<Rightarrow> 's \<Rightarrow> bool" where
  "collected view pins refs s s' \<longleftrightarrow>
     pins s' = pins s \<and> alias_map (view s') = alias_map (view s) \<and> blocks (view s') \<subseteq>\<^sub>m blocks (view s) \<and>
     (\<forall>c \<in> pinned refs (view s) (pins s). blocks (view s') c = blocks (view s) c)"

lemma collected_pinned: "collected view pins refs s s' \<Longrightarrow> pinned refs (view s') (pins s') = pinned refs (view s) (pins s)"
  unfolding pinned_def collected_def roots_def by (simp add: closure_kept)

lemma collected_refl [simp]: "collected view pins refs s s"
  by (simp add: collected_def)

lemma collected_trans: "collected view pins refs s s' \<Longrightarrow> collected view pins refs s' s'' \<Longrightarrow> collected view pins refs s s''"
  using collected_pinned [of view pins refs s s'] by (auto simp: collected_def intro: map_le_trans)

lemma gc_collects: "dag_laws A view pins refs \<Longrightarrow> collected view pins refs s (snd (db_incremental_gc A m t s))"
  unfolding dag_laws_def collected_def Let_def by blast

text \<open>
  \<open>evict\<close> keeps everything that is pinned; without a cache, nothing else is left when it
  reports success.
\<close>

lemma evict_collects:
  assumes "dag_laws A view pins refs" "gc_progress A weight"
  shows "\<exists>r d'. evict A d = Some (r, d') \<and> collected view pins refs (store d) (store d') \<and>
    (no_cache A view pins refs \<and> r = Inr () \<longrightarrow> dom (blocks (view (store d'))) \<subseteq> pinned refs (view (store d)) (pins (store d)))"
proof -
  obtain r s' where e: "evict_loop A (gc_min_blocks d) (gc_target_duration d) (store d) = Some (r, s')"
    "collected view pins refs (store d) s'"
    "r = Inr () \<longrightarrow> (\<exists>s0. collected view pins refs (store d) s0 \<and>
       db_incremental_gc A (gc_min_blocks d) (gc_target_duration d) s0 = (Inr True, s'))"
  proof -
    have "collected view pins refs (store d) (snd (db_incremental_gc A (gc_min_blocks d) (gc_target_duration d) s))"
      if "collected view pins refs (store d) s" for s
      using that gc_collects [OF assms(1)] by (rule collected_trans)
    from evict_loop_returns [of A "gc_min_blocks d" "gc_target_duration d" weight "collected view pins refs (store d)",
        OF _ collected_refl this] assms(2) that show thesis
      unfolding gc_progress_def by blast
  qed
  then have "evict A d = Some (r, d\<lparr>store := s'\<rparr>)" by (simp add: evict_def)
  moreover have "dom (blocks (view s')) \<subseteq> pinned refs (view (store d)) (pins (store d))"
    if "no_cache A view pins refs" "r = Inr ()"
    using that e(3) collected_pinned [OF e(2)] unfolding no_cache_def by metis
  ultimately show ?thesis using e(2) by fastforce
qed

subsection \<open>A store of graphs\<close>

text \<open>
  A store in memory that behaves as documented: it collects one block at a time and keeps none
  beyond those that can be reached from an alias.
\<close>

definition edge_list :: "decoder \<Rightarrow> (cid, block_data) hashmap \<Rightarrow> (cid \<times> cid) list" where
  "edge_list refs bs = concat (map (\<lambda>c. case hm_get bs c of
     None \<Rightarrow> [] | Some x \<Rightarrow> (case refs x of Inl _ \<Rightarrow> [] | Inr cs \<Rightarrow> map (Pair c) cs)) (hm_keys bs))"

definition reached :: "decoder \<Rightarrow> (cid, block_data) hashmap \<Rightarrow> cid list \<Rightarrow> cid set" where
  "reached refs bs cs = set cs \<union> (set (edge_list refs bs))\<^sup>+ `` set cs"

definition alias_targets :: "(bytes, cid) hashmap \<Rightarrow> cid list" where
  "alias_targets as = map (\<lambda>a. the (hm_get as a)) (hm_keys as)"

definition collect_one :: "decoder \<Rightarrow> list_db \<Rightarrow> (string + bool) \<times> list_db" where
  "collect_one refs s =
     (let live = reached refs (fst s) (alias_targets (snd s))
      in case filter (\<lambda>c. c \<notin> live) (hm_keys (fst s)) of
           [] \<Rightarrow> (Inr True, s)
         | c # _ \<Rightarrow> (Inr False, (hm_remove c (fst s), snd s)))"

definition dag_store :: "decoder \<Rightarrow> list_db store_api" where
  "dag_store refs = \<lparr>tx_temp_pin = (\<lambda>s. (0, s)), tx_extend_temp_pin = (\<lambda>t c s. (Inr t, s)),
     tx_block_cids = (\<lambda>s. (Inr (hm_keys (fst s)), s)), tx_has_block = (\<lambda>c s. (Inr (hm_get (fst s) c \<noteq> None), s)),
     tx_get_block = (\<lambda>c s. (Inr (hm_get (fst s) c), s)),
     tx_put_block = (\<lambda>c x pin s. (Inr (), (hm_insert c x (fst s), snd s))),
     tx_resolve = (\<lambda>a s. (Inr (hm_get (snd s) a), s)),
     tx_alias = (\<lambda>a c s. (Inr (), (fst s, case c of Some c \<Rightarrow> hm_insert a c (snd s) | None \<Rightarrow> hm_remove a (snd s)))),
     tx_aliases = (\<lambda>s. (Inr (snd s), s)),
     tx_reverse_alias = (\<lambda>c s. (Inr (if hm_get (fst s) c = None then None
       else Some (filter (\<lambda>a. case hm_get (snd s) a of None \<Rightarrow> False | Some r \<Rightarrow> c \<in> reached refs (fst s) [r]) (hm_keys (snd s)))), s)),
     tx_missing_blocks = (\<lambda>c s. (Inr (filter (\<lambda>d. hm_get (fst s) d = None \<and> d \<in> reached refs (fst s) [c])
       (c # map snd (edge_list refs (fst s)))), s)),
     tx_commit = (\<lambda>s. (Inr (), s)), tx_drop = id, db_incremental_gc = (\<lambda>n t. collect_one refs),
     db_flush = (\<lambda>s. (Inr (), s)),
     db_store_stats = (\<lambda>s. Inr (of_nat (length (fst s)), of_nat (sum_list (map (length \<circ> snd) (fst s)))))\<rparr>"

lemma edge_list_edges: "set (edge_list refs (fst s)) = edges refs (list_view s)"
  by (force simp: edge_list_def edges_def list_view_def hm_get_None split: option.splits sum.splits dest: map_of_SomeD)

lemma reached_closure: "reached refs (fst s) cs = closure refs (list_view s) (set cs)"
  unfolding reached_def closure_def edge_list_edges by (auto simp: rtrancl_eq_or_trancl)

lemma alias_targets_roots: "set (alias_targets (snd s)) = roots (list_view s)"
proof -
  have "set (hm_keys (snd s)) = dom (alias_map (list_view s))" by (simp add: list_view_def dom_map_of_conv_image_fst)
  then have "set (alias_targets (snd s)) = (\<lambda>a. the (alias_map (list_view s) a)) ` dom (alias_map (list_view s))"
    by (simp only: alias_targets_def set_map list_view_def store_spec.select_convs)
  then show ?thesis by (force simp: roots_def ran_def)
qed

lemma closure_endpoint: "d \<in> closure refs m {c} \<Longrightarrow> d = c \<or> d \<in> snd ` edges refs m"
proof -
  assume "d \<in> closure refs m {c}"
  then have "(c, d) \<in> (edges refs m)\<^sup>*" by (simp add: closure_def)
  then show ?thesis by (cases rule: rtranclE) force+
qed

lemma collect_one_cases:
  assumes "collect_one refs s = (r, s')"
  obtains (ended) "r = Inr True" "s' = s" "dom (blocks (list_view s)) \<subseteq> pinned refs (list_view s) {}"
  | (more) c where "r = Inr False" "c \<notin> pinned refs (list_view s) {}" "s' = (hm_remove c (fst s), snd s)" "c \<in> set (hm_keys (fst s))"
proof -
  have live: "reached refs (fst s) (alias_targets (snd s)) = pinned refs (list_view s) {}"
    by (simp add: reached_closure alias_targets_roots pinned_def)
  show thesis
  proof (cases "filter (\<lambda>c. c \<notin> pinned refs (list_view s) {}) (hm_keys (fst s))")
    case Nil
    then show ?thesis using assms ended live
      by (auto simp: collect_one_def list_view_def filter_empty_conv dom_map_of_conv_image_fst)
  next
    case (Cons c cs)
    then have "c \<in> set (filter (\<lambda>c. c \<notin> pinned refs (list_view s) {}) (hm_keys (fst s)))" by simp
    then have "c \<notin> pinned refs (list_view s) {}" "c \<in> set (hm_keys (fst s))" by simp_all
    with Cons show ?thesis using assms live by (intro more [of c]) (auto simp: collect_one_def)
  qed
qed

lemma dag_store_laws:
  "store_laws (dag_store refs) list_view" "dag_laws (dag_store refs) list_view (\<lambda>_. {}) refs"
  "gc_progress (dag_store refs) (length \<circ> fst)" "no_cache (dag_store refs) list_view (\<lambda>_. {}) refs"
proof -
  show "store_laws (dag_store refs) list_view"
    by (auto simp: store_laws_def dag_store_def list_view_def fun_eq_iff split: option.splits)
  have "length (hm_remove c m) < length m" if "c \<in> set (hm_keys m)" for c and m :: "(cid, block_data) hashmap"
    using that by (auto simp: AList.delete_eq intro!: length_filter_less)
  then show "gc_progress (dag_store refs) (length \<circ> fst)"
    by (auto simp: gc_progress_def dag_store_def elim!: collect_one_cases)
  show "no_cache (dag_store refs) list_view (\<lambda>_. {}) refs"
    by (auto simp: no_cache_def dag_store_def elim!: collect_one_cases)
  have gc: "alias_map (list_view (snd (collect_one refs s))) = alias_map (list_view s)"
    "blocks (list_view (snd (collect_one refs s))) \<subseteq>\<^sub>m blocks (list_view s)"
    "c \<in> pinned refs (list_view s) {} \<Longrightarrow> blocks (list_view (snd (collect_one refs s))) c = blocks (list_view s) c" for s c
  proof -
    obtain r s' where "collect_one refs s = (r, s')" by (cases "collect_one refs s")
    then show "alias_map (list_view (snd (collect_one refs s))) = alias_map (list_view s)"
      "blocks (list_view (snd (collect_one refs s))) \<subseteq>\<^sub>m blocks (list_view s)"
      "c \<in> pinned refs (list_view s) {} \<Longrightarrow> blocks (list_view (snd (collect_one refs s))) c = blocks (list_view s) c"
      by (cases rule: collect_one_cases; force simp: list_view_def map_le_def split: if_splits)+
  qed
  have missing: "set (filter (\<lambda>d. hm_get (fst s) d = None \<and> d \<in> reached refs (fst s) [c]) (c # map snd (edge_list refs (fst s)))) =
      closure refs (list_view s) {c} - dom (blocks (list_view s))" for c s
  proof -
    have "closure refs (list_view s) {c} \<subseteq> set (c # map snd (edge_list refs (fst s)))"
      using closure_endpoint by (auto simp: edge_list_edges)
    then show ?thesis by (auto simp: reached_closure list_view_def)
  qed
  have reverse: "set (filter (\<lambda>a. case hm_get (snd s) a of None \<Rightarrow> False | Some r \<Rightarrow> c \<in> reached refs (fst s) [r]) (hm_keys (snd s))) =
      aliases_reaching refs (list_view s) c" for c s
    by (force simp: aliases_reaching_def reached_closure list_view_def split: option.splits dest: map_of_SomeD)
  show "dag_laws (dag_store refs) list_view (\<lambda>_. {}) refs"
    unfolding dag_laws_def
  proof (intro conjI allI)
    show "query_law list_view (\<lambda>_. {}) (tx_missing_blocks (dag_store refs) c) (\<lambda>m cs. set cs = closure refs m {c} - dom (blocks m))" for c
      using missing by (simp only: query_law_def dag_store_def store_api.select_convs) blast
    show "query_law list_view (\<lambda>_. {}) (tx_reverse_alias (dag_store refs) c) (\<lambda>m r. case r of
        None \<Rightarrow> blocks m c = None | Some as \<Rightarrow> blocks m c \<noteq> None \<and> set as = aliases_reaching refs m c)" for c
      using reverse by (auto simp: query_law_def dag_store_def list_view_def simp del: set_filter)
  qed (use gc in \<open>auto simp: query_law_def dag_store_def list_view_def Let_def dom_map_of_conv_image_fst\<close>)
qed

end
