(* ===== verification/Examples.thy ===== *)
theory Examples
  imports CliMain Startup Executor
begin

text \<open>
  The examples: \<open>src/examples/sync.rs\<close>, which builds a chain of blocks, imports it into one node
  under a temporary pin and synchronises it to another, and \<open>src/examples/restart.rs\<close>, which
  starts and drops nodes and reports the threads of the process.
\<close>

subsection \<open>A chain of blocks\<close>

record chain_node =
  cn_prev :: "cid option"
  cn_id :: "32 word"
  cn_payload :: "u8 list"

record node_builder =
  nb_id :: "32 word"
  nb_prev :: "cid option"

definition node_builder_default :: node_builder where
  "node_builder_default = \<lparr>nb_id = 0, nb_prev = None\<rparr>"

text \<open>
  \<open>create\<close>: the payload is random, \<open>enc\<close> is \<open>Block::encode\<close>. The increment of the identifier
  panics on overflow.
\<close>

type_synonym encoder = "chain_node \<Rightarrow> string + node_block"

definition builder_create :: "encoder \<Rightarrow> u8 list \<Rightarrow> node_builder \<Rightarrow> ((string + node_block) \<times> node_builder) option" where
  "builder_create enc payload b =
     (case enc \<lparr>cn_prev = nb_prev b, cn_id = nb_id b, cn_payload = payload\<rparr> of
        Inl e \<Rightarrow> Some (Inl e, b)
      | Inr block \<Rightarrow>
          if nb_id b = - 1 then None
          else Some (Inr block, b\<lparr>nb_id := nb_id b + 1, nb_prev := Some (fst block)\<rparr>))"

subsection \<open>Importing the chain\<close>

text \<open>
  The collector of the node runs in a task of its own, between any two operations: the
  schedule says how often, and is an argument.
\<close>

datatype example_error = EncodeErr string | NodeErr node_error

definition gc_rounds :: "'s store_api \<Rightarrow> nat \<Rightarrow> ('s, 'ma) ipfs \<Rightarrow> ('s, 'ma) ipfs" where
  "gc_rounds A k n = n\<lparr>ipfs_storage := (gc_round A ^^ k) (ipfs_storage n)\<rparr>"

fun import_loop :: "'s store_api \<Rightarrow> encoder \<Rightarrow> (u8 list \<times> nat \<times> nat) list \<Rightarrow> temp_pin \<Rightarrow> node_builder \<Rightarrow> ('s, 'ma) ipfs \<Rightarrow>
    ((example_error + node_builder) \<times> ('s, 'ma) ipfs) option" where
  "import_loop A enc [] tmp b n = Some (Inr b, n)"
| "import_loop A enc ((payload, j, k) # ps) tmp b n =
     builder_create enc payload b \<bind> (\<lambda>(block, b).
       case block of
         Inl e \<Rightarrow> Some (Inl (EncodeErr e), n)
       | Inr block \<Rightarrow>
           (case ipfs_temp_pin A tmp (fst block) (gc_rounds A j n) of
              (Inl e, n) \<Rightarrow> Some (Inl (NodeErr e), n)
            | (Inr tmp, n) \<Rightarrow>
                (case ipfs_insert A block (gc_rounds A k n) of
                   (Inl e, n) \<Rightarrow> Some (Inl (NodeErr e), n)
                 | (Inr _, n) \<Rightarrow> import_loop A enc ps tmp b n)))"

definition alias_and_flush :: "'s store_api \<Rightarrow> bytes \<Rightarrow> nat \<times> nat \<Rightarrow> node_builder \<Rightarrow> ('s, 'ma) ipfs \<Rightarrow>
    ((example_error + node_builder) \<times> ('s, 'ma) ipfs) option" where
  "alias_and_flush A root g b n =
     (case ipfs_alias A root (nb_prev b) (gc_rounds A (fst g) n) of
        (Inl e, n) \<Rightarrow> Some (Inl (NodeErr e), n)
      | (Inr _, n) \<Rightarrow>
          (case ipfs_flush A (gc_rounds A (snd g) n) of
             (Inl e, n) \<Rightarrow> Some (Inl (NodeErr e), n)
           | (Inr _, n) \<Rightarrow> Some (Inr b, n)))"

definition import_chain :: "'s store_api \<Rightarrow> encoder \<Rightarrow> bytes \<Rightarrow> (u8 list \<times> nat \<times> nat) list \<Rightarrow> nat \<times> nat \<Rightarrow> ('s, 'ma) ipfs \<Rightarrow>
    ((example_error + node_builder) \<times> ('s, 'ma) ipfs) option" where
  "import_chain A enc root ps g n =
     (case ipfs_create_temp_pin A n of
        (Inl e, n) \<Rightarrow> Some (Inl (NodeErr e), n)
      | (Inr tmp, n) \<Rightarrow>
          import_loop A enc ps tmp node_builder_default n \<bind> (\<lambda>(r, n).
            case r of Inl e \<Rightarrow> Some (Inl e, n) | Inr b \<Rightarrow> alias_and_flush A root g b n))"

text \<open>
  The second node names the root, synchronises from the first (\<open>peer\<close>) and flushes; \<open>remote\<close>
  is what awaiting the query yields.
\<close>

definition sync_chain :: "'s store_api \<Rightarrow> try_send \<Rightarrow> (oneshot \<Rightarrow> 's storage \<Rightarrow> unit result \<times> 's storage) \<Rightarrow> bytes \<Rightarrow>
    node_builder \<Rightarrow> peer_id \<Rightarrow> ('s, 'ma) ipfs \<Rightarrow> ((example_error + unit) \<times> ('s, 'ma) ipfs) option" where
  "sync_chain A r remote root b peer n =
     (case ipfs_alias A root (nb_prev b) n of
        (Inl e, n) \<Rightarrow> Some (Inl (NodeErr e), n)
      | (Inr _, n) \<Rightarrow>
          nb_prev b \<bind> (\<lambda>c.
          await_sync remote (ipfs_sync A r c [peer] n) \<bind> (\<lambda>(q, n).
            case q of
              Inl e \<Rightarrow> Some (Inl (NodeErr e), n)
            | Inr _ \<Rightarrow> (case ipfs_flush A n of (q, n) \<Rightarrow> Some (map_sum NodeErr id q, n)))))"

subsection \<open>The import is safe from the collector\<close>

text \<open>The chain as a list of blocks.\<close>

fun chain :: "encoder \<Rightarrow> 32 word \<Rightarrow> cid option \<Rightarrow> u8 list list \<Rightarrow> node_block list option" where
  "chain enc i prev [] = Some []"
| "chain enc i prev (p # ps) =
     (case enc \<lparr>cn_prev = prev, cn_id = i, cn_payload = p\<rparr> of
        Inl _ \<Rightarrow> None
      | Inr block \<Rightarrow> map_option ((#) block) (chain enc (i + 1) (Some (fst block)) ps))"

text \<open>
  What is documented of temporary pins: pinning changes no block, and a collection keeps the
  blocks that are pinned, and the aliases. And of blocks: the identifier is a hash of the data.
\<close>

definition pin_laws :: "'s store_api \<Rightarrow> ('s \<Rightarrow> store_spec) \<Rightarrow> ('s \<Rightarrow> temp_pin \<Rightarrow> cid set) \<Rightarrow> bool" where
  "pin_laws A view pins \<longleftrightarrow>
     (\<forall>t c s t' s'. tx_extend_temp_pin A t c s = (Inr t', s') \<longrightarrow> view s' = view s \<and> insert c (pins s t) \<subseteq> pins s' t') \<and>
     (\<forall>c x p s. pins (snd (tx_put_block A c x p s)) = pins s) \<and>
     (\<forall>a c s. pins (snd (tx_alias A a c s)) = pins s) \<and>
     (\<forall>s. pins (snd (tx_commit A s)) = pins s) \<and>
     (\<forall>m t s. let s' = snd (db_incremental_gc A m t s)
        in pins s' = pins s \<and> alias_map (view s') = alias_map (view s) \<and>
           (\<forall>t. \<forall>c \<in> pins s t. blocks (view s') c = blocks (view s) c))"

definition content_addressed :: "encoder \<Rightarrow> bool" where
  "content_addressed enc \<longleftrightarrow> (\<forall>u v c x y. enc u = Inr (c, x) \<and> enc v = Inr (c, y) \<longrightarrow> x = y)"

text \<open>The blocks \<open>bs\<close> are stored and pinned.\<close>

definition held :: "('s \<Rightarrow> store_spec) \<Rightarrow> ('s \<Rightarrow> temp_pin \<Rightarrow> cid set) \<Rightarrow> temp_pin \<Rightarrow> node_block set \<Rightarrow> 's \<Rightarrow> bool" where
  "held view pins tmp bs s \<longleftrightarrow> (\<forall>(c, x) \<in> bs. c \<in> pins s tmp \<and> blocks (view s) c = Some x)"

lemma pin_lawsD:
  assumes "pin_laws A view pins"
  shows "tx_extend_temp_pin A t c s = (Inr t', s') \<Longrightarrow> view s' = view s \<and> insert c (pins s t) \<subseteq> pins s' t'"
    "tx_put_block A c x p s = (r, s') \<Longrightarrow> pins s' = pins s"
    "tx_alias A a root s = (r, s') \<Longrightarrow> pins s' = pins s"
    "tx_commit A s = (r, s') \<Longrightarrow> pins s' = pins s"
proof -
  show "tx_extend_temp_pin A t c s = (Inr t', s') \<Longrightarrow> view s' = view s \<and> insert c (pins s t) \<subseteq> pins s' t'"
    using assms by (simp add: pin_laws_def)
  have "pins (snd (tx_put_block A c x p s)) = pins s" "pins (snd (tx_alias A a root s)) = pins s"
    "pins (snd (tx_commit A s)) = pins s"
    using assms by (simp_all add: pin_laws_def)
  then show "tx_put_block A c x p s = (r, s') \<Longrightarrow> pins s' = pins s" "tx_alias A a root s = (r, s') \<Longrightarrow> pins s' = pins s"
    "tx_commit A s = (r, s') \<Longrightarrow> pins s' = pins s" by auto
qed

lemma gc_round_keeps:
  assumes "pin_laws A view pins"
  shows "pins (store (gc_round A d)) = pins (store d)" "alias_map (view (store (gc_round A d))) = alias_map (view (store d))"
    "held view pins tmp bs (store d) \<Longrightarrow> held view pins tmp bs (store (gc_round A d))"
  using assms by (auto simp: gc_round_def held_def pin_laws_def Let_def split: option.splits)

lemma gc_rounds_keep:
  assumes "pin_laws A view pins"
  shows "pins (store (ipfs_storage (gc_rounds A k n))) = pins (store (ipfs_storage n))"
    "alias_map (node_view view (gc_rounds A k n)) = alias_map (node_view view n)"
    "held view pins tmp bs (store (ipfs_storage n)) \<Longrightarrow> held view pins tmp bs (store (ipfs_storage (gc_rounds A k n)))"
  unfolding gc_rounds_def by (induction k) (simp_all add: gc_round_keeps [OF assms])

lemma on_storage_rw:
  assumes "on_storage (rw A op f) n = (r, n')"
  obtains (fail) e where "r = Inl (StorageErr e)"
  | (ok) x txn where "r = Inr x" "f (store (ipfs_storage n)) = (Inr x, txn)" "tx_commit A txn = (Inr (), store (ipfs_storage n'))"
proof -
  obtain q d where q: "rw A op f (ipfs_storage n) = (q, d)" by (cases "rw A op f (ipfs_storage n)")
  with assms have "r = map_sum StorageErr id q" "n' = n\<lparr>ipfs_storage := d\<rparr>" by (auto simp: on_storage_def)
  with q show thesis by (cases rule: rw_cases) (auto intro: fail ok)
qed

lemma temp_pin_held:
  assumes "store_laws A view" "pin_laws A view pins" "held view pins tmp bs (store (ipfs_storage n))"
    "ipfs_temp_pin A tmp c n = (r, n')"
  shows "(\<exists>e. r = Inl (StorageErr e)) \<or>
    (\<exists>tmp'. r = Inr tmp' \<and> held view pins tmp' bs (store (ipfs_storage n')) \<and> c \<in> pins (store (ipfs_storage n')) tmp')"
  using assms(4) unfolding ipfs_temp_pin_def storage_temp_pin_def
proof (cases rule: on_storage_rw)
  case (ok x txn)
  then have ext: "tx_extend_temp_pin A tmp c (store (ipfs_storage n)) = (Inr x, txn)"
    by (auto split: sum.splits prod.splits)
  from pin_lawsD(1) [OF assms(2) ext] store_lawsD(7) [OF assms(1) ok(3)] pin_lawsD(4) [OF assms(2) ok(3)]
  show ?thesis using assms(3) ok(1) by (auto simp: held_def)
qed simp

lemma insert_held:
  assumes "store_laws A view" "pin_laws A view pins" "held view pins tmp bs (store (ipfs_storage n))"
    "fst block \<in> pins (store (ipfs_storage n)) tmp" "\<forall>(c, x) \<in> bs. c = fst block \<longrightarrow> x = snd block"
    "ipfs_insert A block n = (r, n')"
  shows "(\<exists>e. r = Inl (StorageErr e)) \<or> (r = Inr () \<and> held view pins tmp (insert block bs) (store (ipfs_storage n')))"
  using assms(6) unfolding ipfs_insert_def storage_insert_def batch_insert_def
proof (cases rule: on_storage_rw)
  case (ok x txn)
  from store_lawsD(1) [OF assms(1) ok(2)] pin_lawsD(2) [OF assms(2) ok(2)]
    store_lawsD(7) [OF assms(1) ok(3)] pin_lawsD(4) [OF assms(2) ok(3)]
  show ?thesis using assms(3-5) ok(1) by (cases block) (auto simp: held_def)
qed simp

lemma builder_create_cases:
  assumes "nb_id b \<noteq> - 1"
  obtains (fail) e where "enc \<lparr>cn_prev = nb_prev b, cn_id = nb_id b, cn_payload = p\<rparr> = Inl e"
      "builder_create enc p b = Some (Inl e, b)"
  | (ok) block where "enc \<lparr>cn_prev = nb_prev b, cn_id = nb_id b, cn_payload = p\<rparr> = Inr block"
      "builder_create enc p b = Some (Inr block, \<lparr>nb_id = nb_id b + 1, nb_prev = Some (fst block)\<rparr>)"
  using assms by (cases "enc \<lparr>cn_prev = nb_prev b, cn_id = nb_id b, cn_payload = p\<rparr>") (auto simp: builder_create_def)

lemma id_fits: "unat (i :: 32 word) + 1 < 2 ^ 32 \<Longrightarrow> i \<noteq> - 1 \<and> unat (i + 1) = unat i + 1"
  by (auto simp: unat_word_ariths unsigned_minus_1_eq_mask mask_eq_exp_minus_1)

text \<open>The blocks \<open>bs\<close> were made by the encoder.\<close>

abbreviation encoded :: "encoder \<Rightarrow> node_block set \<Rightarrow> bool" where
  "encoded enc bs \<equiv> \<forall>block \<in> bs. \<exists>u. enc u = Inr block"

lemma import_loop_spec:
  assumes "store_laws A view" "pin_laws A view pins" "content_addressed enc"
    "unat (nb_id b) + length ps < 2 ^ 32" "encoded enc bs" "held view pins tmp bs (store (ipfs_storage n))"
  shows "\<exists>r n'. import_loop A enc ps tmp b n = Some (r, n') \<and>
    (case r of
       Inl (NodeErr e) \<Rightarrow> \<exists>s. e = StorageErr s
     | Inl (EncodeErr _) \<Rightarrow> chain enc (nb_id b) (nb_prev b) (map fst ps) = None
     | Inr b' \<Rightarrow> \<exists>cs tmp'. chain enc (nb_id b) (nb_prev b) (map fst ps) = Some cs \<and>
         nb_prev b' = (if cs = [] then nb_prev b else Some (fst (last cs))) \<and>
         held view pins tmp' (bs \<union> set cs) (store (ipfs_storage n')))"
  using assms(4-6)
proof (induction ps arbitrary: tmp b bs n)
  case Nil
  then show ?case by auto
next
  case (Cons q ps)
  obtain p j k where q: "q = (p, j, k)" by (cases q)
  have small: "nb_id b \<noteq> - 1" "unat (nb_id b + 1) = unat (nb_id b) + 1"
    using id_fits [of "nb_id b"] Cons.prems(1) by auto
  from small(1) show ?case
  proof (cases rule: builder_create_cases [where p = p and enc = enc])
    case (ok block)
    obtain r1 n1 where 1: "ipfs_temp_pin A tmp (fst block) (gc_rounds A j n) = (r1, n1)"
      by (cases "ipfs_temp_pin A tmp (fst block) (gc_rounds A j n)")
    from temp_pin_held [OF assms(1,2) gc_rounds_keep(3) [OF assms(2) Cons.prems(3)] 1]
    consider (err) e where "r1 = Inl (StorageErr e)"
      | (pin) tmp1 where "r1 = Inr tmp1" "held view pins tmp1 bs (store (ipfs_storage n1))"
          "fst block \<in> pins (store (ipfs_storage n1)) tmp1" by blast
    then show ?thesis
    proof cases
      case pin
      obtain r2 n2 where 2: "ipfs_insert A block (gc_rounds A k n1) = (r2, n2)"
        by (cases "ipfs_insert A block (gc_rounds A k n1)")
      have same: "\<forall>(c, x) \<in> bs. c = fst block \<longrightarrow> x = snd block"
        using Cons.prems(2) ok(1) assms(3) unfolding content_addressed_def by (metis (mono_tags, lifting) case_prodI2 prod.collapse)
      from insert_held [OF assms(1,2) gc_rounds_keep(3) [OF assms(2) pin(2)] _ same 2] pin(3)
      consider (err) e where "r2 = Inl (StorageErr e)"
        | (ins) "r2 = Inr ()" "held view pins tmp1 (insert block bs) (store (ipfs_storage n2))"
        by (auto simp: gc_rounds_keep [OF assms(2)])
      then show ?thesis
      proof cases
        case ins
        have enc: "encoded enc (insert block bs)" using Cons.prems(2) ok(1) by blast
        from Cons.IH [OF _ enc ins(2), of "\<lparr>nb_id = nb_id b + 1, nb_prev = Some (fst block)\<rparr>"] Cons.prems(1) small(2)
        show ?thesis
          by (fastforce simp: q ok 1 2 pin(1) ins(1) split: sum.splits example_error.splits)
      qed (simp add: q ok 1 2 pin(1))
    qed (simp add: q ok 1)
  qed (simp add: q)
qed

lemma alias_and_flush_spec:
  assumes "store_laws A view" "pin_laws A view pins" "flush_law A view" "held view pins tmp bs (store (ipfs_storage n))"
  shows "\<exists>r n'. alias_and_flush A root g b n = Some (r, n') \<and>
    ((\<exists>e. r = Inl (NodeErr (StorageErr e))) \<or>
     r = Inr b \<and> alias_map (node_view view n') root = nb_prev b \<and> (\<forall>(c, x) \<in> bs. blocks (node_view view n') c = Some x))"
proof -
  obtain r1 n1 where 1: "ipfs_alias A root (nb_prev b) (gc_rounds A (fst g) n) = (r1, n1)"
    by (cases "ipfs_alias A root (nb_prev b) (gc_rounds A (fst g) n)")
  note held = gc_rounds_keep(3) [OF assms(2,4)]
  from 1 show ?thesis
    unfolding ipfs_alias_def storage_alias_def batch_alias_def
  proof (cases rule: on_storage_rw)
    case (fail e)
    with 1 show ?thesis by (simp add: alias_and_flush_def)
  next
    case (ok x txn)
    have "held view pins tmp bs (store (ipfs_storage n1)) \<and> alias_map (node_view view n1) root = nb_prev b"
      using held [of "fst g"] store_lawsD(4) [OF assms(1) ok(2)] store_lawsD(7) [OF assms(1) ok(3)] pin_lawsD(3) [OF assms(2) ok(2)] pin_lawsD(4) [OF assms(2) ok(3)] by (simp add: held_def)
    then have 2: "held view pins tmp bs (store (ipfs_storage (gc_rounds A (snd g) n1)))"
      "alias_map (node_view view (gc_rounds A (snd g) n1)) root = nb_prev b"
      by (simp_all add: gc_rounds_keep [OF assms(2)])
    obtain q s where f: "db_flush A (store (ipfs_storage (gc_rounds A (snd g) n1))) = (q, s)"
      by (cases "db_flush A (store (ipfs_storage (gc_rounds A (snd g) n1)))")
    with 2 flush_lawD [OF assms(3) f] show ?thesis
      by (cases q) (auto simp: alias_and_flush_def 1 ok(1) ipfs_flush_def on_storage_def flush_def held_def Let_def)
  qed
qed

text \<open>
  C22. Importing a chain of blocks under a temporary pin: wherever the collector runs between
  the operations, fewer than \<open>2 ^ 32\<close> nodes are imported without a panic, and unless the encoder
  or the database reports an error every block of the chain is stored at the end, each linked
  to the one before it and numbered in order, and the alias names the last.
\<close>

theorem import_survives_gc:
  assumes "store_laws A view" "pin_laws A view pins" "flush_law A view" "content_addressed enc" "length ps < 2 ^ 32"
  shows "\<exists>r n'. import_chain A enc root ps g n = Some (r, n') \<and>
    (case r of
       Inl (NodeErr e) \<Rightarrow> \<exists>s. e = StorageErr s
     | Inl (EncodeErr _) \<Rightarrow> chain enc 0 None (map fst ps) = None
     | Inr b \<Rightarrow> \<exists>cs. chain enc 0 None (map fst ps) = Some cs \<and>
         (\<forall>(c, x) \<in> set cs. blocks (view (store (ipfs_storage n'))) c = Some x) \<and>
         nb_prev b = (if cs = [] then None else Some (fst (last cs))) \<and>
         alias_map (view (store (ipfs_storage n'))) root = nb_prev b)"
proof -
  obtain r1 n1 where 1: "ipfs_create_temp_pin A n = (r1, n1)" by (cases "ipfs_create_temp_pin A n")
  then show ?thesis
    unfolding ipfs_create_temp_pin_def create_temp_pin_def
  proof (cases rule: on_storage_rw)
    case (fail e)
    with 1 show ?thesis by (simp add: import_chain_def)
  next
    case (ok tmp txn)
    obtain r2 n2 where 2: "import_loop A enc ps tmp node_builder_default n1 = Some (r2, n2)"
      "case r2 of
         Inl (NodeErr e) \<Rightarrow> \<exists>s. e = StorageErr s
       | Inl (EncodeErr _) \<Rightarrow> chain enc 0 None (map fst ps) = None
       | Inr b' \<Rightarrow> \<exists>cs tmp'. chain enc 0 None (map fst ps) = Some cs \<and>
           nb_prev b' = (if cs = [] then None else Some (fst (last cs))) \<and>
           held view pins tmp' (set cs) (store (ipfs_storage n2))"
      using import_loop_spec [OF assms(1,2,4), of "\<lparr>nb_id = 0, nb_prev = None\<rparr>" ps "{}" tmp n1] assms(5) that
      unfolding node_builder_default_def node_builder.simps Un_empty_left by (auto simp: held_def)
    show ?thesis
    proof (cases r2)
      case (Inl e)
      with 2 show ?thesis by (simp add: import_chain_def 1 ok(1))
    next
      case (Inr b)
      with 2(2) obtain cs tmp' where cs: "chain enc 0 None (map fst ps) = Some cs"
        "nb_prev b = (if cs = [] then None else Some (fst (last cs)))" "held view pins tmp' (set cs) (store (ipfs_storage n2))"
        by auto
      from alias_and_flush_spec [OF assms(1-3) cs(3), of root g b] cs(1,2) 2(1) Inr show ?thesis
        by (auto simp: import_chain_def 1 ok(1))
    qed
  qed
qed

text \<open>A store with pins, whose collector removes every block that is not pinned.\<close>

type_synonym pin_db = "list_db \<times> (temp_pin \<times> cid) list"

definition pin_store :: "pin_db store_api" where
  "pin_store = \<lparr>tx_temp_pin = (\<lambda>s. (0, s)), tx_extend_temp_pin = (\<lambda>t c s. (Inr t, (fst s, (t, c) # snd s))),
     tx_block_cids = (\<lambda>s. (Inr (hm_keys (fst (fst s))), s)), tx_has_block = (\<lambda>c s. (Inr (hm_get (fst (fst s)) c \<noteq> None), s)),
     tx_get_block = (\<lambda>c s. (Inr (hm_get (fst (fst s)) c), s)),
     tx_put_block = (\<lambda>c x pin s. (Inr (), ((hm_insert c x (fst (fst s)), snd (fst s)), snd s))),
     tx_resolve = (\<lambda>a s. (Inr (hm_get (snd (fst s)) a), s)),
     tx_alias = (\<lambda>a c s. (Inr (), ((fst (fst s), case c of Some c \<Rightarrow> hm_insert a c (snd (fst s)) | None \<Rightarrow> hm_remove a (snd (fst s))), snd s))),
     tx_aliases = (\<lambda>s. (Inr (snd (fst s)), s)), tx_reverse_alias = (\<lambda>c s. (Inr None, s)),
     tx_missing_blocks = (\<lambda>c s. (Inr [], s)), tx_commit = (\<lambda>s. (Inr (), s)), tx_drop = id,
     db_incremental_gc = (\<lambda>n t s. (Inr True, ((filter (\<lambda>(c, x). c \<in> snd ` set (snd s)) (fst (fst s)), snd (fst s)), snd s))),
     db_flush = (\<lambda>s. (Inr (), s)), db_store_stats = (\<lambda>s. Inr (0, 0))\<rparr>"

definition pin_view :: "pin_db \<Rightarrow> store_spec" where
  "pin_view s = list_view (fst s)"

definition pins_of :: "pin_db \<Rightarrow> temp_pin \<Rightarrow> cid set" where
  "pins_of s t = {c. (t, c) \<in> set (snd s)}"

definition sample_enc :: encoder where
  "sample_enc u = (let d = ucast (cn_id u) :: u8 in Inr (unat d, [d]))"

lemma hm_get_keyed: "P k \<Longrightarrow> hm_get (filter (\<lambda>(c, x). P c) m) k = hm_get m k"
  by (induction m) auto

lemma pin_store_laws:
  "store_laws pin_store pin_view" "pin_laws pin_store pin_view pins_of" "flush_law pin_store pin_view"
proof -
  have "hm_get (filter (\<lambda>(c, x). c \<in> snd ` set ps) m) c = hm_get m c" if "(t, c) \<in> set ps"
    for t c and ps :: "(temp_pin \<times> cid) list" and m :: "(cid, block_data) hashmap"
    using that by (intro hm_get_keyed) force
  then show "pin_laws pin_store pin_view pins_of"
    by (auto simp: pin_laws_def pin_store_def pin_view_def list_view_def pins_of_def Let_def)
qed (auto simp: store_laws_def flush_law_def pin_store_def pin_view_def list_view_def fun_eq_iff split: option.splits)

lemma sample_enc_content: "content_addressed sample_enc"
  by (auto simp: content_addressed_def sample_enc_def Let_def dest: unsigned_word_eqI)

definition pin_node :: "(pin_db, nat) ipfs" where
  "pin_node = \<lparr>ipfs_storage = \<lparr>store = (([], []), []), gc_min_blocks = 1, gc_target_duration = 1,
       gc_task = Some \<lparr>gc_interval = 1, gc_own_connection = False\<rparr>, queries_total = (\<lambda>_. 0)\<rparr>,
     ipfs_network = service_new ''key'' 1 ''node''\<rparr>"

lemma pin_store_total:
  "\<exists>n'. ipfs_create_temp_pin pin_store n = (Inr 0, n')" "\<exists>n'. ipfs_temp_pin pin_store t c n = (Inr t, n')"
  "\<exists>n'. ipfs_insert pin_store block n = (Inr (), n')" "\<exists>n'. ipfs_alias pin_store a r n = (Inr (), n')"
  "\<exists>n'. ipfs_flush pin_store n = (Inr (), n')"
  by (simp_all add: ipfs_create_temp_pin_def create_temp_pin_def batch_create_temp_pin_def ipfs_temp_pin_def
      storage_temp_pin_def ipfs_insert_def storage_insert_def batch_insert_def ipfs_alias_def storage_alias_def
      batch_alias_def ipfs_flush_def flush_def pin_store_def on_storage_def rw_def Let_def)

lemma pin_import_total:
  "\<exists>b' n'. import_loop pin_store sample_enc [(p, j, k), (q, l, m)] t node_builder_default n = Some (Inr b', n')"
proof -
  obtain n1 where 1: "ipfs_temp_pin pin_store t 0 (gc_rounds pin_store j n) = (Inr t, n1)"
    using pin_store_total(2) by blast
  obtain n2 where 2: "ipfs_insert pin_store (0, [0]) (gc_rounds pin_store k n1) = (Inr (), n2)"
    using pin_store_total(3) by blast
  obtain n3 where 3: "ipfs_temp_pin pin_store t 1 (gc_rounds pin_store l n2) = (Inr t, n3)"
    using pin_store_total(2) by blast
  obtain n4 where 4: "ipfs_insert pin_store (1, [1]) (gc_rounds pin_store m n3) = (Inr (), n4)"
    using pin_store_total(3) by blast
  from 1 2 3 4 show ?thesis by (simp add: node_builder_default_def builder_create_def sample_enc_def Let_def)
qed

theorem import_survives_gc_witness:
  "\<exists>b n'. import_chain pin_store sample_enc ''root'' [([7], 1, 2), ([8], 1, 1)] (2, 1) pin_node = Some (Inr b, n') \<and>
     blocks (pin_view (store (ipfs_storage n'))) 0 = Some [0] \<and> blocks (pin_view (store (ipfs_storage n'))) 1 = Some [1] \<and>
     alias_map (pin_view (store (ipfs_storage n'))) ''root'' = Some 1"
proof -
  obtain n1 where 1: "ipfs_create_temp_pin pin_store pin_node = (Inr 0, n1)" using pin_store_total(1) by blast
  obtain b n2 where 2: "import_loop pin_store sample_enc [([7], 1, 2), ([8], 1, 1)] 0 node_builder_default n1 = Some (Inr b, n2)"
    using pin_import_total by blast
  obtain n3 where 3: "ipfs_alias pin_store ''root'' (nb_prev b) (gc_rounds pin_store 2 n2) = (Inr (), n3)"
    using pin_store_total(4) by blast
  obtain n' where 4: "ipfs_flush pin_store (gc_rounds pin_store 1 n3) = (Inr (), n')" using pin_store_total(5) by blast
  have run: "import_chain pin_store sample_enc ''root'' [([7], 1, 2), ([8], 1, 1)] (2, 1) pin_node = Some (Inr b, n')"
    using 1 2 3 4 by (simp add: import_chain_def alias_and_flush_def del: import_loop.simps)
  have "chain sample_enc 0 None (map fst [([7], 1, 2), ([8], 1 :: nat, 1 :: nat)]) = Some [(0, [0]), (1, [1])]"
    by (simp add: sample_enc_def Let_def)
  with import_survives_gc [OF pin_store_laws sample_enc_content,
      of "[([7], 1, 2), ([8], 1, 1)]" "''root''" "(2, 1)" pin_node, unfolded run] run show ?thesis
    by (intro exI [of _ b] exI [of _ n'] conjI) auto
qed

subsection \<open>Synchronising the chain\<close>

text \<open>
  The synchronisation returns when blocks were imported. After an import of no blocks it
  would panic: there is no root.
\<close>

lemma await_sync_returns: "\<exists>q n'. await_sync remote (ipfs_sync A r c ps n) = Some (q, n')"
  using sync_poll_steps(1) [of None "[]" _ "[]" True]
  by (auto simp: await_sync_def ipfs_sync_def on_network_def service_sync_def sync_query_ready_def Let_def
      split: prod.splits sync_request.splits request.splits)

lemma sync_chain_returns:
  "nb_prev b \<noteq> None \<Longrightarrow> \<exists>q n'. sync_chain A r remote root b peer n = Some (q, n')"
  "nb_prev b = None \<Longrightarrow> fst (ipfs_alias A root None n) = Inr () \<Longrightarrow> sync_chain A r remote root b peer n = None"
proof -
  assume "nb_prev b \<noteq> None"
  then obtain c where c: "nb_prev b = Some c" by blast
  obtain q1 n1 where 1: "ipfs_alias A root (Some c) n = (q1, n1)" by (cases "ipfs_alias A root (Some c) n")
  obtain q2 n2 where 2: "await_sync remote (ipfs_sync A r c [peer] n1) = Some (q2, n2)" using await_sync_returns by blast
  show "\<exists>q n'. sync_chain A r remote root b peer n = Some (q, n')"
    by (auto simp: sync_chain_def c 1 2 split: sum.splits prod.splits)
qed (auto simp: sync_chain_def split: prod.splits sum.splits)

subsection \<open>Threads of the process\<close>

text \<open>\<open>str::parse\<close> for \<open>u64\<close>: decimal digits after an optional sign, which must fit.\<close>

fun parse_digits :: "nat \<Rightarrow> bytes \<Rightarrow> nat option" where
  "parse_digits acc [] = Some acc"
| "parse_digits acc (c # s) =
     (let v = of_char c :: nat in if 48 \<le> v \<and> v \<le> 57 then parse_digits (10 * acc + (v - 48)) s else None)"

definition parse_u64 :: "bytes \<Rightarrow> 64 word option" where
  "parse_u64 s =
     (let digits = (case s of c # d # rest \<Rightarrow> if c = CHR ''+'' then d # rest else s | _ \<Rightarrow> s)
      in if digits = [] then None
         else case parse_digits 0 digits of
                Some n \<Rightarrow> if n < 2 ^ 64 then Some (of_nat n) else None
              | None \<Rightarrow> None)"

text \<open>
  The lines of the status file, each of which may fail to be read. A line without a second
  word, a number that does not parse and a file without the line are panics.
\<close>

fun threads_loop :: "(string + bytes) list \<Rightarrow> (string + 64 word) option" where
  "threads_loop [] = None"
| "threads_loop (Inl e # ls) = Some (Inl e)"
| "threads_loop (Inr line # ls) =
     (if take 8 line \<noteq> ''Threads:'' then threads_loop ls
      else case split_whitespace line of
             _ # n # _ \<Rightarrow> map_option Inr (parse_u64 n)
           | _ \<Rightarrow> None)"

definition threads :: "string + (string + bytes) list \<Rightarrow> (string + 64 word) option" where
  "threads file = (case file of Inl e \<Rightarrow> Some (Inl e) | Inr ls \<Rightarrow> threads_loop ls)"

text \<open>The names of the threads: a thread that has ended has no file any more.\<close>

fun comms_loop :: "('s, 't) open_api \<Rightarrow> (path \<Rightarrow> bool) \<Rightarrow> (path \<Rightarrow> string + string) \<Rightarrow> (string + path) list \<Rightarrow> string list \<Rightarrow>
    string + string list" where
  "comms_loop F path_exists read_to_string [] tasks = Inr tasks"
| "comms_loop F path_exists read_to_string (Inl e # es) tasks = Inl e"
| "comms_loop F path_exists read_to_string (Inr entry # es) tasks =
     (let comm = path_join F entry ''comm''
      in if path_exists comm then
           (case read_to_string comm of
              Inl e \<Rightarrow> Inl e
            | Inr t \<Rightarrow> comms_loop F path_exists read_to_string es (tasks @ [t]))
         else comms_loop F path_exists read_to_string es tasks)"

definition comms :: "('s, 't) open_api \<Rightarrow> (path \<Rightarrow> bool) \<Rightarrow> (path \<Rightarrow> string + string) \<Rightarrow> string + (string + path) list \<Rightarrow>
    string + string list" where
  "comms F path_exists read_to_string dir = (case dir of Inl e \<Rightarrow> Inl e | Inr es \<Rightarrow> comms_loop F path_exists read_to_string es [])"

text \<open>The tasks of the nodes that are started and dropped one after the other.\<close>

fun restart_rounds :: "features \<Rightarrow> ('s, 'a) runtimes \<Rightarrow> executor \<Rightarrow> nat \<Rightarrow> 's \<Rightarrow> 's" where
  "restart_rounds F R e 0 s = s"
| "restart_rounds F R e (Suc k) s =
     (case node_spawn R e s of (n, s) \<Rightarrow> restart_rounds F R e k (node_drop F R n s))"

text \<open>
  What the status file of the kernel says is read: the number after the tabulator of the
  line \<open>Threads\<close>, the first of that name.
\<close>

lemma digit_char: "v < 10 \<Longrightarrow> (of_char (char_of (48 + v :: nat)) :: nat) = 48 + v"
  by simp

lemma parse_digits_append: "parse_digits acc (s @ t) = (case parse_digits acc s of Some m \<Rightarrow> parse_digits m t | None \<Rightarrow> None)"
  by (induction acc s rule: parse_digits.induct) (auto simp: Let_def)

lemma parse_decimal: "parse_digits 0 (decimal n) = Some n"
proof (induction n rule: decimal.induct)
  case (1 n)
  then show ?case by (subst decimal.simps) (auto simp: parse_digits_append Let_def digit_char)
qed

lemma decimal_digit: "c \<in> set (decimal n) \<Longrightarrow> 48 \<le> (of_char c :: nat) \<and> (of_char c :: nat) \<le> 57"
proof (induction n rule: decimal.induct)
  case (1 n)
  from 1(2) 1(1) show ?case by (subst (asm) decimal.simps) (auto simp: digit_char split: if_splits)
qed

lemma no_ws_digits: "\<forall>c \<in> set w. 48 \<le> (of_char c :: nat) \<and> (of_char c :: nat) \<le> 57 \<Longrightarrow> no_ws w"
  by (induction w) (auto simp: Let_def split: list.splits)

lemma decimal_word: "is_word (decimal n)" "parse_u64 (decimal n) = (if n < 2 ^ 64 then Some (of_nat n) else None)"
proof -
  have ne: "decimal n \<noteq> []" by (subst decimal.simps) simp
  then show "is_word (decimal n)" using no_ws_digits decimal_digit by (auto simp: is_word_def)
  have "CHR ''+'' \<notin> set (decimal n)" using decimal_digit [of "CHR ''+''" n] by auto
  then have "(case decimal n of c # d # rest \<Rightarrow> if c = CHR ''+'' then d # rest else decimal n | _ \<Rightarrow> decimal n) = decimal n"
    by (auto split: list.splits)
  with ne show "parse_u64 (decimal n) = (if n < 2 ^ 64 then Some (of_nat n) else None)"
    by (simp add: parse_u64_def parse_decimal)
qed

lemma threads_reads:
  assumes "\<forall>l \<in> set pre. \<exists>line. l = Inr line \<and> take 8 line \<noteq> ''Threads:''" "n < 2 ^ 64"
  shows "threads (Inr (pre @ Inr (''Threads:'' @ CHR 0x09 # decimal n) # post)) = Some (Inr (of_nat n))"
proof -
  have "threads_loop (pre @ ls) = threads_loop ls" for ls
    using assms(1) by (induction pre) auto
  moreover have "split_whitespace (''Threads:'' @ CHR 0x09 # decimal n) = [''Threads:'', decimal n]"
    using decimal_word(1) [of n] by (auto simp: split_whitespace_def is_word_def split_ws_last Let_def split: list.splits)
  ultimately show ?thesis using assms(2) by (simp add: threads_def decimal_word(2))
qed

lemma comms_reads:
  assumes "\<forall>en \<in> set es. path_exists (path_join F en ''comm'') \<longrightarrow> read_to_string (path_join F en ''comm'') = Inr (name en)"
  shows "comms F path_exists read_to_string (Inr (map Inr es)) =
    Inr (map name (filter (\<lambda>en. path_exists (path_join F en ''comm'')) es))"
proof -
  have "comms_loop F path_exists read_to_string (map Inr es) tasks =
    Inr (tasks @ map name (filter (\<lambda>en. path_exists (path_join F en ''comm'')) es))" for tasks
    using assms by (induction es arbitrary: tasks) (auto simp: Let_def)
  then show ?thesis by (simp add: comms_def)
qed

text \<open>
  Restarting a node leaks nothing with async-global-executor; with tokio alone every round
  leaves a task behind.
\<close>

lemma restart_leaks:
  assumes "runtime_laws R live" "executor_new F = Some e" "finite (live s)"
  shows "finite (live (restart_rounds F R e k s)) \<and> live s \<subseteq> live (restart_rounds F R e k s) \<and>
    card (live (restart_rounds F R e k s)) = card (live s) + (if feature_async_global F then 0 else k)"
  using assms(3)
proof (induction k arbitrary: s)
  case (Suc k)
  obtain n s1 where n: "node_spawn R e s = (n, s1)" by (cases "node_spawn R e s")
  note drop = node_drop_live [OF assms(1,2) n]
  have "finite (live (node_drop F R n s1))" using Suc.prems by (simp add: drop(1))
  from Suc.IH [OF this] Suc.prems drop(2) show ?case by (auto simp: n drop(1) split: if_splits)
qed simp

end
