(* ===== verification/GcTest.thy ===== *)
theory GcTest
  imports Dags Examples
begin

text \<open>
  The test of the garbage collector, \<open>src/tests/gc.rs\<close>: it builds random graphs of blocks,
  takes their roots away one by one, and after each eviction reads everything that can still
  be reached. At the end the store must be empty.
\<close>

subsection \<open>The program\<close>

record dag_node =
  dn_nonce :: "64 word"
  dn_children :: "cid list"

record ('s, 'ma) dag_builder =
  db_ipfs :: "('s, 'ma) ipfs"
  db_heads :: "cid list"

text \<open>
  What the program takes from libraries: the encoding and decoding of a node, the bytes of an
  identifier, and the order in which a hash set is iterated.
\<close>

record dag_lib =
  dag_encode :: "dag_node \<Rightarrow> string + node_block"
  dag_refs :: decoder
  to_bytes :: "cid \<Rightarrow> bytes"
  iter :: "cid list \<Rightarrow> cid list"

definition heads :: "('s, 'ma) dag_builder \<Rightarrow> nat" where
  "heads b = length (db_heads b)"

text \<open>An operation of the node on which the builder goes on or returns the error.\<close>

definition on_ipfs :: "(('s, 'ma) ipfs \<Rightarrow> (node_error + 'r) \<times> ('s, 'ma) ipfs) \<Rightarrow> ('s, 'ma) dag_builder \<Rightarrow>
    (example_error + 'r) \<times> ('s, 'ma) dag_builder" where
  "on_ipfs f b = (case f (db_ipfs b) of (r, n) \<Rightarrow> (map_sum NodeErr id r, b\<lparr>db_ipfs := n\<rparr>))"

fun unalias_all :: "'s store_api \<Rightarrow> dag_lib \<Rightarrow> cid list \<Rightarrow> ('s, 'ma) dag_builder \<Rightarrow>
    (example_error + unit) \<times> ('s, 'ma) dag_builder" where
  "unalias_all A L [] b = (Inr (), b)"
| "unalias_all A L (c # cs) b =
     (case on_ipfs (ipfs_alias A (to_bytes L c) None) b of
        (Inl e, b) \<Rightarrow> (Inl e, b)
      | (Inr _, b) \<Rightarrow> unalias_all A L cs (b\<lparr>db_heads := removeAll c (db_heads b)\<rparr>))"

text \<open>\<open>add_head\<close>, given the three random numbers it draws.\<close>

definition add_head :: "'s store_api \<Rightarrow> dag_lib \<Rightarrow> u32 \<Rightarrow> u32 \<Rightarrow> 64 word \<Rightarrow> ('s, 'ma) dag_builder \<Rightarrow>
    (example_error + unit) \<times> ('s, 'ma) dag_builder" where
  "add_head A L r1 r2 nonce b =
     (let n_children = (if db_heads b = [] then 0 else unat r1 mod length (db_heads b));
          n_children_rm = (if n_children = 0 then 0 else unat r2 mod n_children);
          children = take n_children (iter L (db_heads b))
      in case dag_encode L \<lparr>dn_nonce = nonce, dn_children = children\<rparr> of
           Inl e \<Rightarrow> (Inl (EncodeErr e), b)
         | Inr block \<Rightarrow>
             (case on_ipfs (ipfs_alias A (to_bytes L (fst block)) (Some (fst block))) b of
                (Inl e, b) \<Rightarrow> (Inl e, b)
              | (Inr _, b) \<Rightarrow>
                  (case on_ipfs (ipfs_insert A block) b of
                     (Inl e, b) \<Rightarrow> (Inl e, b)
                   | (Inr _, b) \<Rightarrow>
                       (case unalias_all A L (take n_children_rm children) b of
                          (Inl e, b) \<Rightarrow> (Inl e, b)
                        | (Inr _, b) \<Rightarrow> (Inr (), b\<lparr>db_heads := List.insert (fst block) (db_heads b)\<rparr>)))))"

definition remove_head :: "'s store_api \<Rightarrow> dag_lib \<Rightarrow> ('s, 'ma) dag_builder \<Rightarrow>
    (example_error + unit) \<times> ('s, 'ma) dag_builder" where
  "remove_head A L b =
     (case iter L (db_heads b) of
        [] \<Rightarrow> (Inr (), b)
      | c # _ \<Rightarrow>
          (case on_ipfs (ipfs_alias A (to_bytes L c) None) b of
             (Inl e, b) \<Rightarrow> (Inl e, b)
           | (Inr _, b) \<Rightarrow> (Inr (), b\<lparr>db_heads := removeAll c (db_heads b)\<rparr>)))"

text \<open>The loop of \<open>check\<close>: the references of a block that is read go onto the stack, a set.\<close>

partial_function (option) live_loop :: "'s store_api \<Rightarrow> dag_lib \<Rightarrow> cid list \<Rightarrow> cid list \<Rightarrow> ('s, 'ma) dag_builder \<Rightarrow>
    ((example_error + cid list) \<times> ('s, 'ma) dag_builder) option" where
  "live_loop A L stack live b =
     (case iter L stack of
        [] \<Rightarrow> Some (Inr live, b)
      | c # _ \<Rightarrow>
          if c \<in> set live then live_loop A L (removeAll c stack) live b
          else
            (case on_ipfs (ipfs_get A c) b of
               (Inl e, b) \<Rightarrow> Some (Inl e, b)
             | (Inr block, b) \<Rightarrow>
                 (case dag_refs L (snd block) of
                    Inl e \<Rightarrow> Some (Inl (EncodeErr e), b)
                  | Inr cs \<Rightarrow> live_loop A L (List.union cs (removeAll c stack)) (c # live) b)))"

definition gc_check :: "'s store_api \<Rightarrow> dag_lib \<Rightarrow> ('s, 'ma) dag_builder \<Rightarrow>
    ((example_error + unit) \<times> ('s, 'ma) dag_builder) option" where
  "gc_check A L b =
     (case on_ipfs (ipfs_flush A) b of
        (Inl e, b) \<Rightarrow> Some (Inl e, b)
      | (Inr _, b) \<Rightarrow>
          ipfs_evict A (db_ipfs b) \<bind> (\<lambda>(r, n).
            let b = b\<lparr>db_ipfs := n\<rparr>
            in case r of
                 Inl e \<Rightarrow> Some (Inl (NodeErr (StorageErr e)), b)
               | Inr _ \<Rightarrow> map_option (\<lambda>(r, b). (map_sum id (\<lambda>_. ()) r, b)) (live_loop A L (db_heads b) [] b)))"

fun add_heads :: "'s store_api \<Rightarrow> dag_lib \<Rightarrow> (u32 \<times> u32 \<times> 64 word) list \<Rightarrow> ('s, 'ma) dag_builder \<Rightarrow>
    (example_error + unit) \<times> ('s, 'ma) dag_builder" where
  "add_heads A L [] b = (Inr (), b)"
| "add_heads A L ((r1, r2, nonce) # rs) b =
     (case add_head A L r1 r2 nonce b of (Inl e, b) \<Rightarrow> (Inl e, b) | (Inr _, b) \<Rightarrow> add_heads A L rs b)"

fun remove_heads :: "'s store_api \<Rightarrow> dag_lib \<Rightarrow> nat \<Rightarrow> ('s, 'ma) dag_builder \<Rightarrow>
    ((example_error + unit) \<times> ('s, 'ma) dag_builder) option" where
  "remove_heads A L 0 b = Some (Inr (), b)"
| "remove_heads A L (Suc k) b =
     (case remove_head A L b of
        (Inl e, b) \<Rightarrow> Some (Inl e, b)
      | (Inr _, b) \<Rightarrow>
          gc_check A L b \<bind> (\<lambda>(r, b). case r of Inl e \<Rightarrow> Some (Inl e, b) | Inr _ \<Rightarrow> remove_heads A L k b))"

text \<open>The test: the source draws the numbers of a hundred heads. The last assertion may panic.\<close>

definition gc_test :: "'s store_api \<Rightarrow> dag_lib \<Rightarrow> (u32 \<times> u32 \<times> 64 word) list \<Rightarrow> ('s, 'ma) ipfs \<Rightarrow>
    ((example_error + unit) \<times> ('s, 'ma) dag_builder) option" where
  "gc_test A L rs n =
     (case add_heads A L rs \<lparr>db_ipfs = n, db_heads = []\<rparr> of
        (Inl e, b) \<Rightarrow> Some (Inl e, b)
      | (Inr _, b) \<Rightarrow>
          gc_check A L b \<bind> (\<lambda>(r, b).
            case r of
              Inl e \<Rightarrow> Some (Inl e, b)
            | Inr _ \<Rightarrow>
                remove_heads A L (heads b) b \<bind> (\<lambda>(r, b).
                  case r of
                    Inl e \<Rightarrow> Some (Inl e, b)
                  | Inr _ \<Rightarrow>
                      (case on_ipfs (ipfs_iter A) b of
                         (Inl e, b) \<Rightarrow> Some (Inl e, b)
                       | (Inr cids, b) \<Rightarrow> if cids = [] then Some (Inr (), b) else None))))"

subsection \<open>The invariant\<close>

text \<open>
  What is documented of the libraries: decoding a node yields its children, a block does not
  refer to itself and its identifier determines it, the bytes of identifiers differ, and a
  hash set is iterated element by element.
\<close>

definition dag_lib_laws :: "dag_lib \<Rightarrow> bool" where
  "dag_lib_laws L \<longleftrightarrow>
     (\<forall>u c x. dag_encode L u = Inr (c, x) \<longrightarrow> dag_refs L x = Inr (dn_children u) \<and> c \<notin> set (dn_children u)) \<and>
     (\<forall>u v c x y. dag_encode L u = Inr (c, x) \<and> dag_encode L v = Inr (c, y) \<longrightarrow> x = y) \<and>
     inj (to_bytes L) \<and>
     (\<forall>xs. distinct xs \<longrightarrow> distinct (iter L xs) \<and> set (iter L xs) = set xs)"

lemma dag_lib_lawsD:
  assumes "dag_lib_laws L"
  shows "dag_encode L u = Inr (c, x) \<Longrightarrow> dag_refs L x = Inr (dn_children u) \<and> c \<notin> set (dn_children u)"
    "dag_encode L u = Inr (c, x) \<Longrightarrow> dag_encode L v = Inr (c, y) \<Longrightarrow> x = y"
    "to_bytes L c = to_bytes L c' \<longleftrightarrow> c = c'" "distinct xs \<Longrightarrow> distinct (iter L xs)"
    "distinct xs \<Longrightarrow> set (iter L xs) = set xs"
  using assms unfolding dag_lib_laws_def by (blast dest: injD)+

abbreviation db_store :: "('s, 'ma) dag_builder \<Rightarrow> 's" where
  "db_store b \<equiv> store (ipfs_storage (db_ipfs b))"

text \<open>
  The blocks of \<open>H\<close> are aliased, under their own bytes, and nothing else is; everything that
  can be reached from \<open>R\<close> is stored.
\<close>

definition dag_inv :: "('s \<Rightarrow> store_spec) \<Rightarrow> ('s \<Rightarrow> cid set) \<Rightarrow> dag_lib \<Rightarrow> cid set \<Rightarrow> cid set \<Rightarrow> 's \<Rightarrow> bool" where
  "dag_inv view pins L H R s \<longleftrightarrow>
     pins s = {} \<and> finite (dom (blocks (view s))) \<and>
     (\<forall>a c. alias_map (view s) a = Some c \<longleftrightarrow> c \<in> H \<and> a = to_bytes L c) \<and>
     (\<forall>c x. blocks (view s) c = Some x \<longrightarrow> (\<exists>u. dag_encode L u = Inr (c, x))) \<and>
     closure (dag_refs L) (view s) R \<subseteq> dom (blocks (view s))"

lemma dag_inv_mono: "dag_inv view pins L H R s \<Longrightarrow> S \<subseteq> R \<Longrightarrow> dag_inv view pins L H S s"
  using closure_mono [of S R] by (fastforce simp: dag_inv_def)

lemma dag_inv_roots: "dag_inv view pins L H R s \<Longrightarrow> roots (view s) = H"
  by (auto simp: dag_inv_def roots_def ran_def)

lemma on_ipfs_rw:
  assumes "on_ipfs (on_storage (rw A op f)) b = (r, b')"
  obtains (fail) e where "r = Inl (NodeErr (StorageErr e))"
  | (ok) x txn where "r = Inr x" "f (db_store b) = (Inr x, txn)" "tx_commit A txn = (Inr (), db_store b')"
      "db_heads b' = db_heads b"
proof -
  obtain q n where q: "on_storage (rw A op f) (db_ipfs b) = (q, n)" by (cases "on_storage (rw A op f) (db_ipfs b)")
  then have "r = map_sum NodeErr id q" "b' = b\<lparr>db_ipfs := n\<rparr>" using assms by (auto simp: on_ipfs_def)
  with q show thesis by (cases rule: on_storage_rw) (auto intro: fail ok)
qed

subsection \<open>Ending well\<close>

text \<open>
  An operation ends well when it returns an error of the database or of the encoder, or a
  result and a state that satisfy \<open>Q\<close>; in particular it is never a block that is missing.
\<close>

definition ends_well :: "(example_error + 'r) \<times> 'b \<Rightarrow> ('r \<Rightarrow> 'b \<Rightarrow> bool) \<Rightarrow> bool" where
  "ends_well x Q = (case x of
     (Inr u, b) \<Rightarrow> Q u b | (Inl (NodeErr e), b) \<Rightarrow> \<exists>s. e = StorageErr s | (Inl (EncodeErr _), b) \<Rightarrow> True)"

definition returns_well :: "((example_error + 'r) \<times> 'b) option \<Rightarrow> ('r \<Rightarrow> 'b \<Rightarrow> bool) \<Rightarrow> bool" where
  "returns_well y Q = (\<exists>x. y = Some x \<and> ends_well x Q)"

lemma ends_well_simps [simp]:
  "ends_well (Inr u, b) Q = Q u b" "ends_well (Inl (NodeErr (StorageErr s)), b) Q" "ends_well (Inl (EncodeErr e), b) Q"
  "returns_well (Some x) Q = ends_well x Q"
  by (simp_all add: ends_well_def returns_well_def)

lemma ends_well_Inl: "ends_well (Inl e, b) P \<Longrightarrow> ends_well (Inl e, b') Q"
  by (simp add: ends_well_def split: example_error.splits)

lemma ends_well_bind:
  assumes "ends_well x P" "\<And>u b. P u b \<Longrightarrow> ends_well (k u b) Q"
  shows "ends_well (case x of (Inl e, b) \<Rightarrow> (Inl e, b) | (Inr u, b) \<Rightarrow> k u b) Q"
  using assms by (cases x rule: prod.exhaust [case_product sum.exhaust]) (auto intro: ends_well_Inl split: sum.splits)

lemma returns_well_start:
  assumes "ends_well x P" "\<And>u b. P u b \<Longrightarrow> returns_well (k u b) Q"
  shows "returns_well (case x of (Inl e, b) \<Rightarrow> Some (Inl e, b) | (Inr u, b) \<Rightarrow> k u b) Q"
  using assms by (auto intro: ends_well_Inl split: sum.splits prod.splits)

lemma returns_well_bind:
  assumes "returns_well y P" "\<And>u b. P u b \<Longrightarrow> returns_well (k u b) Q"
  shows "returns_well (y \<bind> (\<lambda>(r, b). case r of Inl e \<Rightarrow> Some (Inl e, b) | Inr u \<Rightarrow> k u b)) Q"
  using assms unfolding returns_well_def [of y] by (auto intro: ends_well_Inl split: sum.splits prod.splits)

subsection \<open>Adding and removing heads\<close>

lemma alias_dag_inv:
  assumes "store_laws A view" "dag_laws A view pins (dag_refs L)" "dag_lib_laws L" "dag_inv view pins L H R (db_store b)"
    "root = Some c \<or> root = None"
  shows "ends_well (on_ipfs (ipfs_alias A (to_bytes L c) root) b) (\<lambda>_ b'. db_heads b' = db_heads b \<and>
    dag_inv view pins L (if root = None then H - {c} else insert c H) R (db_store b'))"
proof (cases "on_ipfs (ipfs_alias A (to_bytes L c) root) b")
  case (Pair r b')
  from Pair [unfolded ipfs_alias_def storage_alias_def batch_alias_def] show ?thesis
  proof (cases rule: on_ipfs_rw)
    case (ok x txn)
    have "view (db_store b') = (view (db_store b))\<lparr>alias_map := (alias_map (view (db_store b)))(to_bytes L c := root)\<rparr>"
      "pins (db_store b') = pins (db_store b)"
      using store_lawsD(4) [OF assms(1) ok(2)] store_lawsD(7) [OF assms(1) ok(3)]
        dag_lawsD(4) [OF assms(2) ok(2)] dag_lawsD(1) [OF assms(2) ok(3)] by simp_all
    moreover have "closure refs (m\<lparr>alias_map := f\<rparr>) R = closure refs m R" for refs m f
      by (simp add: closure_def edges_def)
    ultimately have "dag_inv view pins L (if root = None then H - {c} else insert c H) R (db_store b')"
      using assms(4,5) dag_lib_lawsD(3) [OF assms(3)] by (auto simp: dag_inv_def split: if_splits)
    with ok Pair show ?thesis by simp
  qed (simp add: Pair)
qed

lemmas alias_head_inv = alias_dag_inv [of _ _ _ _ _ _ _ "Some c" c for c, simplified]
  and unalias_head_inv = alias_dag_inv [where root = None, simplified]

lemma insert_dag_inv:
  assumes "store_laws A view" "dag_laws A view pins (dag_refs L)" "dag_lib_laws L" "dag_inv view pins L H R (db_store b)"
    "dag_encode L u = Inr block" "set (dn_children u) \<subseteq> R"
  shows "ends_well (on_ipfs (ipfs_insert A block) b) (\<lambda>_ b'. db_heads b' = db_heads b \<and>
    dag_inv view pins L H (insert (fst block) R) (db_store b'))"
proof (cases "on_ipfs (ipfs_insert A block) b")
  case (Pair r b')
  from Pair [unfolded ipfs_insert_def storage_insert_def batch_insert_def] show ?thesis
  proof (cases rule: on_ipfs_rw)
    case (ok q txn)
    obtain c x where block: "block = (c, x)" by (cases block)
    let ?m = "view (db_store b)"
    have new: "view (db_store b') = ?m\<lparr>blocks := (blocks ?m)(c \<mapsto> x)\<rparr>" "pins (db_store b') = pins (db_store b)"
      using store_lawsD(1) [OF assms(1) ok(2)] store_lawsD(7) [OF assms(1) ok(3)]
        dag_lawsD(3) [OF assms(2) ok(2)] dag_lawsD(1) [OF assms(2) ok(3)] by (simp_all add: block)
    note inv = assms(4) [unfolded dag_inv_def]
    have "blocks ?m c = None \<or> blocks ?m c = Some x"
      using inv dag_lib_lawsD(2) [OF assms(3)] assms(5) block by (metis not_Some_eq)
    moreover have "dag_refs L x = Inr (dn_children u)" using dag_lib_lawsD(1) [OF assms(3)] assms(5) block by blast
    moreover have "set (dn_children u) \<subseteq> closure (dag_refs L) ?m R" using assms(6) closure_roots by blast
    ultimately have "closure (dag_refs L) (view (db_store b')) (insert c R) \<subseteq> insert c (closure (dag_refs L) ?m R)"
      unfolding new(1) by (rule closure_insert)
    then have "closure (dag_refs L) (view (db_store b')) (insert c R) \<subseteq> dom (blocks (view (db_store b')))"
      using inv new(1) by fastforce
    then have "dag_inv view pins L H (insert c R) (db_store b')"
      using inv new assms(5) block by (auto simp: dag_inv_def)
    with ok(1,4) block Pair show ?thesis by simp
  qed (simp add: Pair)
qed

lemma unalias_all_inv:
  assumes "store_laws A view" "dag_laws A view pins (dag_refs L)" "dag_lib_laws L" "dag_inv view pins L H R (db_store b)"
  shows "ends_well (unalias_all A L cs b) (\<lambda>_ b'. db_heads b' = filter (\<lambda>c. c \<notin> set cs) (db_heads b) \<and>
    dag_inv view pins L (H - set cs) R (db_store b'))"
  using assms(4)
proof (induction cs arbitrary: b H)
  case (Cons c cs)
  have heads: "filter (\<lambda>x. x \<notin> set cs) (removeAll c xs) = filter (\<lambda>x. x \<notin> set (c # cs)) xs" for xs
    by (induction xs) auto
  have H: "H - {c} - set cs = H - set (c # cs)" by auto
  show ?case unfolding unalias_all.simps
  proof (rule ends_well_bind [OF unalias_head_inv [OF assms(1-3) Cons.prems]])
    fix b1 :: "('a, 'b) dag_builder"
    assume 1: "db_heads b1 = db_heads b \<and> dag_inv view pins L (H - {c}) R (db_store b1)"
    let ?b = "b1\<lparr>db_heads := removeAll c (db_heads b1)\<rparr>"
    from 1 have "dag_inv view pins L (H - {c}) R (db_store ?b)" by simp
    from Cons.IH [OF this] 1
    show "ends_well (unalias_all A L cs ?b) (\<lambda>_ b'. db_heads b' = filter (\<lambda>x. x \<notin> set (c # cs)) (db_heads b) \<and>
      dag_inv view pins L (H - set (c # cs)) R (db_store b'))"
      unfolding H heads [symmetric] by simp
  qed
qed simp

abbreviation built :: "('s \<Rightarrow> store_spec) \<Rightarrow> ('s \<Rightarrow> cid set) \<Rightarrow> dag_lib \<Rightarrow> ('s, 'ma) dag_builder \<Rightarrow> bool" where
  "built view pins L b \<equiv> distinct (db_heads b) \<and> dag_inv view pins L (set (db_heads b)) (set (db_heads b)) (db_store b)"

lemma add_head_built:
  assumes "store_laws A view" "dag_laws A view pins (dag_refs L)" "dag_lib_laws L" "built view pins L b"
  shows "ends_well (add_head A L r1 r2 nonce b) (\<lambda>_. built view pins L)"
proof -
  define n where "n = (if db_heads b = [] then 0 else unat r1 mod length (db_heads b))"
  define k where "k = (if n = 0 then 0 else unat r2 mod n)"
  define cs where "cs = take n (iter L (db_heads b))"
  define node where "node = \<lparr>dn_nonce = nonce, dn_children = cs\<rparr>"
  have cs: "set (dn_children node) \<subseteq> set (db_heads b)"
    using set_take_subset [of n "iter L (db_heads b)"] dag_lib_lawsD(5) [OF assms(3)] assms(4) by (simp add: cs_def node_def)
  show ?thesis
  proof (cases "dag_encode L node")
    case (Inl e)
    then show ?thesis by (simp add: add_head_def Let_def n_def k_def cs_def node_def)
  next
    case (Inr block)
    let ?c = "fst block" and ?rm = "set (take k cs)" and ?S = "set (db_heads b)"
    have "?c \<notin> ?rm"
      using dag_lib_lawsD(1) [OF assms(3), of node ?c "snd block"] Inr set_take_subset [of k cs] by (auto simp: node_def)
    then have S: "insert ?c {x \<in> ?S. x \<notin> ?rm} = insert ?c ?S - ?rm" by auto
    show ?thesis
      unfolding add_head_def Let_def n_def [symmetric] k_def [symmetric] cs_def [symmetric] node_def [symmetric] Inr sum.case
      by (rule ends_well_bind [OF alias_head_inv [OF assms(1-3) conjunct2 [OF assms(4)]]], elim conjE,
          rule ends_well_bind [OF insert_dag_inv [OF assms(1-3) _ Inr cs]], assumption, elim conjE,
          rule ends_well_bind [OF unalias_all_inv [OF assms(1-3)]], assumption)
        (use assms(4) in \<open>auto simp: S elim: dag_inv_mono\<close>)
  qed
qed

lemma remove_head_built:
  assumes "store_laws A view" "dag_laws A view pins (dag_refs L)" "dag_lib_laws L" "built view pins L b"
  shows "ends_well (remove_head A L b) (\<lambda>_ b'. built view pins L b' \<and> heads b' = heads b - 1)"
proof (cases "iter L (db_heads b)")
  case Nil
  then have "db_heads b = []" using dag_lib_lawsD(5) [OF assms(3)] assms(4) by fastforce
  with Nil assms(4) show ?thesis by (simp add: remove_head_def heads_def)
next
  case (Cons c cs)
  then have c: "c \<in> set (db_heads b)" using dag_lib_lawsD(5) [OF assms(3)] assms(4) by fastforce
  have "length (removeAll c (db_heads b)) = length (db_heads b) - 1"
    using c assms(4) by (simp add: distinct_remove1_removeAll [symmetric] length_remove1)
  then show ?thesis unfolding remove_head_def Cons list.case
    by (intro ends_well_bind [OF unalias_head_inv [OF assms(1-3) conjunct2 [OF assms(4)]]])
      (use assms(4) in \<open>auto simp: heads_def distinct_removeAll elim: dag_inv_mono\<close>)
qed

lemma add_heads_built:
  assumes "store_laws A view" "dag_laws A view pins (dag_refs L)" "dag_lib_laws L" "built view pins L b"
  shows "ends_well (add_heads A L rs b) (\<lambda>_. built view pins L)"
  using assms(4)
proof (induction rs arbitrary: b)
  case (Cons q rs)
  then show ?case by (cases q) (auto intro!: ends_well_bind [OF add_head_built [OF assms(1-3)]])
qed simp

subsection \<open>Checking\<close>

definition unchanged :: "('s \<Rightarrow> store_spec) \<Rightarrow> ('s \<Rightarrow> cid set) \<Rightarrow> ('s, 'ma) dag_builder \<Rightarrow> ('s, 'ma) dag_builder \<Rightarrow> bool" where
  "unchanged view pins b b' \<longleftrightarrow> db_heads b' = db_heads b \<and> view (db_store b') = view (db_store b) \<and>
     pins (db_store b') = pins (db_store b)"

lemma unchanged_built: "unchanged view pins b b' \<Longrightarrow> built view pins L b' = built view pins L b"
  by (simp add: unchanged_def dag_inv_def)

lemma flush_unchanged:
  assumes "dag_laws A view pins refs"
  shows "ends_well (on_ipfs (ipfs_flush A) b) (\<lambda>_. unchanged view pins b)"
proof (cases "db_flush A (db_store b)")
  case (Pair r s)
  then show ?thesis using dag_lawsD(2) [OF assms Pair]
    by (cases r) (simp_all add: on_ipfs_def ipfs_flush_def on_storage_def flush_def Let_def unchanged_def)
qed

lemma get_stored:
  assumes "store_laws A view" "dag_laws A view pins refs" "blocks (view (db_store b)) c = Some x"
  shows "ends_well (on_ipfs (ipfs_get A c) b) (\<lambda>block b'. block = (c, x) \<and> unchanged view pins b b')"
proof (cases "on_storage (storage_get A c) (db_ipfs b)")
  case (Pair r n)
  from Pair [unfolded storage_get_def batch_get_def] show ?thesis
  proof (cases rule: on_storage_rw)
    case (ok q txn)
    then have "q = Some x" "view (store (ipfs_storage n)) = view (db_store b)" "pins (store (ipfs_storage n)) = pins (db_store b)"
      using store_lawsD(2) [OF assms(1) ok(2)] store_lawsD(7) [OF assms(1) ok(3)]
        dag_lawsD(5) [OF assms(2) ok(2)] dag_lawsD(1) [OF assms(2) ok(3)] assms(3) by auto
    with Pair ok(1) show ?thesis by (simp add: on_ipfs_def ipfs_get_def unchanged_def)
  qed (simp add: Pair on_ipfs_def ipfs_get_def)
qed

lemma iter_stored:
  assumes "dag_laws A view pins refs" "store_laws A view"
  shows "ends_well (on_ipfs (ipfs_iter A) b) (\<lambda>cids b'. set cids = dom (blocks (view (db_store b))) \<and> unchanged view pins b b')"
proof (cases "on_ipfs (ipfs_iter A) b")
  case (Pair r b')
  from Pair [unfolded ipfs_iter_def storage_iter_def batch_iter_def] show ?thesis
  proof (cases rule: on_ipfs_rw)
    case (ok q txn)
    have "query_law view pins (tx_block_cids A) (\<lambda>m cs. set cs = dom (blocks m))" using assms(1) by (simp add: dag_laws_def)
    from query_lawD [OF this ok(2)] store_lawsD(7) [OF assms(2) ok(3)] dag_lawsD(1) [OF assms(1) ok(3)] ok Pair
    show ?thesis by (simp add: unchanged_def)
  qed (simp add: Pair)
qed

text \<open>The loop returns: each turn reads a block that can be reached, or takes one off the stack.\<close>

lemma live_loop_returns:
  assumes "store_laws A view" "dag_laws A view pins (dag_refs L)" "dag_lib_laws L"
    "finite C" "C \<subseteq> dom (blocks (view (db_store b0)))" "edges (dag_refs L) (view (db_store b0)) `` C \<subseteq> C"
    "distinct stack" "set stack \<subseteq> C" "unchanged view pins b0 b"
  shows "returns_well (live_loop A L stack live b) (\<lambda>_. unchanged view pins b0)"
  using assms(7-9)
proof (induction "(card (C - set live), length stack)" arbitrary: stack live b rule: wf_induct_rule [OF wf_lex_prod [OF wf_less wf_less]])
  case 1
  note IH = 1(1) and stack = 1(2,3) and b = 1(4)
  show ?case
  proof (cases "iter L stack")
    case Nil
    then show ?thesis using b by (subst live_loop.simps) simp
  next
    case (Cons c cs)
    then have c: "c \<in> set stack" using dag_lib_lawsD(5) [OF assms(3) stack(1)] by auto
    then have shorter: "length (removeAll c stack) < length stack" by (rule length_removeAll_less)
    show ?thesis
    proof (cases "c \<in> set live")
      case True
      then show ?thesis using Cons IH [OF _ _ _ b, of live "removeAll c stack"] shorter stack
        by (subst live_loop.simps) (auto simp: distinct_removeAll)
    next
      case False
      from c stack(2) assms(5) obtain x where x: "blocks (view (db_store b0)) c = Some x" by blast
      then have "blocks (view (db_store b)) c = Some x" using b by (simp add: unchanged_def)
      note get = get_stored [OF assms(1,2) this]
      have less: "card (C - set (c # live)) < card (C - set live)"
        using False c stack(2) assms(4) by (intro psubset_card_mono) auto
      have "returns_well (case dag_refs L x of Inl e \<Rightarrow> Some (Inl (EncodeErr e), b1)
          | Inr cs \<Rightarrow> live_loop A L (List.union cs (removeAll c stack)) (c # live) b1) (\<lambda>_. unchanged view pins b0)"
        if b1: "unchanged view pins b b1" for b1
      proof (cases "dag_refs L x")
        case (Inr cs)
        have "(c, d) \<in> edges (dag_refs L) (view (db_store b0))" if "d \<in> set cs" for d
          using Inr x that by (simp add: edges_def)
        then have "set cs \<subseteq> C" using c stack(2) assms(6) by blast
        then show ?thesis using Inr less b b1 stack
          by (auto simp: unchanged_def intro!: IH simp: distinct_removeAll)
      qed simp
      then show ?thesis using Cons False
        by (subst live_loop.simps) (auto intro!: returns_well_start [OF get])
    qed
  qed
qed

lemma dag_inv_collected:
  assumes "dag_inv view pins L H H s" "collected view pins (dag_refs L) s s'"
  shows "dag_inv view pins L H H s'" "pinned (dag_refs L) (view s) (pins s) = closure (dag_refs L) (view s') H"
proof -
  have H: "pinned (dag_refs L) (view s) (pins s) = closure (dag_refs L) (view s) H"
    using assms(1) dag_inv_roots [OF assms(1)] by (simp add: pinned_def dag_inv_def)
  note kept = assms(2) [unfolded collected_def H]
  then have same: "closure (dag_refs L) (view s') H = closure (dag_refs L) (view s) H" by (intro closure_kept) auto
  then show "pinned (dag_refs L) (view s) (pins s) = closure (dag_refs L) (view s') H" by (simp add: H)
  have "dom (blocks (view s')) \<subseteq> dom (blocks (view s))" using kept by (simp add: map_le_implies_dom_le)
  moreover have "blocks (view s) c = Some x" if "blocks (view s') c = Some x" for c x
    using kept that by (simp add: map_le_def) (metis domI)
  moreover have "closure (dag_refs L) (view s) H \<subseteq> dom (blocks (view s'))"
    using kept assms(1) unfolding dag_inv_def by (auto simp: dom_def)
  ultimately show "dag_inv view pins L H H s'" using assms(1) kept
    unfolding dag_inv_def same by (simp add: finite_subset)
qed

text \<open>\<open>check\<close> finds every block that can be reached from a head, and no other block is left.\<close>

abbreviation only_live :: "('s \<Rightarrow> store_spec) \<Rightarrow> dag_lib \<Rightarrow> ('s, 'ma) dag_builder \<Rightarrow> bool" where
  "only_live view L b \<equiv> dom (blocks (view (db_store b))) \<subseteq> closure (dag_refs L) (view (db_store b)) (set (db_heads b))"

lemma gc_check_built:
  assumes "store_laws A view" "dag_laws A view pins (dag_refs L)" "dag_lib_laws L" "gc_progress A weight"
    "no_cache A view pins (dag_refs L)" "built view pins L b"
  shows "returns_well (gc_check A L b) (\<lambda>_ b'. built view pins L b' \<and> heads b' = heads b \<and> only_live view L b')"
  unfolding gc_check_def
proof (rule returns_well_start [OF flush_unchanged [OF assms(2)]])
  fix b1 :: "('a, 'b) dag_builder"
  assume same: "unchanged view pins b b1"
  then have b1: "built view pins L b1" using assms(6) unchanged_built by blast
  obtain r d where e: "evict A (ipfs_storage (db_ipfs b1)) = Some (r, d)" "collected view pins (dag_refs L) (db_store b1) (store d)"
    "r = Inr () \<longrightarrow> dom (blocks (view (store d))) \<subseteq> pinned (dag_refs L) (view (db_store b1)) (pins (db_store b1))"
    using evict_collects [OF assms(2,4), of "ipfs_storage (db_ipfs b1)"] assms(5) by blast
  let ?b = "b1\<lparr>db_ipfs := (db_ipfs b1)\<lparr>ipfs_storage := d\<rparr>\<rparr>"
  let ?C = "closure (dag_refs L) (view (store d)) (set (db_heads b1))"
  have b: "dag_inv view pins L (set (db_heads b1)) (set (db_heads b1)) (store d)"
    "r = Inr () \<longrightarrow> dom (blocks (view (store d))) \<subseteq> ?C"
    using dag_inv_collected [OF conjunct2 [OF b1] e(2)] e(3) by simp_all
  have "returns_well (live_loop A L (db_heads ?b) [] ?b) (\<lambda>_. unchanged view pins ?b)"
  proof (rule live_loop_returns [OF assms(1-3), where C = ?C])
    show "?C \<subseteq> dom (blocks (view (db_store ?b)))" using b(1) by (simp add: dag_inv_def)
    then show "finite ?C" using b(1) by (auto simp: dag_inv_def intro: finite_subset)
  qed (use b1 closure_roots closure_step in \<open>auto simp: unchanged_def\<close>)
  then obtain q b2 where loop: "live_loop A L (db_heads ?b) [] ?b = Some (q, b2)" "ends_well (q, b2) (\<lambda>_. unchanged view pins ?b)"
    by (auto simp: returns_well_def)
  show "returns_well (ipfs_evict A (db_ipfs b1) \<bind> (\<lambda>(r, n). let b = b1\<lparr>db_ipfs := n\<rparr>
            in case r of
                 Inl e \<Rightarrow> Some (Inl (NodeErr (StorageErr e)), b)
               | Inr _ \<Rightarrow> map_option (\<lambda>(r, b). (map_sum id (\<lambda>_. ()) r, b)) (live_loop A L (db_heads b) [] b)))
     (\<lambda>_ b'. built view pins L b' \<and> heads b' = heads b \<and> only_live view L b')"
  proof (cases r)
    case (Inr u)
    then have "built view pins L ?b" "only_live view L ?b" using b b1 by simp_all
    then show ?thesis using Inr e(1) loop same
      by (cases q) (auto simp: ipfs_evict_def Let_def unchanged_def heads_def dag_inv_def intro: ends_well_Inl)
  qed (use e(1) in \<open>simp add: ipfs_evict_def Let_def\<close>)
qed

lemma remove_heads_built:
  assumes "store_laws A view" "dag_laws A view pins (dag_refs L)" "dag_lib_laws L" "gc_progress A weight"
    "no_cache A view pins (dag_refs L)" "built view pins L b" "only_live view L b"
  shows "returns_well (remove_heads A L (heads b) b) (\<lambda>_ b'. db_heads b' = [] \<and> only_live view L b')"
  using assms(6,7)
proof (induction "heads b" arbitrary: b)
  case (Suc k)
  have "returns_well (case remove_head A L b of (Inl e, b) \<Rightarrow> Some (Inl e, b) | (Inr _, b) \<Rightarrow>
      gc_check A L b \<bind> (\<lambda>(r, b). case r of Inl e \<Rightarrow> Some (Inl e, b) | Inr _ \<Rightarrow> remove_heads A L k b))
    (\<lambda>_ b'. db_heads b' = [] \<and> only_live view L b')"
  proof (rule returns_well_start [OF remove_head_built [OF assms(1-3) Suc.prems(1)]])
    fix b1 :: "('a, 'b) dag_builder"
    assume "built view pins L b1 \<and> heads b1 = heads b - 1"
    moreover have "returns_well (remove_heads A L k b2) (\<lambda>_ b'. db_heads b' = [] \<and> only_live view L b')"
      if "built view pins L b2 \<and> heads b2 = k \<and> only_live view L b2" for b2 :: "('a, 'b) dag_builder"
      using that Suc.hyps(1) [of b2] by simp
    ultimately show "returns_well (gc_check A L b1 \<bind> (\<lambda>(r, b). case r of Inl e \<Rightarrow> Some (Inl e, b) | Inr _ \<Rightarrow> remove_heads A L k b))
      (\<lambda>_ b'. db_heads b' = [] \<and> only_live view L b')"
      by (intro returns_well_bind [OF gc_check_built [OF assms(1-5)]]) (simp_all add: Suc.hyps(2) [symmetric])
  qed
  then show ?case by (simp add: Suc.hyps(2) [symmetric])
qed (simp add: heads_def)

text \<open>
  C23. The test of the garbage collector passes. On a store that behaves as documented and
  keeps no cache, whatever graphs the random numbers build: the test returns, its loops
  included; it never misses a block that a head still reaches, whichever heads were taken away
  and however the collections ran; and its last assertion holds, no block is left. It ends with
  an error only where the database or the encoder reports one.
\<close>

theorem gc_test_passes:
  assumes "store_laws A view" "dag_laws A view pins (dag_refs L)" "dag_lib_laws L" "gc_progress A weight"
    "no_cache A view pins (dag_refs L)" "view (store (ipfs_storage n)) = \<lparr>blocks = Map.empty, alias_map = Map.empty\<rparr>"
    "pins (store (ipfs_storage n)) = {}"
  shows "\<exists>r b. gc_test A L rs n = Some (r, b) \<and> (case r of
      Inr _ \<Rightarrow> db_heads b = [] \<and> blocks (view (db_store b)) = Map.empty
    | Inl (NodeErr (StorageErr _)) \<Rightarrow> True
    | Inl (EncodeErr _) \<Rightarrow> True
    | Inl _ \<Rightarrow> False)"
proof -
  let ?b = "\<lparr>db_ipfs = n, db_heads = []\<rparr>"
  have "built view pins L ?b" using assms(6,7) by (simp add: dag_inv_def)
  then have "returns_well (gc_test A L rs n) (\<lambda>_ b. db_heads b = [] \<and> blocks (view (db_store b)) = Map.empty)"
    unfolding gc_test_def
  proof (intro returns_well_start [OF add_heads_built [OF assms(1-3)]] returns_well_bind [OF gc_check_built [OF assms(1-5)]],
      simp, simp, elim conjE, intro returns_well_bind [OF remove_heads_built [OF assms(1-5)]], simp, simp, elim conjE)
    fix b :: "('a, 'b) dag_builder"
    assume "db_heads b = []" "only_live view L b"
    then show "returns_well (case on_ipfs (ipfs_iter A) b of (Inl e, b) \<Rightarrow> Some (Inl e, b)
        | (Inr cids, b) \<Rightarrow> if cids = [] then Some (Inr (), b) else None)
      (\<lambda>_ b. db_heads b = [] \<and> blocks (view (db_store b)) = Map.empty)"
      by (intro returns_well_start [OF iter_stored [OF assms(2,1)]]) (auto simp: unchanged_def)
  qed
  then show ?thesis
    unfolding returns_well_def ends_well_def by (fastforce split: sum.splits example_error.splits node_error.splits)
qed

text \<open>
  Nodes as bytes, the children last; an identifier is the number the bytes are the digits of.
  There is only room for small ones.
\<close>

fun number :: "nat list \<Rightarrow> nat" where
  "number [] = 0"
| "number (x # xs) = Suc x + 9 * number xs"

abbreviation small :: "nat list \<Rightarrow> bool" where
  "small xs \<equiv> list_all (\<lambda>x. x < 8) xs"

definition sample_dag_lib :: dag_lib where
  "sample_dag_lib = \<lparr>dag_encode = (\<lambda>u. let xs = unat (dn_nonce u) # dn_children u
       in if small xs then Inr (number xs, map of_nat xs) else Inl ''number too big''),
     dag_refs = (\<lambda>x. Inr (map unat (tl x))), to_bytes = decimal, iter = (\<lambda>xs. xs)\<rparr>"

lemma number_inj: "number xs = number ys \<Longrightarrow> small xs \<Longrightarrow> small ys \<Longrightarrow> xs = ys"
proof (induction xs arbitrary: ys)
  case Nil
  then show ?case by (cases ys) auto
next
  case (Cons x xs)
  then obtain y ys' where ys: "ys = y # ys'" by (cases ys) auto
  have "x = y \<and> m = n" if "x + 9 * m = y + 9 * n" "x < 9" "y < 9" for m n :: nat
    using that by presburger
  with Cons ys show ?case by auto
qed

lemma number_less: "x \<in> set xs \<Longrightarrow> x < number xs"
  by (induction xs) auto

lemma sample_dag_lib_laws: "dag_lib_laws sample_dag_lib"
proof -
  have "small xs \<Longrightarrow> map (unat \<circ> (of_nat :: nat \<Rightarrow> u8)) xs = xs" for xs
    by (induction xs) (simp_all add: unat_of_nat)
  moreover have "number (x # xs) \<notin> set xs" for x xs using number_less [of "number (x # xs)" "x # xs"] by auto
  moreover have "inj decimal" by (rule injI) (metis option.inject parse_decimal)
  ultimately show ?thesis unfolding dag_lib_laws_def sample_dag_lib_def
    by (auto simp: Let_def simp del: number.simps dest!: number_inj dest: unsigned_word_eqI split: if_splits)
qed

definition dag_sample_node :: "(list_db, nat) ipfs" where
  "dag_sample_node = \<lparr>ipfs_storage = empty_storage, ipfs_network = service_new ''key'' 1 ''node''\<rparr>"

declare evict_loop.simps [code] live_loop.simps [code]

theorem gc_test_passes_witness:
  "\<exists>b. gc_test (dag_store (dag_refs sample_dag_lib)) sample_dag_lib
      [(0, 0, 0), (0, 0, 1)] dag_sample_node = Some (Inr (), b) \<and>
    db_heads b = [] \<and> blocks (list_view (db_store b)) = Map.empty"
proof -
  let ?run = "gc_test (dag_store (dag_refs sample_dag_lib)) sample_dag_lib
      [(0, 0, 0), (0, 0, 1)] dag_sample_node"
  have "map_option fst ?run = Some (Inr ())" by code_simp
  then obtain b where run: "?run = Some (Inr (), b)" by auto
  have "list_view (store (ipfs_storage dag_sample_node)) = \<lparr>blocks = Map.empty, alias_map = Map.empty\<rparr>"
    by (simp add: dag_sample_node_def empty_storage_def list_view_def)
  from gc_test_passes [OF dag_store_laws(1,2) sample_dag_lib_laws dag_store_laws(3,4) this refl,
      of "[(0, 0, 0), (0, 0, 1)]"] run show ?thesis by simp
qed

end
