(* ===== verification/StoreTests.thy ===== *)
theory StoreTests
  imports Dags Examples
begin

text \<open>
  The tests of the storage, \<open>src/src/db.rs\<close>, and of nodes, \<open>src/src/lib.rs\<close>, that concern
  aliases, batches and synchronisation: they are run on the model, for every block store that
  behaves as documented.
\<close>

subsection \<open>Running a test\<close>

text \<open>
  A step of a test passes, reports an error (\<open>?\<close> or \<open>unwrap\<close> of an operation that failed), or
  is an assertion that does not hold.
\<close>

datatype 'e test_verdict = Passed | Errored 'e | Asserted

type_synonym ('n, 'e) test_step = "'n \<Rightarrow> 'e test_verdict \<times> 'n"

definition attempt :: "('n \<Rightarrow> ('e + 'r) \<times> 'n) \<Rightarrow> ('n, 'e) test_step" where
  "attempt f n = (case f n of (Inl e, n) \<Rightarrow> (Errored e, n) | (Inr _, n) \<Rightarrow> (Passed, n))"

definition check_that :: "('r \<Rightarrow> bool) \<Rightarrow> ('n \<Rightarrow> ('e + 'r) \<times> 'n) \<Rightarrow> ('n, 'e) test_step" where
  "check_that P f n = (case f n of (Inl e, n) \<Rightarrow> (Errored e, n) | (Inr r, n) \<Rightarrow> (if P r then Passed else Asserted, n))"

definition regardless :: "('n \<Rightarrow> ('e + 'r) \<times> 'n) \<Rightarrow> ('n, 'e) test_step" where
  "regardless f n = (Passed, snd (f n))"

fun run_test :: "('n, 'e) test_step list \<Rightarrow> ('n, 'e) test_step" where
  "run_test [] n = (Passed, n)"
| "run_test (s # ss) n = (case s n of (Passed, n) \<Rightarrow> run_test ss n | (v, n) \<Rightarrow> (v, n))"

text \<open>The assertions of the tests, on what \<open>reverse_alias\<close> returns.\<close>

definition is_pinned :: "bytes list option \<Rightarrow> bool" where
  "is_pinned r \<longleftrightarrow> map_option (\<lambda>a. a \<noteq> []) r = Some True"

definition is_unpinned :: "bytes list option \<Rightarrow> bool" where
  "is_unpinned r \<longleftrightarrow> map_option (\<lambda>a. a \<noteq> []) r = Some False"

abbreviation assert_pinned :: "'s store_api \<Rightarrow> node_block \<Rightarrow> ('s storage, string) test_step" where
  "assert_pinned A b \<equiv> check_that is_pinned (storage_reverse_alias A (fst b))"

abbreviation assert_unpinned :: "'s store_api \<Rightarrow> node_block \<Rightarrow> ('s storage, string) test_step" where
  "assert_unpinned A b \<equiv> check_that is_unpinned (storage_reverse_alias A (fst b))"

subsection \<open>The tests of the storage\<close>

definition test_store_unpin :: "'s store_api \<Rightarrow> node_block \<Rightarrow> node_block \<Rightarrow> node_block \<Rightarrow> bytes \<Rightarrow> bytes \<Rightarrow>
    ('s storage, string) test_step list" where
  "test_store_unpin A a b c x y =
     [attempt (storage_insert A (fst a) (snd a)),
      attempt (storage_insert A (fst b) (snd b)),
      attempt (storage_insert A (fst c) (snd c)),
      attempt (storage_alias A x (Some (fst b))),
      attempt (storage_alias A y (Some (fst c))),
      attempt (flush A),
      assert_pinned A a, assert_pinned A b, assert_pinned A c,
      attempt (storage_alias A x None),
      attempt (flush A),
      assert_pinned A a, assert_unpinned A b, assert_pinned A c,
      attempt (storage_alias A y None),
      attempt (flush A),
      assert_unpinned A a, assert_unpinned A b, assert_unpinned A c]"

definition test_store_unpin2 :: "'s store_api \<Rightarrow> node_block \<Rightarrow> node_block \<Rightarrow> bytes \<Rightarrow> bytes \<Rightarrow>
    ('s storage, string) test_step list" where
  "test_store_unpin2 A a b x y =
     [attempt (storage_insert A (fst a) (snd a)),
      attempt (storage_insert A (fst b) (snd b)),
      attempt (storage_alias A x (Some (fst b))),
      attempt (storage_alias A y (Some (fst b))),
      attempt (flush A),
      assert_pinned A a, assert_pinned A b,
      attempt (storage_alias A x None),
      attempt (flush A),
      assert_pinned A a, assert_pinned A b,
      attempt (storage_alias A y None),
      attempt (flush A),
      assert_unpinned A a, assert_unpinned A b]"

subsection \<open>Steps and their effect on the maps\<close>

text \<open>A test passes from the abstract state \<open>m\<close>, unless an operation reports an error in \<open>E\<close>.\<close>

definition test_passes :: "('e \<Rightarrow> bool) \<Rightarrow> ('n \<Rightarrow> 'm) \<Rightarrow> ('n, 'e) test_step list \<Rightarrow> 'm \<Rightarrow> bool" where
  "test_passes E V ss m \<longleftrightarrow> (\<forall>n. V n = m \<longrightarrow>
     (case fst (run_test ss n) of Passed \<Rightarrow> True | Errored e \<Rightarrow> E e | Asserted \<Rightarrow> False))"

text \<open>
  An operation that, when it succeeds, changes the state by \<open>g\<close> and returns a result as \<open>R\<close>
  says. It fails with errors in \<open>E\<close> only.
\<close>

definition op_effect :: "('n \<Rightarrow> 'm) \<Rightarrow> ('n \<Rightarrow> ('e + 'r) \<times> 'n) \<Rightarrow> ('m \<Rightarrow> 'm) \<Rightarrow> ('m \<Rightarrow> 'r \<Rightarrow> bool) \<Rightarrow> bool" where
  "op_effect V f g R \<longleftrightarrow> (\<forall>n r n'. f n = (Inr r, n') \<longrightarrow> V n' = g (V n) \<and> R (V n) r)"

definition fails_in :: "('e \<Rightarrow> bool) \<Rightarrow> ('n \<Rightarrow> ('e + 'r) \<times> 'n) \<Rightarrow> bool" where
  "fails_in E f \<longleftrightarrow> (\<forall>n e n'. f n = (Inl e, n') \<longrightarrow> E e)"

lemma passes_Nil [simp, intro]: "test_passes E V [] m"
  by (simp add: test_passes_def)

lemma passesD: "test_passes E V ss (V n) \<Longrightarrow> run_test ss n = (v, n') \<Longrightarrow> v = Passed \<or> (\<exists>e. v = Errored e \<and> E e)"
  by (cases v) (auto simp: test_passes_def)

lemma passes_check_at:
  assumes "\<And>n q n'. V n = m \<Longrightarrow> f n = (q, n') \<Longrightarrow> (case q of Inr r \<Rightarrow> V n' = m' \<and> P r | Inl e \<Rightarrow> E e)" "test_passes E V ss m'"
  shows "test_passes E V (check_that P f # ss) m"
  unfolding test_passes_def
proof (intro allI impI)
  fix n
  assume n: "V n = m"
  obtain q n' where f: "f n = (q, n')" by (cases "f n")
  from assms(1) [OF n f] f assms(2)
  show "case fst (run_test (check_that P f # ss) n) of Passed \<Rightarrow> True | Errored e \<Rightarrow> E e | Asserted \<Rightarrow> False"
    by (cases q) (auto simp: check_that_def test_passes_def)
qed

lemma passes_check:
  assumes "op_effect V f g R" "fails_in E f" "\<And>r. R m r \<Longrightarrow> P r" "test_passes E V ss (g m)"
  shows "test_passes E V (check_that P f # ss) m"
proof (rule passes_check_at [OF _ assms(4)])
  fix n q n'
  assume n: "V n = m" "f n = (q, n')"
  have "E e" if "q = Inl e" for e using that n(2) assms(2) unfolding fails_in_def by blast
  moreover have "V n' = g m \<and> P r" if "q = Inr r" for r
    using that n assms(1,3) unfolding op_effect_def by blast
  ultimately show "case q of Inr r \<Rightarrow> V n' = g m \<and> P r | Inl e \<Rightarrow> E e" by (cases q) simp_all
qed

lemma attempt_check: "attempt f = check_that (\<lambda>_. True) f"
  by (simp add: attempt_def check_that_def fun_eq_iff)

lemma passes_attempt: "op_effect V f g R \<Longrightarrow> fails_in E f \<Longrightarrow> test_passes E V ss (g m) \<Longrightarrow> test_passes E V (attempt f # ss) m"
  unfolding attempt_check by (rule passes_check) simp_all

lemma effect_rw: "store_laws A view \<Longrightarrow> op_effect view f g R \<Longrightarrow> op_effect (view \<circ> store) (rw A op f) g R"
  unfolding op_effect_def by (auto elim!: rw_cases dest: store_lawsD(7))

abbreviation pinned_in :: "decoder \<Rightarrow> cid \<Rightarrow> store_spec \<Rightarrow> bool" where
  "pinned_in refs c m \<equiv> blocks m c \<noteq> None \<and> aliases_reaching refs m c \<noteq> {}"

abbreviation unpinned_in :: "decoder \<Rightarrow> cid \<Rightarrow> store_spec \<Rightarrow> bool" where
  "unpinned_in refs c m \<equiv> blocks m c \<noteq> None \<and> aliases_reaching refs m c = {}"

lemma storage_effects:
  assumes "store_laws A view" "dag_laws A view pins refs"
  shows "op_effect (view \<circ> store) (storage_insert A c x) (\<lambda>m. m\<lparr>blocks := (blocks m)(c \<mapsto> x)\<rparr>) (\<lambda>_ _. True)"
    "op_effect (view \<circ> store) (storage_alias A a root) (\<lambda>m. m\<lparr>alias_map := (alias_map m)(a := root)\<rparr>) (\<lambda>_ _. True)"
    "op_effect (view \<circ> store) (storage_reverse_alias A c) (\<lambda>m. m) (\<lambda>m r. case r of
        None \<Rightarrow> blocks m c = None | Some as \<Rightarrow> blocks m c \<noteq> None \<and> set as = aliases_reaching refs m c)"
    "op_effect (view \<circ> store) (storage_get A c) (\<lambda>m. m) (\<lambda>m r. r = blocks m c)"
    "op_effect (view \<circ> store) (storage_contains A c) (\<lambda>m. m) (\<lambda>m r. r = (blocks m c \<noteq> None))"
    "op_effect (view \<circ> store) (flush A) (\<lambda>m. m) (\<lambda>_ _. True)"
proof -
  show "op_effect (view \<circ> store) (storage_insert A c x) (\<lambda>m. m\<lparr>blocks := (blocks m)(c \<mapsto> x)\<rparr>) (\<lambda>_ _. True)"
    "op_effect (view \<circ> store) (storage_alias A a root) (\<lambda>m. m\<lparr>alias_map := (alias_map m)(a := root)\<rparr>) (\<lambda>_ _. True)"
    "op_effect (view \<circ> store) (storage_get A c) (\<lambda>m. m) (\<lambda>m r. r = blocks m c)"
    unfolding storage_op_defs
    by (rule effect_rw [OF assms(1)], simp add: op_effect_def store_lawsD [OF assms(1)])+
  show "op_effect (view \<circ> store) (storage_contains A c) (\<lambda>m. m) (\<lambda>m r. r = (blocks m c \<noteq> None))"
    unfolding storage_op_defs
    by (rule effect_rw [OF assms(1)], use store_lawsD(3) [OF assms(1)] in \<open>simp only: op_effect_def\<close>) blast
  have "query_law view pins (tx_reverse_alias A c) (\<lambda>m r. case r of
      None \<Rightarrow> blocks m c = None | Some as \<Rightarrow> blocks m c \<noteq> None \<and> set as = aliases_reaching refs m c)"
    using assms(2) by (simp add: dag_laws_def)
  then show "op_effect (view \<circ> store) (storage_reverse_alias A c) (\<lambda>m. m) (\<lambda>m r. case r of
        None \<Rightarrow> blocks m c = None | Some as \<Rightarrow> blocks m c \<noteq> None \<and> set as = aliases_reaching refs m c)"
    unfolding storage_reverse_alias_def batch_reverse_alias_def
    by (intro effect_rw [OF assms(1)]) (simp add: op_effect_def query_law_def)
  show "op_effect (view \<circ> store) (flush A) (\<lambda>m. m) (\<lambda>_ _. True)"
    using dag_lawsD(2) [OF assms(2)] by (fastforce simp: op_effect_def flush_def Let_def split: prod.splits)
qed

lemma storage_passes:
  fixes E :: "string \<Rightarrow> bool"
  assumes "store_laws A view" "dag_laws A view pins refs" "\<And>e. E e"
  shows "test_passes E (view \<circ> store) ss (m\<lparr>blocks := (blocks m)(c \<mapsto> x)\<rparr>) \<Longrightarrow> test_passes E (view \<circ> store) (attempt (storage_insert A c x) # ss) m"
    "test_passes E (view \<circ> store) ss (m\<lparr>alias_map := (alias_map m)(a := root)\<rparr>) \<Longrightarrow> test_passes E (view \<circ> store) (attempt (storage_alias A a root) # ss) m"
    "test_passes E (view \<circ> store) ss m \<Longrightarrow> test_passes E (view \<circ> store) (attempt (flush A) # ss) m"
    "pinned_in refs c m \<Longrightarrow> test_passes E (view \<circ> store) ss m \<Longrightarrow> test_passes E (view \<circ> store) (check_that is_pinned (storage_reverse_alias A c) # ss) m"
    "unpinned_in refs c m \<Longrightarrow> test_passes E (view \<circ> store) ss m \<Longrightarrow> test_passes E (view \<circ> store) (check_that is_unpinned (storage_reverse_alias A c) # ss) m"
proof -
  note effects = storage_effects [OF assms(1,2)]
  show "test_passes E (view \<circ> store) ss (m\<lparr>blocks := (blocks m)(c \<mapsto> x)\<rparr>) \<Longrightarrow> test_passes E (view \<circ> store) (attempt (storage_insert A c x) # ss) m"
    by (rule passes_attempt [OF effects(1)]) (simp_all add: fails_in_def assms(3))
  show "test_passes E (view \<circ> store) ss (m\<lparr>alias_map := (alias_map m)(a := root)\<rparr>) \<Longrightarrow> test_passes E (view \<circ> store) (attempt (storage_alias A a root) # ss) m"
    by (rule passes_attempt [OF effects(2)]) (simp_all add: fails_in_def assms(3))
  show "test_passes E (view \<circ> store) ss m \<Longrightarrow> test_passes E (view \<circ> store) (attempt (flush A) # ss) m"
    by (rule passes_attempt [OF effects(6)]) (simp_all add: fails_in_def assms(3))
  show "pinned_in refs c m \<Longrightarrow> test_passes E (view \<circ> store) ss m \<Longrightarrow> test_passes E (view \<circ> store) (check_that is_pinned (storage_reverse_alias A c) # ss) m"
    by (rule passes_check [OF effects(3)]) (auto simp: fails_in_def assms(3) is_pinned_def split: option.splits)
  show "unpinned_in refs c m \<Longrightarrow> test_passes E (view \<circ> store) ss m \<Longrightarrow> test_passes E (view \<circ> store) (check_that is_unpinned (storage_reverse_alias A c) # ss) m"
    by (rule passes_check [OF effects(3)]) (auto simp: fails_in_def assms(3) is_unpinned_def split: option.splits)
qed

lemmas graph_eval = aliases_reaching_simps closure_unfold closure_more children_def

lemma test_store_unpin_passes:
  assumes "store_laws A view" "dag_laws A view pins refs" "view (store d) = \<lparr>blocks = Map.empty, alias_map = Map.empty\<rparr>"
    "refs (snd a) = Inr []" "refs (snd b) = Inr [fst a]" "refs (snd c) = Inr [fst a]"
    "distinct [fst a, fst b, fst c]" "x \<noteq> y"
  shows "fst (run_test (test_store_unpin A a b c x y) d) \<noteq> Asserted"
proof -
  have "test_passes (\<lambda>_. True) (view \<circ> store) (test_store_unpin A a b c x y) \<lparr>blocks = Map.empty, alias_map = Map.empty\<rparr>"
    unfolding test_store_unpin_def using assms(4-8)
    by (intro storage_passes [OF assms(1,2)] passes_Nil) (simp_all add: graph_eval)
  with assms(3) show ?thesis by (auto simp: test_passes_def split: test_verdict.splits)
qed

lemma test_store_unpin2_passes:
  assumes "store_laws A view" "dag_laws A view pins refs" "view (store d) = \<lparr>blocks = Map.empty, alias_map = Map.empty\<rparr>"
    "refs (snd a) = Inr []" "refs (snd b) = Inr [fst a]" "fst a \<noteq> fst b" "x \<noteq> y"
  shows "fst (run_test (test_store_unpin2 A a b x y) d) \<noteq> Asserted"
proof -
  have "test_passes (\<lambda>_. True) (view \<circ> store) (test_store_unpin2 A a b x y) \<lparr>blocks = Map.empty, alias_map = Map.empty\<rparr>"
    unfolding test_store_unpin2_def using assms(4-7)
    by (intro storage_passes [OF assms(1,2)] passes_Nil) (simp_all add: graph_eval)
  with assms(3) show ?thesis by (auto simp: test_passes_def split: test_verdict.splits)
qed

subsection \<open>The tests of a node\<close>

definition test_local_store :: "'s store_api \<Rightarrow> node_block \<Rightarrow> (('s, 'ma) ipfs, node_error) test_step" where
  "test_local_store A block n =
     (case ipfs_create_temp_pin A n of
        (Inl e, n) \<Rightarrow> (Errored e, n)
      | (Inr tmp, n) \<Rightarrow>
          (case ipfs_temp_pin A tmp (fst block) n of
             (Inl e, n) \<Rightarrow> (Errored e, n)
           | (Inr tmp, n) \<Rightarrow>
               run_test
                 [attempt (ipfs_insert A block),
                  check_that (\<lambda>block2. snd block = snd block2) (ipfs_get A (fst block))] n))"

text \<open>
  \<open>contains\<close> of several blocks with \<open>&&\<close>: the first answer that is not the expected one ends it.
\<close>

fun contains_all :: "(cid \<Rightarrow> 'n \<Rightarrow> ('e + bool) \<times> 'n) \<Rightarrow> (bool \<times> cid) list \<Rightarrow> 'n \<Rightarrow> ('e + bool) \<times> 'n" where
  "contains_all f [] n = (Inr True, n)"
| "contains_all f ((expected, c) # cs) n =
     (case f c n of
        (Inl e, n) \<Rightarrow> (Inl e, n)
      | (Inr b, n) \<Rightarrow> if b = expected then contains_all f cs n else (Inr False, n))"

definition test_batch_read :: "'s store_api \<Rightarrow> node_block \<Rightarrow> node_block \<Rightarrow> (('s, 'ma) ipfs, node_error) test_step list" where
  "test_batch_read A a b =
     [attempt (ipfs_insert A a),
      attempt (ipfs_insert A b),
      check_that id (batch_ops A (contains_all (batch_contains A) [(True, fst a), (True, fst b)]))]"

text \<open>The second batch of \<open>test_batch_write\<close> gives up after its first insertion; its result is ignored.\<close>

definition insert_and_bail :: "'s store_api \<Rightarrow> node_block \<Rightarrow> ('s, unit) tx" where
  "insert_and_bail A c s = (case batch_insert A (fst c) (snd c) s of (Inl e, s) \<Rightarrow> (Inl e, s) | (Inr _, s) \<Rightarrow> (Inl ''nope!'', s))"

definition test_batch_write :: "'s store_api \<Rightarrow> node_block \<Rightarrow> node_block \<Rightarrow> node_block \<Rightarrow> node_block \<Rightarrow>
    (('s, 'ma) ipfs, node_error) test_step list" where
  "test_batch_write A a b c d =
     [attempt (batch_ops A (insert_all A [a, b])),
      check_that id (contains_all (ipfs_contains A) [(True, fst a), (True, fst b)]),
      regardless (batch_ops A (insert_and_bail A c)),
      check_that id (contains_all (ipfs_contains A) [(False, fst d), (True, fst c), (True, fst b)])]"

subsection \<open>Two nodes\<close>

text \<open>An operation of the first and of the second of two nodes.\<close>

definition on_fst :: "('n \<Rightarrow> 'r \<times> 'n) \<Rightarrow> 'n \<times> 'n \<Rightarrow> 'r \<times> 'n \<times> 'n" where
  "on_fst f ns = (case f (fst ns) of (r, n) \<Rightarrow> (r, n, snd ns))"

definition on_snd :: "('n \<Rightarrow> 'r \<times> 'n) \<Rightarrow> 'n \<times> 'n \<Rightarrow> 'r \<times> 'n \<times> 'n" where
  "on_snd f ns = (case f (snd ns) of (r, n) \<Rightarrow> (r, fst ns, n))"

text \<open>
  \<open>sync\<close> from the other node, awaited twice: for the query and for its end. \<open>bitswap p c\<close> is what
  awaiting a query for \<open>c\<close> yields when \<open>p\<close> is the storage of the provider. \<open>None\<close> would be a panic.
\<close>

type_synonym 's exchange = "'s storage \<Rightarrow> cid \<Rightarrow> oneshot \<Rightarrow> 's storage \<Rightarrow> unit result \<times> 's storage"

definition sync_from :: "'s store_api \<Rightarrow> try_send \<Rightarrow> 's exchange \<Rightarrow> cid \<Rightarrow> ('s, 'ma) ipfs \<Rightarrow> ('s, 'ma) ipfs \<Rightarrow>
    (node_error + unit option) \<times> ('s, 'ma) ipfs" where
  "sync_from A r bitswap c provider n =
     (case await_sync (bitswap (ipfs_storage provider) c) (ipfs_sync A r c [ipfs_local_peer_id provider] n) of
        None \<Rightarrow> (Inr None, n)
      | Some (q, n) \<Rightarrow> (map_sum id Some q, n))"

abbreviation sync_first :: "'s store_api \<Rightarrow> try_send \<Rightarrow> 's exchange \<Rightarrow> cid \<Rightarrow> (('s, 'ma) ipfs \<times> ('s, 'ma) ipfs, node_error) test_step" where
  "sync_first A r bitswap c \<equiv> check_that (\<lambda>q. q \<noteq> None) (\<lambda>ns. on_fst (sync_from A r bitswap c (snd ns)) ns)"

abbreviation sync_second :: "'s store_api \<Rightarrow> try_send \<Rightarrow> 's exchange \<Rightarrow> cid \<Rightarrow> (('s, 'ma) ipfs \<times> ('s, 'ma) ipfs, node_error) test_step" where
  "sync_second A r bitswap c \<equiv> check_that (\<lambda>q. q \<noteq> None) (\<lambda>ns. on_snd (sync_from A r bitswap c (fst ns)) ns)"

text \<open>\<open>test_sync\<close>, once the nodes listen, on \<open>addr1\<close> and \<open>addr2\<close>, and the blocks are encoded.\<close>

definition test_sync :: "'s store_api \<Rightarrow> try_send \<Rightarrow> 's exchange \<Rightarrow> 'ma \<Rightarrow> 'ma \<Rightarrow> bytes \<Rightarrow> node_block \<Rightarrow> node_block \<Rightarrow> node_block \<Rightarrow>
    node_block \<Rightarrow> node_block \<Rightarrow> (('s, 'ma) ipfs \<times> ('s, 'ma) ipfs, node_error) test_step list" where
  "test_sync A r bitswap addr1 addr2 x a1 b1 c1 b2 c2 =
     (let pinned1 = (\<lambda>b. check_that is_pinned (on_fst (ipfs_reverse_alias A (fst b))));
          unpinned1 = (\<lambda>b. check_that is_unpinned (on_fst (ipfs_reverse_alias A (fst b))));
          pinned2 = (\<lambda>b. check_that is_pinned (on_snd (ipfs_reverse_alias A (fst b))));
          unpinned2 = (\<lambda>b. check_that is_unpinned (on_snd (ipfs_reverse_alias A (fst b))))
      in
     [attempt (\<lambda>ns. on_fst (\<lambda>n. (Inr (), ipfs_add_address r (ipfs_local_peer_id (snd ns)) addr2 n)) ns),
      attempt (\<lambda>ns. on_snd (\<lambda>n. (Inr (), ipfs_add_address r (ipfs_local_peer_id (fst ns)) addr1 n)) ns),
      attempt (on_fst (ipfs_insert A a1)),
      attempt (on_fst (ipfs_insert A b1)),
      attempt (on_fst (ipfs_insert A c1)),
      attempt (on_fst (ipfs_alias A x (Some (fst c1)))),
      attempt (on_fst (ipfs_flush A)),
      pinned1 a1, pinned1 b1, pinned1 c1,
      attempt (on_snd (ipfs_alias A x (Some (fst c1)))),
      sync_second A r bitswap (fst c1),
      attempt (on_snd (ipfs_flush A)),
      pinned2 a1, pinned2 b1, pinned2 c1,
      attempt (on_snd (ipfs_insert A b2)),
      attempt (on_snd (ipfs_insert A c2)),
      attempt (on_snd (ipfs_alias A x (Some (fst c2)))),
      attempt (on_snd (ipfs_flush A)),
      pinned2 a1, unpinned2 b1, unpinned2 c1, pinned2 b2, pinned2 c2,
      attempt (on_fst (ipfs_alias A x (Some (fst c2)))),
      sync_first A r bitswap (fst c2),
      attempt (on_fst (ipfs_flush A)),
      pinned1 a1, unpinned1 b1, unpinned1 c1, pinned1 b2, pinned1 c2,
      attempt (on_snd (ipfs_alias A x None)),
      attempt (on_snd (ipfs_flush A)),
      unpinned2 a1, unpinned2 b1, unpinned2 c1, unpinned2 b2, unpinned2 c2,
      attempt (on_fst (ipfs_alias A x None)),
      attempt (on_snd (ipfs_flush A)),
      unpinned1 a1, unpinned1 b1, unpinned1 c1, unpinned1 b2, unpinned1 c2])"

subsection \<open>The tests of nodes pass\<close>

text \<open>The errors a test may end with: of the database or the network, but never a block that is missing.\<close>

definition outside :: "node_error \<Rightarrow> bool" where
  "outside e \<longleftrightarrow> (\<forall>c. e \<noteq> BlockNotFoundErr c)"

lemma effect_on_storage: "op_effect (view \<circ> store) f g R \<Longrightarrow> op_effect (node_view view) (on_storage f) g R"
  by (fastforce simp: op_effect_def on_storage_def Let_def map_sum_Inr split: prod.splits)

lemma fails_on_storage: "fails_in outside (on_storage f)"
  unfolding fails_in_def
proof (intro allI impI)
  fix n e n'
  assume f: "on_storage f n = (Inl e, n')"
  obtain q d where q: "f (ipfs_storage n) = (q, d)" by (cases "f (ipfs_storage n)")
  with f show "outside e" by (cases q) (auto simp: on_storage_def outside_def)
qed

lemmas node_effects = storage_effects [THEN effect_on_storage]

lemmas ipfs_op_defs = ipfs_insert_def ipfs_alias_def ipfs_reverse_alias_def ipfs_contains_def ipfs_flush_def

lemma get_stored_block:
  assumes "store_laws A view" "dag_laws A view pins refs" "blocks (node_view view n) c = Some x" "ipfs_get A c n = (q, n')"
  shows "case q of Inr b \<Rightarrow> b = (c, x) \<and> node_view view n' = node_view view n | Inl e \<Rightarrow> outside e"
proof (cases "on_storage (storage_get A c) n")
  case (Pair y n1)
  show ?thesis
  proof (cases y)
    case (Inl e)
    with Pair fails_on_storage [of "storage_get A c"] have "outside e" unfolding fails_in_def by blast
    with Pair Inl assms(4) show ?thesis by (auto simp: ipfs_get_def)
  next
    case (Inr z)
    with Pair assms(3) node_effects(4) [OF assms(1,2), of c] have "z = Some x" "node_view view n1 = node_view view n"
      unfolding op_effect_def by fastforce+
    with Pair Inr assms(4) show ?thesis by (auto simp: ipfs_get_def)
  qed
qed

lemma get_passes:
  assumes "store_laws A view" "dag_laws A view pins refs" "blocks m c = Some x" "P (c, x)" "test_passes outside (node_view view) ss m"
  shows "test_passes outside (node_view view) (check_that P (ipfs_get A c) # ss) m"
proof (rule passes_check_at [OF _ assms(5)])
  fix n :: "('a, 'b) ipfs" and q n'
  assume "node_view view n = m" "ipfs_get A c n = (q, n')"
  with get_stored_block [OF assms(1,2), of n c x q n'] assms(3,4)
  show "case q of Inr r \<Rightarrow> node_view view n' = m \<and> P r | Inl e \<Rightarrow> outside e" by (auto split: sum.splits)
qed

lemma test_local_store_passes:
  assumes "store_laws A view" "dag_laws A view pins refs" "test_local_store A block n = (v, n')"
  shows "v = Passed \<or> (\<exists>e. v = Errored e \<and> outside e)"
proof -
  let ?rest = "[attempt (ipfs_insert A block), check_that (\<lambda>block2. snd block = snd block2) (ipfs_get A (fst block))]"
  have rest: "test_passes outside (node_view view) ?rest m" for m
    unfolding ipfs_insert_def
    by (rule passes_attempt [OF node_effects(1) [OF assms(1,2)] fails_on_storage], rule get_passes [OF assms(1,2)]) auto
  obtain q1 n1 where 1: "ipfs_create_temp_pin A n = (q1, n1)" by (cases "ipfs_create_temp_pin A n")
  show ?thesis
  proof (cases q1)
    case (Inl e)
    with 1 assms(3) fails_on_storage [of "create_temp_pin A"] show ?thesis
      by (auto simp: test_local_store_def ipfs_create_temp_pin_def fails_in_def)
  next
    case (Inr tmp)
    obtain q2 n2 where 2: "ipfs_temp_pin A tmp (fst block) n1 = (q2, n2)" by (cases "ipfs_temp_pin A tmp (fst block) n1")
    show ?thesis
    proof (cases q2)
      case (Inl e)
      with 1 2 Inr assms(3) fails_on_storage [of "storage_temp_pin A tmp [fst block]"] show ?thesis
        by (auto simp: test_local_store_def ipfs_temp_pin_def fails_in_def)
    next
      case (Inr tmp')
      with 1 2 \<open>q1 = Inr tmp\<close> assms(3) have "run_test ?rest n2 = (v, n')"
        by (simp add: test_local_store_def del: run_test.simps)
      with rest show ?thesis by (rule passesD)
    qed
  qed
qed

text \<open>Reading and writing several blocks.\<close>

lemma contains_all_effect:
  assumes "\<And>c. op_effect V (f c) (\<lambda>m. m) (\<lambda>m r. r = (blocks m c \<noteq> None))"
  shows "op_effect V (contains_all f cs) (\<lambda>m. m) (\<lambda>m r. r = (\<forall>(b, c) \<in> set cs. b = (blocks m c \<noteq> None)))"
proof -
  have "V n' = V n \<and> r = (\<forall>(b, c) \<in> set cs. b = (blocks (V n) c \<noteq> None))" if "contains_all f cs n = (Inr r, n')" for n r n'
    using that
  proof (induction cs arbitrary: n)
    case (Cons x cs)
    obtain b c where x: "x = (b, c)" by (cases x)
    from Cons.prems obtain q n1 where q: "f c n = (Inr q, n1)" by (auto simp: x split: prod.splits sum.splits)
    with assms [of c] have "V n1 = V n" "q = (blocks (V n) c \<noteq> None)" unfolding op_effect_def by blast+
    with Cons.prems q Cons.IH [of n1] show ?case by (cases "q = b") (auto simp: x)
  qed simp
  then show ?thesis unfolding op_effect_def by blast
qed

lemma contains_all_fails: "(\<And>c. fails_in E (f c)) \<Longrightarrow> fails_in E (contains_all f cs)"
  unfolding fails_in_def
proof (intro allI impI)
  fix n e n'
  assume "\<And>c. \<forall>n e n'. f c n = (Inl e, n') \<longrightarrow> E e" "contains_all f cs n = (Inl e, n')"
  then show "E e" by (induction cs arbitrary: n) (fastforce split: prod.splits sum.splits if_splits)+
qed

lemma test_batch_read_passes:
  assumes "store_laws A view" "dag_laws A view pins refs" "run_test (test_batch_read A a b) n = (v, n')"
  shows "v = Passed \<or> (\<exists>e. v = Errored e \<and> outside e)"
proof -
  have "op_effect view (batch_contains A c) (\<lambda>m. m) (\<lambda>m r. r = (blocks m c \<noteq> None))" for c
    using store_lawsD(3) [OF assms(1)] unfolding op_effect_def batch_contains_def by blast
  note reads = effect_on_storage [OF effect_rw [OF assms(1) contains_all_effect [OF this]]]
  have "test_passes outside (node_view view) (test_batch_read A a b) m" for m
    unfolding test_batch_read_def ipfs_insert_def batch_ops_def
    by (intro passes_attempt [OF node_effects(1) [OF assms(1,2)] fails_on_storage]
        passes_check [OF reads fails_on_storage] passes_Nil) auto
  from passesD [OF this assms(3)] show ?thesis .
qed

text \<open>
  A batch that gives up keeps what it has inserted. The test relies on it, and on the
  insertion itself not failing: its result is ignored.
\<close>

lemma test_batch_write_passes:
  assumes "store_laws A view" "dag_laws A view pins refs" "\<And>c x p s. \<not> isl (fst (tx_put_block A c x p s))"
    "blocks (node_view view n) (fst d) = None" "fst d \<notin> {fst a, fst b, fst c}"
    "run_test (test_batch_write A a b c d) n = (v, n')"
  shows "v = Passed \<or> (\<exists>e. v = Errored e \<and> outside e)"
proof -
  have ins: "op_effect view (insert_all A [a, b]) (with_blocks [a, b]) (\<lambda>_ _. True)"
    using insert_all_spec [OF assms(1)] unfolding op_effect_def by fastforce
  have bail: "node_view view (snd (batch_ops A (insert_and_bail A c) n)) = (node_view view n)\<lparr>blocks := (blocks (node_view view n))(fst c \<mapsto> snd c)\<rparr>"
    for n :: "('a, 'b) ipfs"
  proof -
    obtain q txn where put: "tx_put_block A (fst c) (snd c) None (store (ipfs_storage n)) = (q, txn)"
      by (cases "tx_put_block A (fst c) (snd c) None (store (ipfs_storage n))")
    with assms(3) [of "fst c" "snd c" None "store (ipfs_storage n)"] obtain u where "q = Inr u" by (cases q) auto
    with put store_lawsD(1) [OF assms(1) put] store_lawsD(8) [OF assms(1)] show ?thesis
      by (simp add: batch_ops_def on_storage_def rw_def insert_and_bail_def batch_insert_def Let_def)
  qed
  note has = contains_all_effect [OF node_effects(5) [OF assms(1,2)]]
  have regardless: "test_passes outside (node_view view) (regardless (batch_ops A (insert_and_bail A c)) # ss) m"
    if "test_passes outside (node_view view) ss (m\<lparr>blocks := (blocks m)(fst c \<mapsto> snd c)\<rparr>)"
    for ss :: "(('a, 'b) ipfs, node_error) test_step list" and m
    unfolding test_passes_def
  proof (intro allI impI)
    fix n :: "('a, 'b) ipfs"
    assume "node_view view n = m"
    with that bail [of n] show "case fst (run_test (regardless (batch_ops A (insert_and_bail A c)) # ss) n) of
        Passed \<Rightarrow> True | Errored e \<Rightarrow> outside e | Asserted \<Rightarrow> False"
      by (simp add: test_passes_def regardless_def)
  qed
  have "test_passes outside (node_view view) (test_batch_write A a b c d :: (('a, 'b) ipfs, node_error) test_step list) (node_view view n)"
    unfolding test_batch_write_def ipfs_contains_def batch_ops_def [of A "insert_all A [a, b]"] using assms(4,5)
    by (intro passes_attempt [OF effect_on_storage [OF effect_rw [OF assms(1) ins]] fails_on_storage]
        passes_check [OF has contains_all_fails [OF fails_on_storage]] regardless passes_Nil) (auto simp: with_blocks_def)
  from passesD [OF this assms(6)] show ?thesis .
qed

subsection \<open>Synchronising\<close>

text \<open>
  What is documented of a sync query: when it is complete, every block that can be reached
  from the root and that the provider has is stored.
\<close>

definition fetched :: "decoder \<Rightarrow> store_spec \<Rightarrow> cid \<Rightarrow> store_spec \<Rightarrow> store_spec" where
  "fetched refs p c m = m\<lparr>blocks := (blocks p |` closure refs p {c}) ++ blocks m\<rparr>"

definition bitswap_law :: "'s exchange \<Rightarrow> ('s \<Rightarrow> store_spec) \<Rightarrow> decoder \<Rightarrow> bool" where
  "bitswap_law bitswap view refs \<longleftrightarrow> (\<forall>p c rx d d'. bitswap p c rx d = (Inr (), d') \<longrightarrow>
     view (store d') = fetched refs (view (store p)) c (view (store d)))"

definition synced :: "decoder \<Rightarrow> store_spec \<Rightarrow> cid \<Rightarrow> store_spec \<Rightarrow> store_spec" where
  "synced refs p c m = (if closure refs m {c} \<subseteq> dom (blocks m) then m else fetched refs p c m)"

text \<open>The missing blocks are listed: a failure to list them would be taken for none.\<close>

definition lists_missing :: "'s store_api \<Rightarrow> bool" where
  "lists_missing A \<longleftrightarrow> (\<forall>c d. \<not> isl (fst (storage_missing_blocks A c d)))"

lemma sync_from_effect:
  assumes "store_laws A view" "dag_laws A view pins refs" "lists_missing A" "bitswap_law bitswap view refs"
  shows "op_effect (node_view view) (sync_from A r bitswap c p) (synced refs (node_view view p) c) (\<lambda>_ q. q \<noteq> None)"
    "fails_in outside (sync_from A r bitswap c p)"
proof -
  have "query_law view pins (tx_missing_blocks A c) (\<lambda>m cs. set cs = closure refs m {c} - dom (blocks m))"
    using assms(2) by (simp add: dag_laws_def)
  then have "op_effect (node_view view) (on_storage (storage_missing_blocks A c)) (\<lambda>m. m) (\<lambda>m cs. set cs = closure refs m {c} - dom (blocks m))"
    unfolding storage_missing_blocks_def batch_missing_blocks_def
    by (intro effect_on_storage effect_rw [OF assms(1)]) (simp add: op_effect_def query_law_def)
  note missing = this [unfolded op_effect_def, rule_format]
  have result: "case sync_from A r bitswap c p n of
      (Inr q, n') \<Rightarrow> node_view view n' = synced refs (node_view view p) c (node_view view n) \<and> q \<noteq> None
    | (Inl e, n') \<Rightarrow> outside e" for n
  proof -
    obtain q d where q: "storage_missing_blocks A c (ipfs_storage n) = (q, d)" by (cases "storage_missing_blocks A c (ipfs_storage n)")
    then obtain cs where cs: "q = Inr cs" using assms(3) unfolding lists_missing_def by (metis fst_conv isl_def sum.exhaust)
    have list: "on_storage (storage_missing_blocks A c) n = (Inr cs, n\<lparr>ipfs_storage := d\<rparr>)"
      using q cs by (simp add: on_storage_def)
    have view: "view (store d) = node_view view n" "set cs = closure refs (node_view view n) {c} - dom (blocks (node_view view n))"
      using missing [OF list] by simp_all
    show ?thesis
    proof (cases "cs = []")
      case True
      then have "sync_from A r bitswap c p n = (Inr (Some ()), n\<lparr>ipfs_storage := d\<rparr>)"
        using list sync_poll_steps(1) [of None "[]" "Inr ()" "[]" True]
        by (simp add: sync_from_def await_sync_def ipfs_sync_def on_network_def service_sync_def sync_query_ready_def)
      with view True show ?thesis by (auto simp: synced_def)
    next
      case False
      obtain q v where req: "service_request r (CmdSync c [ipfs_local_peer_id p] cs) (ipfs_network n) = (q, v)"
        by (cases "service_request r (CmdSync c [ipfs_local_peer_id p] cs) (ipfs_network n)")
      have sync: "ipfs_sync A r c [ipfs_local_peer_id p] n = (SyncRequest q, n\<lparr>ipfs_storage := d, ipfs_network := v\<rparr>)"
        using list False req by (simp add: ipfs_sync_def on_network_def service_sync_def)
      have *: "\<not> closure refs (node_view view n) {c} \<subseteq> dom (blocks (node_view view n))" using False view(2) by (metis Diff_eq_empty_iff set_empty)
      show ?thesis
      proof (cases q)
        case (ReadyErr e)
        with sync show ?thesis by (simp add: sync_from_def await_sync_def outside_def)
      next
        case (Await rx)
        obtain u d' where "bitswap (ipfs_storage p) c rx d = (u, d')" by (cases "bitswap (ipfs_storage p) c rx d")
        with sync Await view * assms(4) show ?thesis
          by (cases u) (auto simp: sync_from_def await_sync_def outside_def synced_def bitswap_law_def)
      qed
    qed
  qed
  show "op_effect (node_view view) (sync_from A r bitswap c p) (synced refs (node_view view p) c) (\<lambda>_ q. q \<noteq> None)"
    unfolding op_effect_def
  proof (intro allI impI)
    fix n q n'
    assume "sync_from A r bitswap c p n = (Inr q, n')"
    with result [of n] show "node_view view n' = synced refs (node_view view p) c (node_view view n) \<and> q \<noteq> None" by simp
  qed
  show "fails_in outside (sync_from A r bitswap c p)"
    unfolding fails_in_def
  proof (intro allI impI)
    fix n e n'
    assume "sync_from A r bitswap c p n = (Inl e, n')"
    with result [of n] show "outside e" by simp
  qed
qed

text \<open>Two nodes, each with its maps.\<close>

lemma effect_fst: "op_effect V f g R \<Longrightarrow> op_effect (map_prod V V) (on_fst f) (map_prod g id) (\<lambda>m. R (fst m))"
  by (fastforce simp: op_effect_def on_fst_def split: prod.splits)

lemma effect_snd: "op_effect V f g R \<Longrightarrow> op_effect (map_prod V V) (on_snd f) (map_prod id g) (\<lambda>m. R (snd m))"
  by (fastforce simp: op_effect_def on_snd_def split: prod.splits)

lemma fails_pair: "fails_in E f \<Longrightarrow> fails_in E (on_fst f)" "fails_in E f \<Longrightarrow> fails_in E (on_snd f)"
  by (fastforce simp: fails_in_def on_fst_def on_snd_def split: prod.splits)+

lemma sync_pair:
  assumes "store_laws A view" "dag_laws A view pins refs" "lists_missing A" "bitswap_law bitswap view refs"
  shows "test_passes outside (map_prod (node_view view) (node_view view)) ss (synced refs (snd m) c (fst m), snd m) \<Longrightarrow>
      test_passes outside (map_prod (node_view view) (node_view view)) (sync_first A r bitswap c # ss) m"
    "test_passes outside (map_prod (node_view view) (node_view view)) ss (fst m, synced refs (fst m) c (snd m)) \<Longrightarrow>
      test_passes outside (map_prod (node_view view) (node_view view)) (sync_second A r bitswap c # ss) m"
proof -
  note eff = sync_from_effect [OF assms]
  have "op_effect (map_prod (node_view view) (node_view view)) (\<lambda>ns. on_fst (sync_from A r bitswap c (snd ns)) ns)
      (\<lambda>m. (synced refs (snd m) c (fst m), snd m)) (\<lambda>_ q. q \<noteq> None)"
    "op_effect (map_prod (node_view view) (node_view view)) (\<lambda>ns. on_snd (sync_from A r bitswap c (fst ns)) ns)
      (\<lambda>m. (fst m, synced refs (fst m) c (snd m))) (\<lambda>_ q. q \<noteq> None)"
    using eff(1) by (fastforce simp: op_effect_def on_fst_def on_snd_def split: prod.splits)+
  moreover have "fails_in outside (\<lambda>ns. on_fst (sync_from A r bitswap c (snd ns)) ns)"
    "fails_in outside (\<lambda>ns. on_snd (sync_from A r bitswap c (fst ns)) ns)"
    using eff(2) by (fastforce simp: fails_in_def on_fst_def on_snd_def split: prod.splits)+
  ultimately show "test_passes outside (map_prod (node_view view) (node_view view)) ss (synced refs (snd m) c (fst m), snd m) \<Longrightarrow>
      test_passes outside (map_prod (node_view view) (node_view view)) (sync_first A r bitswap c # ss) m"
    "test_passes outside (map_prod (node_view view) (node_view view)) ss (fst m, synced refs (fst m) c (snd m)) \<Longrightarrow>
      test_passes outside (map_prod (node_view view) (node_view view)) (sync_second A r bitswap c # ss) m"
    by (auto intro: passes_check)
qed

lemma pair_passes:
  fixes view :: "'s \<Rightarrow> store_spec"
  defines "V \<equiv> map_prod (node_view view) (node_view view) :: ('s, 'ma) ipfs \<times> ('s, 'ma) ipfs \<Rightarrow> store_spec \<times> store_spec"
  assumes "store_laws A view" "dag_laws A view pins refs"
  shows "test_passes outside V ss (m1\<lparr>blocks := (blocks m1)(fst b \<mapsto> snd b)\<rparr>, m2) \<Longrightarrow> test_passes outside V (attempt (on_fst (ipfs_insert A b)) # ss) (m1, m2)"
    "test_passes outside V ss (m1, m2\<lparr>blocks := (blocks m2)(fst b \<mapsto> snd b)\<rparr>) \<Longrightarrow> test_passes outside V (attempt (on_snd (ipfs_insert A b)) # ss) (m1, m2)"
    "test_passes outside V ss (m1\<lparr>alias_map := (alias_map m1)(a := root)\<rparr>, m2) \<Longrightarrow> test_passes outside V (attempt (on_fst (ipfs_alias A a root)) # ss) (m1, m2)"
    "test_passes outside V ss (m1, m2\<lparr>alias_map := (alias_map m2)(a := root)\<rparr>) \<Longrightarrow> test_passes outside V (attempt (on_snd (ipfs_alias A a root)) # ss) (m1, m2)"
    "test_passes outside V ss (m1, m2) \<Longrightarrow> test_passes outside V (attempt (on_fst (ipfs_flush A)) # ss) (m1, m2)"
    "test_passes outside V ss (m1, m2) \<Longrightarrow> test_passes outside V (attempt (on_snd (ipfs_flush A)) # ss) (m1, m2)"
    "pinned_in refs c m1 \<Longrightarrow> test_passes outside V ss (m1, m2) \<Longrightarrow> test_passes outside V (check_that is_pinned (on_fst (ipfs_reverse_alias A c)) # ss) (m1, m2)"
    "pinned_in refs c m2 \<Longrightarrow> test_passes outside V ss (m1, m2) \<Longrightarrow> test_passes outside V (check_that is_pinned (on_snd (ipfs_reverse_alias A c)) # ss) (m1, m2)"
    "unpinned_in refs c m1 \<Longrightarrow> test_passes outside V ss (m1, m2) \<Longrightarrow> test_passes outside V (check_that is_unpinned (on_fst (ipfs_reverse_alias A c)) # ss) (m1, m2)"
    "unpinned_in refs c m2 \<Longrightarrow> test_passes outside V ss (m1, m2) \<Longrightarrow> test_passes outside V (check_that is_unpinned (on_snd (ipfs_reverse_alias A c)) # ss) (m1, m2)"
proof -
  note fails = fails_pair [OF fails_on_storage]
  note attempt1 = passes_attempt [OF effect_fst fails(1)] and attempt2 = passes_attempt [OF effect_snd fails(2)]
    and check1 = passes_check [OF effect_fst fails(1)] and check2 = passes_check [OF effect_snd fails(2)]
  note effects = node_effects [OF assms(2,3)]
  show "test_passes outside V ss (m1\<lparr>blocks := (blocks m1)(fst b \<mapsto> snd b)\<rparr>, m2) \<Longrightarrow> test_passes outside V (attempt (on_fst (ipfs_insert A b)) # ss) (m1, m2)"
    "test_passes outside V ss (m1, m2\<lparr>blocks := (blocks m2)(fst b \<mapsto> snd b)\<rparr>) \<Longrightarrow> test_passes outside V (attempt (on_snd (ipfs_insert A b)) # ss) (m1, m2)"
    "test_passes outside V ss (m1\<lparr>alias_map := (alias_map m1)(a := root)\<rparr>, m2) \<Longrightarrow> test_passes outside V (attempt (on_fst (ipfs_alias A a root)) # ss) (m1, m2)"
    "test_passes outside V ss (m1, m2\<lparr>alias_map := (alias_map m2)(a := root)\<rparr>) \<Longrightarrow> test_passes outside V (attempt (on_snd (ipfs_alias A a root)) # ss) (m1, m2)"
    "test_passes outside V ss (m1, m2) \<Longrightarrow> test_passes outside V (attempt (on_fst (ipfs_flush A)) # ss) (m1, m2)"
    "test_passes outside V ss (m1, m2) \<Longrightarrow> test_passes outside V (attempt (on_snd (ipfs_flush A)) # ss) (m1, m2)"
    unfolding ipfs_op_defs V_def
    by (rule attempt1 [OF effects(1)] attempt2 [OF effects(1)] attempt1 [OF effects(2)] attempt2 [OF effects(2)]
        attempt1 [OF effects(6)] attempt2 [OF effects(6)], simp)+
  show "pinned_in refs c m1 \<Longrightarrow> test_passes outside V ss (m1, m2) \<Longrightarrow> test_passes outside V (check_that is_pinned (on_fst (ipfs_reverse_alias A c)) # ss) (m1, m2)"
    "unpinned_in refs c m1 \<Longrightarrow> test_passes outside V ss (m1, m2) \<Longrightarrow> test_passes outside V (check_that is_unpinned (on_fst (ipfs_reverse_alias A c)) # ss) (m1, m2)"
    unfolding ipfs_op_defs V_def
    by (rule check1 [OF effects(3)]; auto simp: is_pinned_def is_unpinned_def split: option.splits)+
  show "pinned_in refs c m2 \<Longrightarrow> test_passes outside V ss (m1, m2) \<Longrightarrow> test_passes outside V (check_that is_pinned (on_snd (ipfs_reverse_alias A c)) # ss) (m1, m2)"
    "unpinned_in refs c m2 \<Longrightarrow> test_passes outside V ss (m1, m2) \<Longrightarrow> test_passes outside V (check_that is_unpinned (on_snd (ipfs_reverse_alias A c)) # ss) (m1, m2)"
    unfolding ipfs_op_defs V_def
    by (rule check2 [OF effects(3)]; auto simp: is_pinned_def is_unpinned_def split: option.splits)+
qed

lemma add_address_passes:
  "test_passes E (map_prod (node_view view) (node_view view)) ss m \<Longrightarrow> test_passes E (map_prod (node_view view) (node_view view))
     (attempt (\<lambda>ns. on_fst (\<lambda>n. (Inr (), ipfs_add_address r (p ns) addr n)) ns) # ss) m"
  "test_passes E (map_prod (node_view view) (node_view view)) ss m \<Longrightarrow> test_passes E (map_prod (node_view view) (node_view view))
     (attempt (\<lambda>ns. on_snd (\<lambda>n. (Inr (), ipfs_add_address r (p ns) addr n)) ns) # ss) m"
  by (rule passes_attempt [of _ _ "\<lambda>m. m" "\<lambda>_ _. True"];
      auto simp: op_effect_def fails_in_def on_fst_def on_snd_def ipfs_add_address_def tell_network_def)+


text \<open>A bitswap between stores of graphs, and a store that never fails.\<close>

definition copy_graph :: "decoder \<Rightarrow> list_db exchange" where
  "copy_graph refs p c rx d = (Inr (), d\<lparr>store := (fst (store d) @
     filter (\<lambda>(k, x). k \<in> reached refs (fst (store p)) [c]) (fst (store p)), snd (store d))\<rparr>)"

lemma copy_graph_law: "bitswap_law (copy_graph refs) list_view refs"
proof -
  have "hm_get (filter (\<lambda>(k, x). k \<in> S) m) = hm_get m |` S" for S and m :: "(cid, block_data) hashmap"
    by (induction m) (auto simp: restrict_map_def fun_eq_iff)
  then show ?thesis
    by (auto simp: bitswap_law_def copy_graph_def fetched_def reached_closure) (simp add: list_view_def)
qed

lemma run_test_no_error:
  assumes "\<And>s n e. s \<in> set ss \<Longrightarrow> fst (s n) \<noteq> Errored e"
  shows "fst (run_test ss n) \<noteq> Errored e"
  using assms
proof (induction ss arbitrary: n)
  case (Cons s ss)
  obtain v n' where s: "s n = (v, n')" by (cases "s n")
  have "v \<noteq> Errored e" using Cons.prems [of s n e] s by simp
  moreover have "fst (run_test ss n') \<noteq> Errored e" by (rule Cons.IH) (rule Cons.prems, simp)
  ultimately show ?case using s by (cases v) simp_all
qed simp

lemma no_error: "fails_in (\<lambda>_. False) f \<Longrightarrow> fst (attempt f n) \<noteq> Errored e" "fails_in (\<lambda>_. False) f \<Longrightarrow> fst (check_that P f n) \<noteq> Errored e"
  by (auto simp: fails_in_def attempt_def check_that_def split: prod.splits sum.splits)

lemma dag_store_no_error:
  "fails_in (\<lambda>_. False) (ipfs_insert (dag_store refs) b)" "fails_in (\<lambda>_. False) (ipfs_alias (dag_store refs) a root)"
  "fails_in (\<lambda>_. False) (ipfs_flush (dag_store refs))" "fails_in (\<lambda>_. False) (ipfs_reverse_alias (dag_store refs) c)"
  "fails_in (\<lambda>_. False) (sync_from (dag_store refs) SendOk (copy_graph refs) c p)" "lists_missing (dag_store refs)"
proof -
  show "fails_in (\<lambda>_. False) (ipfs_insert (dag_store refs) b)" "fails_in (\<lambda>_. False) (ipfs_alias (dag_store refs) a root)"
    "fails_in (\<lambda>_. False) (ipfs_flush (dag_store refs))" "fails_in (\<lambda>_. False) (ipfs_reverse_alias (dag_store refs) c)"
    by (simp_all add: fails_in_def ipfs_op_defs storage_op_defs storage_reverse_alias_def batch_reverse_alias_def flush_def
        on_storage_def rw_def Let_def dag_store_def)
  show listed: "lists_missing (dag_store refs)"
    by (simp add: lists_missing_def storage_missing_blocks_def batch_missing_blocks_def rw_def Let_def dag_store_def)
  show "fails_in (\<lambda>_. False) (sync_from (dag_store refs) SendOk (copy_graph refs) c p)"
    unfolding fails_in_def
  proof (intro allI impI)
    fix n e n'
    assume "sync_from (dag_store refs) SendOk (copy_graph refs) c p n = (Inl e, n')"
    moreover have "\<exists>cs d. storage_missing_blocks (dag_store refs) c (ipfs_storage n) = (Inr cs, d)"
      by (simp add: storage_missing_blocks_def batch_missing_blocks_def rw_def Let_def dag_store_def)
    ultimately show False using sync_poll_steps(1) [of None "[]" "Inr ()" "[]" True]
      by (auto simp: sync_from_def await_sync_def ipfs_sync_def on_storage_def on_network_def service_sync_def
          sync_query_ready_def service_request_def service_cmd_def handle_send_result_def copy_graph_def Let_def split: if_splits)
  qed
qed

definition sample_refs :: decoder where
  "sample_refs x = Inr (map unat (tl x))"

definition sample_pair :: "(list_db, nat) ipfs \<times> (list_db, nat) ipfs" where
  "sample_pair = (\<lparr>ipfs_storage = empty_storage, ipfs_network = service_new ''key1'' 1 ''one''\<rparr>,
     \<lparr>ipfs_storage = empty_storage, ipfs_network = service_new ''key2'' 2 ''two''\<rparr>)"


subsection \<open>Synchronising a chain or a tree\<close>

text \<open>
  \<open>test_bitswap_sync_chain\<close> and \<open>test_bitswap_sync_tree\<close>: \<open>c\<close> and \<open>bs\<close> are the root and the blocks of
  the tree. The events of the query are only logged, its result included.
\<close>

definition drain_sync :: "'s store_api \<Rightarrow> try_send \<Rightarrow> 's exchange \<Rightarrow> cid \<Rightarrow> ('s, 'ma) ipfs \<Rightarrow> ('s, 'ma) ipfs \<Rightarrow>
    (node_error + unit) \<times> ('s, 'ma) ipfs" where
  "drain_sync A r bitswap c provider n =
     (case ipfs_sync A r c [ipfs_local_peer_id provider] n of
        (SyncReady _, n) \<Rightarrow> (Inr (), n)
      | (SyncRequest (ReadyErr e), n) \<Rightarrow> (Inl (SendErr e), n)
      | (SyncRequest (Await rx), n) \<Rightarrow>
          (Inr (), n\<lparr>ipfs_storage := snd (bitswap (ipfs_storage provider) c rx (ipfs_storage n))\<rparr>))"

definition test_bitswap_sync :: "'s store_api \<Rightarrow> try_send \<Rightarrow> 's exchange \<Rightarrow> bytes \<Rightarrow> cid \<Rightarrow> node_block list \<Rightarrow>
    (('s, 'ma) ipfs \<times> ('s, 'ma) ipfs, node_error) test_step list" where
  "test_bitswap_sync A r bitswap root c bs =
     [attempt (on_fst (ipfs_alias A root (Some c))),
      attempt (on_snd (ipfs_alias A root (Some c)))] @
     map (\<lambda>b. attempt (on_fst (ipfs_insert A b))) bs @
     [attempt (on_fst (ipfs_flush A)),
      attempt (\<lambda>ns. on_snd (drain_sync A r bitswap c (fst ns)) ns),
      attempt (on_snd (ipfs_flush A))] @
     map (\<lambda>b. check_that (\<lambda>d. d = b) (on_snd (ipfs_get A (fst b)))) bs"

lemma drain_sync_from:
  assumes "\<And>p c rx d. fst (bitswap p c rx d) = Inr ()"
  shows "drain_sync A r bitswap c p n = (case sync_from A r bitswap c p n of (q, n) \<Rightarrow> (map_sum id (\<lambda>_. ()) q, n))"
proof -
  obtain q n1 where q: "ipfs_sync A r c [ipfs_local_peer_id p] n = (q, n1)" by (cases "ipfs_sync A r c [ipfs_local_peer_id p] n")
  show ?thesis
  proof (cases q)
    case (SyncReady sq)
    with q have "sq = sync_query_ready (Inr ())"
      by (auto simp: ipfs_sync_def on_network_def service_sync_def Let_def split: prod.splits if_splits)
    with q SyncReady sync_poll_steps(1) [of None "[]" "Inr ()" "[]" True] show ?thesis
      by (simp add: drain_sync_def sync_from_def await_sync_def sync_query_ready_def)
  next
    case (SyncRequest req)
    show ?thesis
    proof (cases req)
      case (ReadyErr e)
      with q SyncRequest show ?thesis by (simp add: drain_sync_def sync_from_def await_sync_def)
    next
      case (Await rx)
      obtain d where "bitswap (ipfs_storage p) c rx (ipfs_storage n1) = (Inr (), d)"
        using assms [of "ipfs_storage p" c rx "ipfs_storage n1"] by (cases "bitswap (ipfs_storage p) c rx (ipfs_storage n1)") simp
      with q SyncRequest Await show ?thesis by (simp add: drain_sync_def sync_from_def await_sync_def)
    qed
  qed
qed

text \<open>
  The second node ends up with every block of the tree, when every block can be reached from
  the root and bitswap does not fail.
\<close>

lemma insert_all_passes:
  assumes "store_laws A view" "dag_laws A view pins refs"
    "test_passes outside (map_prod (node_view view) (node_view view)) ss (with_blocks bs m1, m2)"
  shows "test_passes outside (map_prod (node_view view) (node_view view)) (map (\<lambda>b. attempt (on_fst (ipfs_insert A b))) bs @ ss) (m1, m2)"
  using assms(3)
proof (induction bs arbitrary: m1)
  case (Cons b bs)
  then show ?case by (cases b) (auto intro: pair_passes(1) [OF assms(1,2)])
qed simp

lemma get_all_passes:
  assumes "store_laws A view" "dag_laws A view pins refs" "\<And>c x. (c, x) \<in> set bs \<Longrightarrow> blocks m2 c = Some x"
  shows "test_passes outside (map_prod (node_view view) (node_view view)) (map (\<lambda>b. check_that (\<lambda>d. d = b) (on_snd (ipfs_get A (fst b)))) bs) (m1, m2)"
  using assms(3)
proof (induction bs)
  case (Cons b bs)
  show ?case unfolding list.map
  proof (rule passes_check_at)
    fix ns :: "('a, 'b) ipfs \<times> ('a, 'b) ipfs" and q ns'
    assume ns: "map_prod (node_view view) (node_view view) ns = (m1, m2)" "on_snd (ipfs_get A (fst b)) ns = (q, ns')"
    obtain n' where get: "ipfs_get A (fst b) (snd ns) = (q, n')" "ns' = (fst ns, n')"
      using ns(2) by (auto simp: on_snd_def split: prod.splits)
    have "blocks (node_view view (snd ns)) (fst b) = Some (snd b)" using Cons.prems [of "fst b" "snd b"] ns(1) by (cases ns) simp
    from get_stored_block [OF assms(1,2) this get(1)] get(2) ns(1)
    show "case q of Inr r \<Rightarrow> map_prod (node_view view) (node_view view) ns' = (m1, m2) \<and> r = b | Inl e \<Rightarrow> outside e"
      by (cases ns) (auto split: sum.splits)
  qed (use Cons in auto)
qed simp

lemma test_bitswap_sync_passes:
  assumes "store_laws A view" "dag_laws A view pins refs" "lists_missing A" "bitswap_law bitswap view refs"
    "\<And>p c rx d. fst (bitswap p c rx d) = Inr ()"
    "node_view view (fst ns) = \<lparr>blocks = Map.empty, alias_map = Map.empty\<rparr>"
    "node_view view (snd ns) = \<lparr>blocks = Map.empty, alias_map = Map.empty\<rparr>"
    "distinct (map fst bs)" "set (map fst bs) \<subseteq> closure refs (with_blocks bs \<lparr>blocks = Map.empty, alias_map = [root \<mapsto> c]\<rparr>) {c}"
    "run_test (test_bitswap_sync A r bitswap root c bs) ns = (v, ns')"
  shows "v = Passed \<or> (\<exists>e. v = Errored e \<and> outside e)"
proof -
  let ?V = "map_prod (node_view view) (node_view view) :: ('a, 'b) ipfs \<times> ('a, 'b) ipfs \<Rightarrow> store_spec \<times> store_spec"
  let ?m = "\<lparr>blocks = Map.empty, alias_map = [root \<mapsto> c]\<rparr>"
  note eff = sync_from_effect [OF assms(1-4), where c = c and r = r]
  have drain: "case q of Inr _ \<Rightarrow> node_view view n' = synced refs (node_view view p) c (node_view view n) | Inl e \<Rightarrow> outside e"
    if "drain_sync A r bitswap c p n = (q, n')" for q n' and n p :: "('a, 'b) ipfs"
  proof -
    obtain q' n1 where "sync_from A r bitswap c p n = (q', n1)" by (cases "sync_from A r bitswap c p n")
    with that eff [of p] show ?thesis unfolding drain_sync_from [OF assms(5)] op_effect_def fails_in_def by (cases q') fastforce+
  qed
  have step: "test_passes outside ?V (attempt (\<lambda>ns. on_snd (drain_sync A r bitswap c (fst ns)) ns) # ss) (m1, m2)"
    if "test_passes outside ?V ss (m1, synced refs m1 c m2)" for ss m1 m2
    unfolding attempt_check
  proof (rule passes_check_at [OF _ that])
    fix ns q and ns' :: "('a, 'b) ipfs \<times> ('a, 'b) ipfs"
    assume ns: "?V ns = (m1, m2)" "on_snd (drain_sync A r bitswap c (fst ns)) ns = (q, ns')"
    then obtain n' where n': "drain_sync A r bitswap c (fst ns) (snd ns) = (q, n')" "ns' = (fst ns, n')"
      by (auto simp: on_snd_def split: prod.splits)
    from drain [OF n'(1)] n'(2) ns(1) show "case q of Inr r \<Rightarrow> ?V ns' = (m1, synced refs m1 c m2) \<and> True | Inl e \<Rightarrow> outside e"
      by (cases ns; cases q) auto
  qed
  have "synced refs (with_blocks bs ?m) c ?m = fetched refs (with_blocks bs ?m) c ?m"
    using closure_roots [of "{c}" refs ?m] by (auto simp: synced_def)
  moreover have "blocks (fetched refs (with_blocks bs ?m) c ?m) c' = Some x" if "(c', x) \<in> set bs" for c' x
  proof -
    have "c' \<in> closure refs (with_blocks bs ?m) {c}" using that assms(9) by force
    moreover have "blocks (with_blocks bs ?m) c' = Some x" using that assms(8) by (simp add: with_blocks_def rev_map [symmetric])
    ultimately show ?thesis by (simp add: fetched_def)
  qed
  ultimately have "test_passes outside ?V (test_bitswap_sync A r bitswap root c bs)
      (\<lparr>blocks = Map.empty, alias_map = Map.empty\<rparr>, \<lparr>blocks = Map.empty, alias_map = Map.empty\<rparr>)"
    unfolding test_bitswap_sync_def append_Cons append_Nil
    by (intro pair_passes [OF assms(1,2)] insert_all_passes [OF assms(1,2)] step get_all_passes [OF assms(1,2)]) simp
  then have "test_passes outside ?V (test_bitswap_sync A r bitswap root c bs) (?V ns)" using assms(6,7) by (cases ns) simp
  from passesD [OF this assms(10)] show ?thesis .
qed

end
