(* ===== verification/Spec2Isabelle.thy ===== *)
theory Spec2Isabelle
  imports BookProperties Subscriptions Queries Interleaving ReplyTypes CliMain Executor Variable Metrics SimDiscover NetTests GcTest StoreTests
begin

text \<open>
  A verification library for ipfs-embed, a library that embeds an IPFS node in a program,
  its command line tool and its simulation harness.

  \<^bold>\<open>The program.\<close> A node (\<open>Ipfs\<close>, \<open>src/src/lib.rs\<close>) consists of a storage service
  (\<open>src/src/db.rs\<close>) and a network service (\<open>src/src/net/mod.rs\<close>). The network service is a
  handle: its methods put commands into a bounded channel. The network task (\<open>poll_swarm\<close>)
  takes the commands and the events of the libp2p swarm, one at a time, and hands them to the
  network behaviour (\<open>src/src/net/behaviour.rs\<close>), which keeps a table of running queries with
  the channels waiting for them and a table of topic subscribers, and to the address book
  (\<open>src/src/net/peers.rs\<close>), which keeps a record of every known peer
  (\<open>src/src/net/peer_info.rs\<close>) and decides which addresses to dial. The command line tool
  (\<open>src/cli\<close>) reads commands as lines of text, runs them on a node and prints events; the
  harness (\<open>src/harness/src/lib.rs\<close>) starts many such tools on simulated machines, and the
  programs in \<open>src/harness/src/bin\<close> send them commands and check the events they report.

  \<^bold>\<open>Conventions.\<close> Code outside the repository is a parameter, a record of functions, with its
  documented behaviour as a predicate on that record: the multiaddr crate
  (\<open>multiaddr_api\<close>, \<open>multiaddr_laws\<close>), the printing of errors, the clock, the random numbers,
  the unbounded channels and the iteration order of hash sets (\<open>env\<close>, \<open>hash_set_laws\<close>), the
  protocol crates of libp2p (\<open>net_env\<close>, \<open>base_laws\<close>, \<open>topic_laws\<close>), the printers and parsers
  of identifiers and JSON (\<open>wire_api\<close>, \<open>wire_laws\<close>), the block store
  (\<open>store_api\<close>, \<open>store_laws\<close>, \<open>pin_laws\<close>, \<open>dag_laws\<close>), bitswap between two stores
  (\<open>bitswap_law\<close>), the file system (\<open>open_api\<close>), the constructors of the
  protocols (\<open>net_lib\<close>), the block encoding (\<open>block_lib\<close>, \<open>encoder\<close>, \<open>dag_lib\<close>), the async runtimes (\<open>runtimes\<close>,
  \<open>runtime_laws\<close>), the locks (\<open>rwlock_api\<close>, \<open>rwlock_laws\<close>), the metrics registry (\<open>registry_api\<close>,
  \<open>registry_laws\<close>) and the network simulator (\<open>sim_api\<close>, \<open>sim_laws\<close>). Calls to the protocol crates are
  recorded in the state, and what they return may depend on all calls before. A panic is
  \<open>None\<close>, an error \<open>Inl\<close>. Words and durations have their width: sums that panic in the code
  are checked in the model. Hash maps are association lists without duplicate keys.

  \<^bold>\<open>The theories.\<close>

  \<^item> \<open>Prelude\<close>: panics (\<open>returns\<close>), hash maps, integers, durations, strings; the locale
    \<open>bounded_steps\<close>, which turns a step that keeps an invariant into a run that does.
  \<^item> \<open>Rtt\<close>: the statistics \<open>Rtt\<close> of \<open>peer_info.rs\<close>. The averages stay within the samples; the
    failure rate stays below its limit.
  \<^item> \<open>Multiaddr\<close>, \<open>NetErrors\<close>: the address helpers and the classification of errors in
    \<open>peers.rs\<close> and \<open>peer_info.rs\<close>. Tagging an address with a peer and removing the tag are inverse.
  \<^item> \<open>PeerInfo\<close>: \<open>PeerInfo\<close> with its addresses, connections and failures. Sources of an address
    do not depend on the order of observations; probes are bounded; ten failures are kept.
  \<^item> \<open>Channels\<close>: sending to a list of subscribers that drops the closed ones; the locale
    \<open>fan_out\<close> shows that a subscriber sees a prefix of what is published.
  \<^item> \<open>AddressBook\<close>: \<open>AddressBook\<close> and its swarm callbacks, one definition per method.
    \<open>BookInvariant\<close>: the invariant \<open>book_inv\<close> and that every operation returns and keeps it.
    \<open>BookProperties\<close>: what identification, dial failures, redials, pruning, closing and
    establishing connections do, and the order of the events.
  \<^item> \<open>Behaviour\<close>: \<open>NetworkBackendBehaviour\<close>, its methods and event handlers.
    \<open>Network\<close>: the commands, the swarm events and the loop of the task, whose input is what
    \<open>select\<close> yields in turn; the futures and streams that callers hold.
  \<^item> \<open>NetworkProperties\<close>: every reply channel is resolved exactly once (a ledger over the
    outcomes and the query table) and the task does not panic.
    \<open>TaskInvariant\<close>: the locale \<open>task_invariant\<close>, which reduces an invariant of the task to the
    few places that call a protocol; the protocols are used as configured.
    \<open>Subscriptions\<close>: gossipsub is subscribed to exactly the topics with subscribers.
    \<open>Queries\<close>: a pending request is answered when its query completes; the stream of a sync
    query is the progress of that query.
  \<^item> \<open>Service\<close>: the handle \<open>NetworkService\<close>. \<open>Clients\<close>: the queries clients poll, the
    forwarding of listener events, and clients composed with the task: each request is
    answered or cancelled once. \<open>Interleaving\<close>: clients and the task side by side, as a step
    relation over the shared command channel; at every moment each request is in one place,
    and no state is stuck. \<open>ReplyTypes\<close>: the replies have the types the requests declare.
  \<^item> \<open>Storage\<close>: \<open>StorageService\<close> and its transactions, opening and garbage collection.
    \<open>Simulation\<close>: the locale \<open>fallible_refinement\<close> for operations that may fail, with all of
    their effect or none. \<open>StorageProperties\<close>: the storage refines two maps, a batch keeps what
    it did before a failure, eviction ends, opening creates only what is configured.
    \<open>Dags\<close>: blocks that refer to blocks; eviction keeps what the aliases and pins reach.
  \<^item> \<open>Node\<close>: the methods of \<open>Ipfs\<close>, the view bitswap has of the storage and the store trait of
    libipld. \<open>NodeProperties\<close>: fetching returns what the store holds.
  \<^item> \<open>CliProtocol\<close>, \<open>CliRoundtrip\<close>: the text of commands and events; printing and parsing are
    inverse. \<open>CliMain\<close>: the read loop; a session answers like a map of blocks.
  \<^item> \<open>Startup\<close>: configurations, the constructors from the behaviour up to the node, and the
    start of the command line tool, which starts the node its arguments ask for, up to the
    name; that node is safe.
  \<^item> \<open>Executor\<close>: \<open>executor.rs\<close>, the life of a spawned task, and the tasks of a node that is
    dropped. \<open>Variable\<close>: \<open>variable.rs\<close>; a reader sees what was last written. \<open>Metrics\<close>: the
    registration of metrics, \<open>telemetry.rs\<close>, and what is counted and timed.
  \<^item> \<open>Harness\<close>: roles of the simulated machines and the trees of blocks they exchange.
    \<open>Machines\<close>: programs over the simulator, \<open>run_netsim\<close>, and the rules (\<open>effect\<close>) for what a
    program that passes has sent and seen. \<open>SimBitswap\<close>, \<open>SimDiscover\<close>: the five simulation
    programs; what a passing run of each establishes, and what it does not when the nodes are
    gone.
  \<^item> \<open>Examples\<close>: \<open>sync.rs\<close> and \<open>restart.rs\<close>; an import under a temporary pin is safe from the
    garbage collector, and what restarting a node leaves running.
  \<^item> \<open>NetTests\<close>: the unit tests of the address book (\<open>src/src/net/tests.rs\<close>); they pass on the model.
    \<open>GcTest\<close>: the test of the garbage collector (\<open>src/tests/gc.rs\<close>), which passes for all graphs.
    \<open>StoreTests\<close>: the tests of aliases, batches and synchronisation in \<open>db.rs\<close> and \<open>lib.rs\<close>, which
    pass on every store that behaves as documented.

  \<^bold>\<open>Bounds.\<close> Runs of the address book and of the task are shorter than 2^32 steps where an
  invariant bounds the failure counters, which are 32 bits wide and grow by at most one per
  step. Five loops have no bound of their own and are partial functions, where \<open>None\<close> is a
  loop that does not end: polling a sync query, evicting blocks, following references in the
  test of the collector, and, in the simulation programs, receiving events and drawing a range
  of addresses. It is proved when the first three end, that polling a query whose task has gone does not, and that receiving from a node that
  has gone does not. No other definition needs fuel.

  \<^bold>\<open>What is not modelled.\<close> Log lines, the transport stack that \<open>NetworkService::new\<close> assembles
  from library parts, building the command line tool with cargo (\<open>build_bin\<close>), the HTTP server
  behind the telemetry, of the examples the start of their nodes and what they print, and
  \<open>compat.rs\<close>, which fetches blocks of a public peer. Of the tests, those that depend on timing or
  on the network (exchange, records, gossip) and \<open>test_store_evict\<close>, which depends on the order in
  which the block store evicts its cache; \<open>test_util.rs\<close> is a copy of the tree builder of the
  harness. The components that share a
  variable with readers keep its value; that the readers see this value is the theorem on
  \<open>Variable\<close>. Within the network task the order in which the channel delivers
  commands and the swarm delivers events is arbitrary, and the theorems quantify over it; the
  storage is behind one lock, under which each operation of the block store is an atomic step. What the nodes of a
  simulation do is not derived from the model of the node: the programs are verified against
  the interface of the simulator.
\<close>

end
